theory Spec2Isabelle
  imports Main
begin

section \<open>The symbol model supplied by the parser\<close>

text \<open>
  The three analysis scripts (\<^verbatim>\<open>code-smells.ts\<close>, \<^verbatim>\<open>trace-calls.ts\<close>,
  \<^verbatim>\<open>extract-signatures.ts\<close>) read a parsed project. The parser is an external library;
  what it returns is data here: syntax trees, declarations with the values of their
  accessors, and source files with their declaration lists in the order the accessors
  return them.
\<close>

datatype Token = AmpersandAmpersandToken | BarBarToken | OtherToken

datatype SyntaxKind =
    IfStatement | ConditionalExpression
  | ForStatement | ForInStatement | ForOfStatement
  | WhileStatement | DoStatement
  | CaseClause | CatchClause
  | TryStatement | SwitchStatement
  | BinaryExpression Token
  | Block | ParameterNode | OtherSyntax

datatype Node = Node (getKind: SyntaxKind) (getChildren: "Node list")

text \<open>\<^verbatim>\<open>forEachDescendant\<close>: every node below the given one, parents before children.\<close>

fun descendants :: "Node \<Rightarrow> Node list" where
  "descendants (Node k cs) = concat (map (\<lambda>c. c # descendants c) cs)"

datatype DeclKind = FunctionDeclaration | MethodDeclaration

datatype Scope = ScopePublic | ScopeProtected | ScopePrivate

text \<open>
  A parameter. \<open>paramType\<close> is the text of \<^verbatim>\<open>p.getType().getText()\<close>: the type the
  checker computes for the parameter, not the annotation as it is written in the file.
\<close>

record Parameter =
  paramName :: string
  paramIsOptional :: bool
  paramType :: string

text \<open>
  A \<^verbatim>\<open>FunctionDeclaration | MethodDeclaration\<close>. \<open>fnExportKeyword\<close> is what
  \<^verbatim>\<open>isExported()\<close> answers on an exportable node; \<open>fnNode\<close> is the syntax tree of the
  whole declaration (parameters and body are among its children).
\<close>

record FunctionLike =
  fnKind :: DeclKind
  fnName :: "string option"
  fnExportKeyword :: bool
  fnStartLine :: int
  fnEndLine :: int
  fnTypeParameters :: "string list"
  fnParameters :: "Parameter list"
  fnReturnType :: string
  fnIsAsync :: bool
  fnIsStatic :: bool
  fnScope :: Scope
  fnJsDocs :: "string list"
  fnNode :: Node

record ClassDeclaration =
  clsName :: "string option"
  clsExportKeyword :: bool
  clsStartLine :: int
  clsTypeParameters :: "string list"
  clsExtends :: "string option"
  clsImplements :: "string list"
  clsJsDocs :: "string list"
  clsMethods :: "FunctionLike list"
  clsProperties :: "string list"

record InterfaceDeclaration =
  ifaceName :: string
  ifaceExportKeyword :: bool
  ifaceStartLine :: int
  ifaceTypeParameters :: "string list"
  ifaceExtends :: "string list"
  ifaceJsDocs :: "string list"

record TypeAliasDeclaration =
  aliasName :: string
  aliasExportKeyword :: bool
  aliasStartLine :: int
  aliasTypeParameters :: "string list"
  aliasType :: string
  aliasJsDocs :: "string list"

text \<open>
  A source file: \<open>sfPath\<close> is its path relative to the working directory,
  \<open>sfImports\<close> the module specifiers of its import declarations.
\<close>

record SourceFile =
  sfPath :: string
  sfEndLine :: int
  sfFunctions :: "FunctionLike list"
  sfClasses :: "ClassDeclaration list"
  sfInterfaces :: "InterfaceDeclaration list"
  sfTypeAliases :: "TypeAliasDeclaration list"
  sfImports :: "string list"

section \<open>Strings\<close>

text \<open>\<^verbatim>\<open>Array.prototype.join\<close>.\<close>

fun join :: "string \<Rightarrow> string list \<Rightarrow> string" where
  "join sep [] = []"
| "join sep [x] = x"
| "join sep (x # y # ys) = x @ sep @ join sep (y # ys)"

text \<open>A number inside a template literal: decimal digits, with a minus sign below zero.\<close>

fun showNat :: "nat \<Rightarrow> string" where
  "showNat n = (if n < 10 then [char_of (48 + n)]
                else showNat (n div 10) @ [char_of (48 + n mod 10)])"

declare showNat.simps [simp del]

definition showInt :: "int \<Rightarrow> string" where
  "showInt i = (if i < 0 then CHR ''-'' # showNat (nat (- i)) else showNat (nat i))"

text \<open>\<^verbatim>\<open>x || "(anonymous)"\<close>: an absent or empty name is replaced.\<close>

definition orAnonymous :: "string option \<Rightarrow> string" where
  "orAnonymous n = (case n of None \<Rightarrow> ''(anonymous)''
                    | Some s \<Rightarrow> if s = [] then ''(anonymous)'' else s)"

text \<open>An optional string inside a template literal.\<close>

definition showOpt :: "string option \<Rightarrow> string" where
  "showOpt n = (case n of None \<Rightarrow> ''undefined'' | Some s \<Rightarrow> s)"

section \<open>The code smell detector (code-smells.ts)\<close>

datatype Severity = Warning | Error

record SmellReport =
  smellType :: string
  smellSeverity :: Severity
  smellFile :: string
  smellLine :: "int option"
  smellMessage :: string
  smellDetails :: "string option"

record Thresholds =
  maxParams :: int
  maxFunctionLines :: int
  maxFileLines :: int
  maxNestingDepth :: int
  maxComplexity :: int

record SmellOptions =
  checks :: "string set"
  exportedOnly :: bool
  thresholds :: Thresholds

definition DEFAULT_THRESHOLDS :: Thresholds where
  "DEFAULT_THRESHOLDS = \<lparr>maxParams = 5, maxFunctionLines = 50, maxFileLines = 500,
     maxNestingDepth = 4, maxComplexity = 10\<rparr>"

definition ALL_CHECKS :: "string list" where
  "ALL_CHECKS = [''circular-deps'', ''large-functions'', ''many-params'', ''missing-jsdoc'',
     ''deep-nesting'', ''large-files'', ''god-classes'']"

text \<open>\<^verbatim>\<open>getJsDoc\<close>: the documentation blocks joined by newlines, or nothing.\<close>

definition getJsDoc :: "string list \<Rightarrow> string option" where
  "getJsDoc jsDocs = (if jsDocs = [] then None else Some (join [CHR 0x0A] jsDocs))"

text \<open>
  \<^verbatim>\<open>isExported\<close> on a function or method: only an exportable node is asked, and a
  method declaration is not exportable.
\<close>

definition isExported :: "FunctionLike \<Rightarrow> bool" where
  "isExported fn = (if fnKind fn = FunctionDeclaration then fnExportKeyword fn else False)"

definition countLines :: "FunctionLike \<Rightarrow> int" where
  "countLines fn = fnEndLine fn - fnStartLine fn + 1"

definition isNestingKind :: "SyntaxKind \<Rightarrow> bool" where
  "isNestingKind k = (k = IfStatement \<or> k = ForStatement \<or> k = ForInStatement \<or>
     k = ForOfStatement \<or> k = WhileStatement \<or> k = DoStatement \<or>
     k = TryStatement \<or> k = SwitchStatement)"

text \<open>The inner \<^verbatim>\<open>traverse\<close> of \<^verbatim>\<open>getMaxNestingDepth\<close>; the running maximum is passed along.\<close>

fun traverse :: "Node \<Rightarrow> int \<Rightarrow> int \<Rightarrow> int" where
  "traverse (Node k cs) depth maxDepth =
     (if isNestingKind k
      then foldl (\<lambda>m c. traverse c (depth + 1) m) (max maxDepth (depth + 1)) cs
      else foldl (\<lambda>m c. traverse c depth m) maxDepth cs)"

definition getMaxNestingDepth :: "Node \<Rightarrow> int" where
  "getMaxNestingDepth node = traverse node 0 0"

definition isDecisionKind :: "SyntaxKind \<Rightarrow> bool" where
  "isDecisionKind k = (k = IfStatement \<or> k = ConditionalExpression \<or> k = ForStatement \<or>
     k = ForInStatement \<or> k = ForOfStatement \<or> k = WhileStatement \<or> k = DoStatement \<or>
     k = CaseClause \<or> k = CatchClause)"

definition isLogicalOperator :: "SyntaxKind \<Rightarrow> bool" where
  "isLogicalOperator k = (case k of
       BinaryExpression op \<Rightarrow> op = AmpersandAmpersandToken \<or> op = BarBarToken
     | _ \<Rightarrow> False)"

text \<open>The callback of \<^verbatim>\<open>getCyclomaticComplexity\<close>, applied to one descendant.\<close>

definition complexityStep :: "int \<Rightarrow> Node \<Rightarrow> int" where
  "complexityStep complexity descendant =
     (let c1 = (if isDecisionKind (getKind descendant) then complexity + 1 else complexity)
      in if isLogicalOperator (getKind descendant) then c1 + 1 else c1)"

definition getCyclomaticComplexity :: "FunctionLike \<Rightarrow> int" where
  "getCyclomaticComplexity fn = foldl complexityStep 1 (descendants (fnNode fn))"

text \<open>The class name prefix of a report: \<^verbatim>\<open>className ? `${className}.${name}` : name\<close>.\<close>

definition fullNameOf :: "string option \<Rightarrow> string \<Rightarrow> string" where
  "fullNameOf className name = (case className of
       None \<Rightarrow> name
     | Some c \<Rightarrow> if c = [] then name else c @ ''.'' @ name)"

text \<open>The closure \<^verbatim>\<open>checkFn\<close> of \<^verbatim>\<open>checkLargeFunctions\<close>: the reports it pushes for one declaration.\<close>

definition checkFnLarge :: "string \<Rightarrow> SmellOptions \<Rightarrow> FunctionLike \<Rightarrow> string option \<Rightarrow> SmellReport list" where
  "checkFnLarge filePath options fn className =
     (if exportedOnly options \<and> \<not> isExported fn then []
      else
        let lines = countLines fn;
            fullName = fullNameOf className (orAnonymous (fnName fn));
            complexity = getCyclomaticComplexity fn
        in (if lines > maxFunctionLines (thresholds options)
            then [\<lparr>smellType = ''large-function'',
                   smellSeverity = (if lines > maxFunctionLines (thresholds options) * 2
                                    then Error else Warning),
                   smellFile = filePath,
                   smellLine = Some (fnStartLine fn),
                   smellMessage = fullName @ '' is '' @ showInt lines @ '' lines (max: '' @
                                  showInt (maxFunctionLines (thresholds options)) @ '')'',
                   smellDetails = None\<rparr>]
            else []) @
           (if complexity > maxComplexity (thresholds options)
            then [\<lparr>smellType = ''high-complexity'',
                   smellSeverity = (if complexity > maxComplexity (thresholds options) * 2
                                    then Error else Warning),
                   smellFile = filePath,
                   smellLine = Some (fnStartLine fn),
                   smellMessage = fullName @ '' has cyclomatic complexity of '' @
                                  showInt complexity @ '' (max: '' @
                                  showInt (maxComplexity (thresholds options)) @ '')'',
                   smellDetails = None\<rparr>]
            else []))"

text \<open>The two loops shared by the per-function checks: functions first, then the methods of each class.\<close>

definition forEachFunctionLike ::
  "(FunctionLike \<Rightarrow> string option \<Rightarrow> SmellReport list) \<Rightarrow> SourceFile \<Rightarrow> SmellReport list" where
  "forEachFunctionLike checkFn sourceFile =
     concat (map (\<lambda>fn. checkFn fn None) (sfFunctions sourceFile)) @
     concat (map (\<lambda>cls. concat (map (\<lambda>method. checkFn method (clsName cls)) (clsMethods cls)))
                 (sfClasses sourceFile))"

definition checkLargeFunctions :: "SourceFile \<Rightarrow> SmellOptions \<Rightarrow> SmellReport list" where
  "checkLargeFunctions sourceFile options =
     forEachFunctionLike (checkFnLarge (sfPath sourceFile) options) sourceFile"

definition checkFnParams :: "string \<Rightarrow> SmellOptions \<Rightarrow> FunctionLike \<Rightarrow> string option \<Rightarrow> SmellReport list" where
  "checkFnParams filePath options fn className =
     (if exportedOnly options \<and> \<not> isExported fn then []
      else
        let params = fnParameters fn;
            fullName = fullNameOf className (orAnonymous (fnName fn))
        in if int (length params) > maxParams (thresholds options)
           then [\<lparr>smellType = ''many-params'',
                  smellSeverity = (if int (length params) > maxParams (thresholds options) + 3
                                   then Error else Warning),
                  smellFile = filePath,
                  smellLine = Some (fnStartLine fn),
                  smellMessage = fullName @ '' has '' @ showInt (int (length params)) @
                                 '' parameters (max: '' @
                                 showInt (maxParams (thresholds options)) @ '')'',
                  smellDetails = Some ''Consider using an options object instead''\<rparr>]
           else [])"

definition checkManyParams :: "SourceFile \<Rightarrow> SmellOptions \<Rightarrow> SmellReport list" where
  "checkManyParams sourceFile options =
     forEachFunctionLike (checkFnParams (sfPath sourceFile) options) sourceFile"

definition missingJsDocMethods :: "string \<Rightarrow> ClassDeclaration \<Rightarrow> SmellReport list" where
  "missingJsDocMethods filePath cls =
     concat (map (\<lambda>method.
        if fnScope method = ScopePrivate then []
        else if getJsDoc (fnJsDocs method) = None
        then [\<lparr>smellType = ''missing-jsdoc'', smellSeverity = Warning, smellFile = filePath,
               smellLine = Some (fnStartLine method),
               smellMessage = ''Public method '' @ [CHR 0x27] @ showOpt (clsName cls) @ ''.'' @
                              showOpt (fnName method) @ [CHR 0x27] @ '' lacks JSDoc'',
               smellDetails = None\<rparr>]
        else []) (clsMethods cls))"

definition checkMissingJsDoc :: "SourceFile \<Rightarrow> SmellOptions \<Rightarrow> SmellReport list" where
  "checkMissingJsDoc sourceFile options =
     concat (map (\<lambda>fn.
        if \<not> isExported fn then []
        else if getJsDoc (fnJsDocs fn) = None
        then [\<lparr>smellType = ''missing-jsdoc'', smellSeverity = Warning,
               smellFile = sfPath sourceFile,
               smellLine = Some (fnStartLine fn),
               smellMessage = ''Exported function '' @ [CHR 0x27] @ orAnonymous (fnName fn) @
                              [CHR 0x27] @ '' lacks JSDoc'',
               smellDetails = None\<rparr>]
        else []) (sfFunctions sourceFile)) @
     concat (map (\<lambda>cls.
        if \<not> clsExportKeyword cls then []
        else
          (if getJsDoc (clsJsDocs cls) = None
           then [\<lparr>smellType = ''missing-jsdoc'', smellSeverity = Warning,
                  smellFile = sfPath sourceFile,
                  smellLine = Some (clsStartLine cls),
                  smellMessage = ''Exported class '' @ [CHR 0x27] @ orAnonymous (clsName cls) @
                                 [CHR 0x27] @ '' lacks JSDoc'',
                  smellDetails = None\<rparr>]
           else []) @ missingJsDocMethods (sfPath sourceFile) cls) (sfClasses sourceFile))"

definition checkFnNesting :: "string \<Rightarrow> SmellOptions \<Rightarrow> FunctionLike \<Rightarrow> string option \<Rightarrow> SmellReport list" where
  "checkFnNesting filePath options fn className =
     (let depth = getMaxNestingDepth (fnNode fn);
          fullName = fullNameOf className (orAnonymous (fnName fn))
      in if depth > maxNestingDepth (thresholds options)
         then [\<lparr>smellType = ''deep-nesting'',
                smellSeverity = (if depth > maxNestingDepth (thresholds options) + 2
                                 then Error else Warning),
                smellFile = filePath,
                smellLine = Some (fnStartLine fn),
                smellMessage = fullName @ '' has nesting depth of '' @ showInt depth @
                               '' (max: '' @ showInt (maxNestingDepth (thresholds options)) @ '')'',
                smellDetails = Some ''Consider extracting nested logic into separate functions''\<rparr>]
         else [])"

definition checkDeepNesting :: "SourceFile \<Rightarrow> SmellOptions \<Rightarrow> SmellReport list" where
  "checkDeepNesting sourceFile options =
     forEachFunctionLike (checkFnNesting (sfPath sourceFile) options) sourceFile"

definition checkLargeFiles :: "SourceFile \<Rightarrow> SmellOptions \<Rightarrow> SmellReport list" where
  "checkLargeFiles sourceFile options =
     (let lines = sfEndLine sourceFile
      in if lines > maxFileLines (thresholds options)
         then [\<lparr>smellType = ''large-file'',
                smellSeverity = (if lines > maxFileLines (thresholds options) * 2
                                 then Error else Warning),
                smellFile = sfPath sourceFile,
                smellLine = None,
                smellMessage = ''File is '' @ showInt lines @ '' lines (max: '' @
                               showInt (maxFileLines (thresholds options)) @ '')'',
                smellDetails = Some ''Consider splitting into multiple modules''\<rparr>]
         else [])"

definition checkGodClasses :: "SourceFile \<Rightarrow> SmellOptions \<Rightarrow> SmellReport list" where
  "checkGodClasses sourceFile options =
     concat (map (\<lambda>cls.
        (if length (clsMethods cls) > 20
         then [\<lparr>smellType = ''god-class'',
                smellSeverity = (if length (clsMethods cls) > 30 then Error else Warning),
                smellFile = sfPath sourceFile,
                smellLine = Some (clsStartLine cls),
                smellMessage = ''Class '' @ [CHR 0x27] @ showOpt (clsName cls) @ [CHR 0x27] @
                               '' has '' @ showNat (length (clsMethods cls)) @ '' methods'',
                smellDetails = Some ''Consider splitting responsibilities into multiple classes''\<rparr>]
         else []) @
        (if length (clsProperties cls) > 15
         then [\<lparr>smellType = ''god-class'', smellSeverity = Warning,
                smellFile = sfPath sourceFile,
                smellLine = Some (clsStartLine cls),
                smellMessage = ''Class '' @ [CHR 0x27] @ showOpt (clsName cls) @ [CHR 0x27] @
                               '' has '' @ showNat (length (clsProperties cls)) @ '' properties'',
                smellDetails = None\<rparr>]
         else [])) (sfClasses sourceFile))"

subsection \<open>The import graph and its cycles\<close>

text \<open>
  A \<^verbatim>\<open>Map<string, Set<string>>\<close> keeps its keys, and each set its members, in insertion
  order: an association list of lists.
\<close>

type_synonym Graph = "(string \<times> string list) list"

text \<open>\<^verbatim>\<open>Set.add\<close>.\<close>

definition setAdd :: "string list \<Rightarrow> string \<Rightarrow> string list" where
  "setAdd xs x = (if x \<in> set xs then xs else xs @ [x])"

text \<open>\<^verbatim>\<open>Map.set\<close>: a present key keeps its place and takes the new value.\<close>

fun mapSet :: "Graph \<Rightarrow> string \<Rightarrow> string list \<Rightarrow> Graph" where
  "mapSet [] k v = [(k, v)]"
| "mapSet ((k', v') # rest) k v = (if k' = k then (k, v) # rest else (k', v') # mapSet rest k v)"

text \<open>\<^verbatim>\<open>graph.get(node) || new Set()\<close>.\<close>

definition graphGet :: "Graph \<Rightarrow> string \<Rightarrow> string list" where
  "graphGet graph node = (case map_of graph node of Some deps \<Rightarrow> deps | None \<Rightarrow> [])"

definition EXTENSIONS :: "string list" where
  "EXTENSIONS = [''.ts'', ''.tsx'', ''.js'', ''.jsx'', ''/index.ts'', ''/index.tsx'', ''/index.js'']"

text \<open>
  The probing loop: the first suffix under which the project knows a source file wins,
  otherwise the candidate stays as it is. \<open>hasSourceFile tryPath\<close> stands for the lookup
  \<^verbatim>\<open>project.getSourceFile(path.resolve(tryPath))\<close>; the path stored is \<open>tryPath\<close> as it
  was built, not the resolved one.
\<close>

fun probe :: "(string \<Rightarrow> bool) \<Rightarrow> string \<Rightarrow> string list \<Rightarrow> string" where
  "probe hasSourceFile resolvedPath [] = resolvedPath"
| "probe hasSourceFile resolvedPath (ext # exts) =
     (if hasSourceFile (resolvedPath @ ext) then resolvedPath @ ext
      else probe hasSourceFile resolvedPath exts)"

definition isLocalSpecifier :: "string \<Rightarrow> bool" where
  "isLocalSpecifier moduleSpecifier =
     (case moduleSpecifier of [] \<Rightarrow> False | c # _ \<Rightarrow> c = CHR ''.'' \<or> c = CHR ''/'')"

text \<open>
  The dependency set of one file. \<open>joinPath filePath spec\<close> stands for
  \<^verbatim>\<open>path.normalize(path.join(path.dirname(filePath), spec))\<close>, a function of the path library.
\<close>

definition fileDeps ::
  "(string \<Rightarrow> string \<Rightarrow> string) \<Rightarrow> (string \<Rightarrow> bool) \<Rightarrow> SourceFile \<Rightarrow> string list" where
  "fileDeps joinPath hasSourceFile sourceFile =
     foldl (\<lambda>deps moduleSpecifier.
              if isLocalSpecifier moduleSpecifier
              then setAdd deps
                     (probe hasSourceFile (joinPath (sfPath sourceFile) moduleSpecifier) EXTENSIONS)
              else deps) [] (sfImports sourceFile)"

definition buildGraph ::
  "(string \<Rightarrow> string \<Rightarrow> string) \<Rightarrow> (string \<Rightarrow> bool) \<Rightarrow> SourceFile list \<Rightarrow> Graph" where
  "buildGraph joinPath hasSourceFile sourceFiles =
     foldl (\<lambda>graph sourceFile.
              mapSet graph (sfPath sourceFile) (fileDeps joinPath hasSourceFile sourceFile))
           [] sourceFiles"

text \<open>\<^verbatim>\<open>Array.prototype.indexOf\<close>: the first position, or -1.\<close>

fun indexOf :: "string list \<Rightarrow> string \<Rightarrow> int" where
  "indexOf [] x = -1"
| "indexOf (y # ys) x = (if y = x then 0 else (let i = indexOf ys x in if i = -1 then -1 else i + 1))"

text \<open>The variables the closure \<^verbatim>\<open>dfs\<close> shares with \<^verbatim>\<open>checkCircularDeps\<close>.\<close>

record DfsState =
  dfsVisited :: "string set"
  recursionStack :: "string set"
  pathStack :: "string list"
  dfsReports :: "SmellReport list"

definition cycleReport :: "string list \<Rightarrow> SmellReport" where
  "cycleReport cycle =
     \<lparr>smellType = ''circular-dependency'', smellSeverity = Error,
      smellFile = (case cycle of [] \<Rightarrow> [] | c # _ \<Rightarrow> c),
      smellLine = None,
      smellMessage = ''Circular dependency detected'',
      smellDetails = Some (join [CHR 0x20, CHR 0xE2, CHR 0x86, CHR 0x92, CHR 0x20] cycle)\<rparr>"

definition pushCycle :: "string \<Rightarrow> DfsState \<Rightarrow> DfsState" where
  "pushCycle dep s =
     (let cycleStart = indexOf (pathStack s) dep
      in if cycleStart \<noteq> -1
         then s\<lparr>dfsReports := dfsReports s @ [cycleReport (drop (nat cycleStart) (pathStack s) @ [dep])]\<rparr>
         else s)"

definition enter :: "string \<Rightarrow> DfsState \<Rightarrow> DfsState" where
  "enter node s = s\<lparr>dfsVisited := insert node (dfsVisited s),
                     recursionStack := insert node (recursionStack s),
                     pathStack := pathStack s @ [node]\<rparr>"

definition leave :: "string \<Rightarrow> DfsState \<Rightarrow> DfsState" where
  "leave node s = s\<lparr>pathStack := butlast (pathStack s),
                     recursionStack := recursionStack s - {node}\<rparr>"

function dfs :: "Graph \<Rightarrow> string \<Rightarrow> DfsState \<Rightarrow> DfsState"
  and dfsDeps :: "Graph \<Rightarrow> string list \<Rightarrow> DfsState \<Rightarrow> DfsState" where
  "dfs graph node s = leave node (dfsDeps graph (graphGet graph node) (enter node s))"
| "dfsDeps graph [] s = s"
| "dfsDeps graph (dep # deps) s =
     (if dep \<notin> dfsVisited s then dfsDeps graph deps (dfs graph dep s)
      else if dep \<in> recursionStack s then dfsDeps graph deps (pushCycle dep s)
      else dfsDeps graph deps s)"
  by pat_completeness auto

text \<open>
  Termination of \<open>dfs\<close>: every nested call enters a node that was not visited, and the
  nodes of a graph are finitely many. The loop over the dependencies continues from the
  state the nested call returns, so the proof first needs that a call never forgets a
  visited node.
\<close>

definition graphNodes :: "Graph \<Rightarrow> string set" where
  "graphNodes graph = set (map fst graph) \<union> (\<Union>(k, deps) \<in> set graph. set deps)"

definition dfsMeasure ::
  "(Graph \<times> string \<times> DfsState) + (Graph \<times> string list \<times> DfsState) \<Rightarrow> nat \<times> nat" where
  "dfsMeasure x = (case x of
      Inl (graph, node, s) \<Rightarrow>
        (card (graphNodes graph - insert node (dfsVisited s)), Suc (length (graphGet graph node)))
    | Inr (graph, deps, s) \<Rightarrow>
        (card ((graphNodes graph \<union> set deps) - dfsVisited s), length deps))"

lemma finite_graphNodes: "finite (graphNodes graph)"
  by (auto simp: graphNodes_def)

lemma graphGet_subset: "set (graphGet graph node) \<subseteq> graphNodes graph"
proof -
  have "set deps \<subseteq> graphNodes graph" if "map_of graph node = Some deps" for deps
    using map_of_SomeD [OF that] by (force simp: graphNodes_def)
  then show ?thesis by (cases "map_of graph node") (simp_all add: graphGet_def)
qed

lemma pushCycle_visited: "dfsVisited (pushCycle dep s) = dfsVisited s"
  by (simp add: pushCycle_def Let_def)

lemma dfs_visited_mono_dom:
  "dfs_dfsDeps_dom (Inl (graph, node, s)) \<Longrightarrow> dfsVisited s \<subseteq> dfsVisited (dfs graph node s)"
  "dfs_dfsDeps_dom (Inr (graph, deps, s)) \<Longrightarrow> dfsVisited s \<subseteq> dfsVisited (dfsDeps graph deps s)"
proof (induction graph node s and graph deps s rule: dfs_dfsDeps.pinduct)
  case (1 graph node s)
  then show ?case by (auto simp: dfs.psimps enter_def leave_def)
next
  case (2 graph s)
  then show ?case by (simp add: dfsDeps.psimps)
next
  case (3 graph dep deps s)
  then show ?case by (auto simp: dfsDeps.psimps pushCycle_visited)
qed

lemma card_rest_le:
  "card ((graphNodes graph \<union> set deps) - V) \<le> card ((graphNodes graph \<union> set (dep # deps)) - V)"
  by (intro card_mono) (auto simp: finite_graphNodes)

termination dfs
proof (relation "inv_image (less_than <*lex*> less_than) dfsMeasure", goal_cases)
  case 1
  show ?case by (intro wf_inv_image wf_lex_prod wf_less_than)
next
  case (2 graph node s)
  have "graphNodes graph \<union> set (graphGet graph node) = graphNodes graph"
    using graphGet_subset by blast
  then show ?case by (simp add: dfsMeasure_def enter_def)
next
  case (3 graph dep deps s)
  have "graphNodes graph - insert dep (dfsVisited s)
          \<subset> (graphNodes graph \<union> set (dep # deps)) - dfsVisited s"
    using 3 by auto
  then have "card (graphNodes graph - insert dep (dfsVisited s))
          < card ((graphNodes graph \<union> set (dep # deps)) - dfsVisited s)"
    by (intro psubset_card_mono) (auto simp: finite_graphNodes)
  then show ?case by (simp add: dfsMeasure_def)
next
  case (4 graph dep deps s)
  have "dfsVisited s \<subseteq> dfsVisited (dfs graph dep s)"
    using 4 by (simp add: dfs_visited_mono_dom)
  then have "(graphNodes graph \<union> set deps) - dfsVisited (dfs graph dep s)
          \<subseteq> (graphNodes graph \<union> set (dep # deps)) - dfsVisited s"
    by auto
  then have "card ((graphNodes graph \<union> set deps) - dfsVisited (dfs graph dep s))
          \<le> card ((graphNodes graph \<union> set (dep # deps)) - dfsVisited s)"
    by (intro card_mono) (auto simp: finite_graphNodes)
  then show ?case by (auto simp add: dfsMeasure_def)
next
  case (5 graph dep deps s)
  show ?case using card_rest_le [of graph deps "dfsVisited s" dep]
    by (auto simp add: dfsMeasure_def pushCycle_visited)
next
  case (6 graph dep deps s)
  show ?case using card_rest_le [of graph deps "dfsVisited s" dep]
    by (auto simp add: dfsMeasure_def)
qed

declare dfs.simps [simp del] dfsDeps.simps [simp del]

definition initialDfsState :: DfsState where
  "initialDfsState = \<lparr>dfsVisited = {}, recursionStack = {}, pathStack = [], dfsReports = []\<rparr>"

text \<open>The loop over \<^verbatim>\<open>graph.keys()\<close> that starts a search at every node not yet visited.\<close>

definition findCycles :: "Graph \<Rightarrow> SmellReport list" where
  "findCycles graph =
     dfsReports (foldl (\<lambda>s node. if node \<notin> dfsVisited s then dfs graph node s else s)
                       initialDfsState (map fst graph))"

definition checkCircularDeps ::
  "(string \<Rightarrow> string \<Rightarrow> string) \<Rightarrow> (string \<Rightarrow> bool) \<Rightarrow> SourceFile list \<Rightarrow> SmellReport list" where
  "checkCircularDeps joinPath hasSourceFile sourceFiles =
     findCycles (buildGraph joinPath hasSourceFile sourceFiles)"

subsection \<open>The run\<close>

text \<open>The reports \<^verbatim>\<open>main\<close> collects: the cycle check once, then the enabled checks file by file.\<close>

definition allReports ::
  "(string \<Rightarrow> string \<Rightarrow> string) \<Rightarrow> (string \<Rightarrow> bool) \<Rightarrow> SourceFile list \<Rightarrow> SmellOptions
    \<Rightarrow> SmellReport list" where
  "allReports joinPath hasSourceFile sourceFiles options =
     (if ''circular-deps'' \<in> checks options
      then checkCircularDeps joinPath hasSourceFile sourceFiles else []) @
     concat (map (\<lambda>sourceFile.
        (if ''large-functions'' \<in> checks options then checkLargeFunctions sourceFile options else []) @
        (if ''many-params'' \<in> checks options then checkManyParams sourceFile options else []) @
        (if ''missing-jsdoc'' \<in> checks options then checkMissingJsDoc sourceFile options else []) @
        (if ''deep-nesting'' \<in> checks options then checkDeepNesting sourceFile options else []) @
        (if ''large-files'' \<in> checks options then checkLargeFiles sourceFile options else []) @
        (if ''god-classes'' \<in> checks options then checkGodClasses sourceFile options else []))
       sourceFiles)"

text \<open>
  \<^verbatim>\<open>main\<close> from the loaded project on: the reports it prints (none when the project has
  no source file, where it stops with an error message) and the exit code of the process.
  Falling off the end of \<^verbatim>\<open>main\<close> is exit code 0.
\<close>

definition main ::
  "(string \<Rightarrow> string \<Rightarrow> string) \<Rightarrow> (string \<Rightarrow> bool) \<Rightarrow> SourceFile list \<Rightarrow> SmellOptions
    \<Rightarrow> SmellReport list option \<times> int" where
  "main joinPath hasSourceFile sourceFiles options =
     (if length sourceFiles = 0 then (None, 1)
      else
        let reports = allReports joinPath hasSourceFile sourceFiles options;
            hasErrors = list_ex (\<lambda>r. smellSeverity r = Error) reports
        in (Some reports, if hasErrors then 1 else 0))"

text \<open>
  \<^verbatim>\<open>getBody\<close>: the body block among the children of a declaration, absent for an
  overload signature or an abstract method.
\<close>

definition getBody :: "FunctionLike \<Rightarrow> Node option" where
  "getBody fn = find (\<lambda>c. getKind c = Block) (getChildren (fnNode fn))"

text \<open>
  The complexity count as the specification words it, over the body alone: one, plus the
  decision points and the logical operators below the body block.
\<close>

definition bodyComplexity :: "FunctionLike \<Rightarrow> int" where
  "bodyComplexity fn =
     (let inBody = (case getBody fn of None \<Rightarrow> [] | Some body \<Rightarrow> descendants body)
      in 1 + int (length (filter (\<lambda>d. isDecisionKind (getKind d)) inBody))
           + int (length (filter (\<lambda>d. isLogicalOperator (getKind d)) inBody)))"

section \<open>The signature extractor (extract-signatures.ts)\<close>

datatype SignatureKind = KindFunction | KindMethod | KindClass | KindInterface | KindType

record SignatureInfo =
  sigFile :: string
  sigName :: string
  sigKind :: SignatureKind
  sigSignature :: string
  sigJsdoc :: "string option"
  sigExported :: bool
  sigLine :: int
  sigClassName :: "string option"

record ExtractOptions =
  extractExportedOnly :: bool
  includeTypes :: bool
  jsonOutput :: bool
  includePrivate :: bool

text \<open>The callback that renders one parameter: \<^verbatim>\<open>`${p.getName()}${optional}: ${type}`\<close>.\<close>

definition renderParam :: "Parameter \<Rightarrow> string" where
  "renderParam p =
     (let optional = (if paramIsOptional p then ''?'' else []);
          type = paramType p
      in paramName p @ optional @ '': '' @ type)"

text \<open>\<^verbatim>\<open>typeParams ? `<${typeParams}>` : ""\<close>, on the type parameters joined by commas.\<close>

definition typeParamStr :: "string list \<Rightarrow> string" where
  "typeParamStr typeParameters =
     (let typeParams = join '', '' typeParameters
      in if typeParams = [] then [] else ''<'' @ typeParams @ ''>'')"

definition getFunctionSignature :: "FunctionLike \<Rightarrow> string" where
  "getFunctionSignature fn =
     (let name = orAnonymous (fnName fn);
          params = join '', '' (map renderParam (fnParameters fn));
          returnType = fnReturnType fn;
          async = (if fnIsAsync fn then ''async '' else [])
      in async @ ''function '' @ name @ typeParamStr (fnTypeParameters fn) @
         ''('' @ params @ ''): '' @ returnType)"

definition getMethodSignature :: "FunctionLike \<Rightarrow> string \<Rightarrow> string" where
  "getMethodSignature method className =
     (let name = showOpt (fnName method);
          params = join '', '' (map renderParam (fnParameters method));
          returnType = fnReturnType method;
          async = (if fnIsAsync method then ''async '' else []);
          staticMod = (if fnIsStatic method then ''static '' else [])
      in staticMod @ async @ name @ typeParamStr (fnTypeParameters method) @
         ''('' @ params @ ''): '' @ returnType)"

definition getClassSignature :: "ClassDeclaration \<Rightarrow> string" where
  "getClassSignature cls =
     (let name = orAnonymous (clsName cls);
          implementsClauses = join '', '' (clsImplements cls);
          sig0 = ''class '' @ name @ typeParamStr (clsTypeParameters cls);
          sig1 = (case clsExtends cls of
                    None \<Rightarrow> sig0
                  | Some extendsClause \<Rightarrow>
                      if extendsClause = [] then sig0 else sig0 @ '' extends '' @ extendsClause)
      in if implementsClauses = [] then sig1 else sig1 @ '' implements '' @ implementsClauses)"

definition getInterfaceSignature :: "InterfaceDeclaration \<Rightarrow> string" where
  "getInterfaceSignature iface =
     (let extendsClause = join '', '' (ifaceExtends iface);
          sig0 = ''interface '' @ ifaceName iface @ typeParamStr (ifaceTypeParameters iface)
      in if extendsClause = [] then sig0 else sig0 @ '' extends '' @ extendsClause)"

definition getTypeSignature :: "TypeAliasDeclaration \<Rightarrow> string" where
  "getTypeSignature typeAlias =
     ''type '' @ aliasName typeAlias @ typeParamStr (aliasTypeParameters typeAlias) @
     '' = '' @ aliasType typeAlias"

definition functionInfo :: "string \<Rightarrow> FunctionLike \<Rightarrow> SignatureInfo" where
  "functionInfo relativePath fn =
     \<lparr>sigFile = relativePath, sigName = orAnonymous (fnName fn), sigKind = KindFunction,
      sigSignature = getFunctionSignature fn, sigJsdoc = getJsDoc (fnJsDocs fn),
      sigExported = isExported fn, sigLine = fnStartLine fn, sigClassName = None\<rparr>"

definition classInfo :: "string \<Rightarrow> ClassDeclaration \<Rightarrow> SignatureInfo" where
  "classInfo relativePath cls =
     \<lparr>sigFile = relativePath, sigName = orAnonymous (clsName cls), sigKind = KindClass,
      sigSignature = getClassSignature cls, sigJsdoc = getJsDoc (clsJsDocs cls),
      sigExported = clsExportKeyword cls, sigLine = clsStartLine cls, sigClassName = None\<rparr>"

definition methodInfo :: "string \<Rightarrow> ClassDeclaration \<Rightarrow> FunctionLike \<Rightarrow> SignatureInfo" where
  "methodInfo relativePath cls method =
     \<lparr>sigFile = relativePath, sigName = showOpt (fnName method), sigKind = KindMethod,
      sigSignature = getMethodSignature method (orAnonymous (clsName cls)),
      sigJsdoc = getJsDoc (fnJsDocs method),
      sigExported = clsExportKeyword cls, sigLine = fnStartLine method,
      sigClassName = Some (orAnonymous (clsName cls))\<rparr>"

definition interfaceInfo :: "string \<Rightarrow> InterfaceDeclaration \<Rightarrow> SignatureInfo" where
  "interfaceInfo relativePath iface =
     \<lparr>sigFile = relativePath, sigName = ifaceName iface, sigKind = KindInterface,
      sigSignature = getInterfaceSignature iface, sigJsdoc = getJsDoc (ifaceJsDocs iface),
      sigExported = ifaceExportKeyword iface, sigLine = ifaceStartLine iface,
      sigClassName = None\<rparr>"

definition typeInfo :: "string \<Rightarrow> TypeAliasDeclaration \<Rightarrow> SignatureInfo" where
  "typeInfo relativePath typeAlias =
     \<lparr>sigFile = relativePath, sigName = aliasName typeAlias, sigKind = KindType,
      sigSignature = getTypeSignature typeAlias, sigJsdoc = getJsDoc (aliasJsDocs typeAlias),
      sigExported = aliasExportKeyword typeAlias, sigLine = aliasStartLine typeAlias,
      sigClassName = None\<rparr>"

text \<open>
  The loop bodies of \<^verbatim>\<open>extractFromSourceFile\<close>, each from the array \<open>signatures\<close> so
  far to the array after one declaration; a \<^verbatim>\<open>continue\<close> leaves the array as it is.
\<close>

definition pushFunction :: "string \<Rightarrow> ExtractOptions \<Rightarrow> SignatureInfo list \<Rightarrow> FunctionLike \<Rightarrow> SignatureInfo list" where
  "pushFunction relativePath options signatures fn =
     (if extractExportedOnly options \<and> \<not> isExported fn then signatures
      else signatures @ [functionInfo relativePath fn])"

definition pushMethod :: "string \<Rightarrow> ExtractOptions \<Rightarrow> ClassDeclaration \<Rightarrow> SignatureInfo list \<Rightarrow> FunctionLike \<Rightarrow> SignatureInfo list" where
  "pushMethod relativePath options cls signatures method =
     (if \<not> includePrivate options \<and> fnScope method = ScopePrivate then signatures
      else signatures @ [methodInfo relativePath cls method])"

definition pushClass :: "string \<Rightarrow> ExtractOptions \<Rightarrow> SignatureInfo list \<Rightarrow> ClassDeclaration \<Rightarrow> SignatureInfo list" where
  "pushClass relativePath options signatures cls =
     (if extractExportedOnly options \<and> \<not> clsExportKeyword cls then signatures
      else foldl (pushMethod relativePath options cls)
                 (signatures @ [classInfo relativePath cls]) (clsMethods cls))"

definition pushInterface :: "string \<Rightarrow> ExtractOptions \<Rightarrow> SignatureInfo list \<Rightarrow> InterfaceDeclaration \<Rightarrow> SignatureInfo list" where
  "pushInterface relativePath options signatures iface =
     (if extractExportedOnly options \<and> \<not> ifaceExportKeyword iface then signatures
      else signatures @ [interfaceInfo relativePath iface])"

definition pushTypeAlias :: "string \<Rightarrow> ExtractOptions \<Rightarrow> SignatureInfo list \<Rightarrow> TypeAliasDeclaration \<Rightarrow> SignatureInfo list" where
  "pushTypeAlias relativePath options signatures typeAlias =
     (if extractExportedOnly options \<and> \<not> aliasExportKeyword typeAlias then signatures
      else signatures @ [typeInfo relativePath typeAlias])"

text \<open>\<^verbatim>\<open>extractFromSourceFile\<close>: the four loops in the order of the source.\<close>

definition extractFromSourceFile :: "SourceFile \<Rightarrow> ExtractOptions \<Rightarrow> SignatureInfo list" where
  "extractFromSourceFile sourceFile options =
     (let relativePath = sfPath sourceFile;
          afterFunctions = foldl (pushFunction relativePath options) [] (sfFunctions sourceFile);
          afterClasses = foldl (pushClass relativePath options) afterFunctions (sfClasses sourceFile)
      in if includeTypes options
         then foldl (pushTypeAlias relativePath options)
                (foldl (pushInterface relativePath options) afterClasses (sfInterfaces sourceFile))
                (sfTypeAliases sourceFile)
         else afterClasses)"

text \<open>The loop of \<^verbatim>\<open>main\<close> over the source files.\<close>

definition allSignatures :: "SourceFile list \<Rightarrow> ExtractOptions \<Rightarrow> SignatureInfo list" where
  "allSignatures sourceFiles options =
     foldl (\<lambda>acc sourceFile. acc @ extractFromSourceFile sourceFile options) [] sourceFiles"

definition formatSignature :: "SignatureInfo \<Rightarrow> string" where
  "formatSignature sig =
     (let docLines = (case sigJsdoc sig of None \<Rightarrow> []
                      | Some d \<Rightarrow> if d = [] then [] else [d]);
          exportPrefix = (if sigExported sig then ''export '' else []);
          isNested = (sigKind sig = KindMethod \<and>
                      (case sigClassName sig of None \<Rightarrow> False | Some c \<Rightarrow> c \<noteq> []))
      in join [CHR 0x0A]
           (docLines @ [if isNested then ''  '' @ sigSignature sig
                        else exportPrefix @ sigSignature sig]))"

text \<open>
  The listing of one file's signatures: the lines logged by the inner loop of \<^verbatim>\<open>main\<close>,
  with \<open>currentClass\<close> the class whose brace is open (\<^verbatim>\<open>null\<close> is \<open>None\<close>; an absent
  \<^verbatim>\<open>className\<close> is \<open>None\<close> too, and never equal to \<^verbatim>\<open>null\<close>).
\<close>

fun printSignatures :: "string option \<Rightarrow> SignatureInfo list \<Rightarrow> string list" where
  "printSignatures currentClass [] = (if currentClass \<noteq> None then [''}''] else [])"
| "printSignatures currentClass (sig # sigs) =
     (if sigKind sig = KindClass
      then (formatSignature sig @ '' {'') # printSignatures (Some (sigName sig)) sigs
      else if sigKind sig = KindMethod \<and> sigClassName sig = currentClass \<and> currentClass \<noteq> None
      then formatSignature sig # printSignatures currentClass sigs
      else if currentClass \<noteq> None \<and> sigClassName sig \<noteq> currentClass
      then (''}'' @ [CHR 0x0A]) # formatSignature sig # printSignatures None sigs
      else formatSignature sig # printSignatures currentClass sigs)"

text \<open>
  The signature form as the specification words it:
  \<^verbatim>\<open>[async] [static] name[<TypeParams>](param: Type[, ...]): ReturnType\<close>,
  async before static and no other leading keyword.
\<close>

definition specSignature :: "FunctionLike \<Rightarrow> string" where
  "specSignature fn =
     (if fnIsAsync fn then ''async '' else []) @ (if fnIsStatic fn then ''static '' else []) @
     orAnonymous (fnName fn) @ typeParamStr (fnTypeParameters fn) @
     ''('' @ join '', '' (map renderParam (fnParameters fn)) @ ''): '' @ fnReturnType fn"

section \<open>The call hierarchy tracer (trace-calls.ts)\<close>

text \<open>
  The tracer follows references between declarations, so a declaration is named here by an
  identifier that stands for the object reference of the source. What the parser answers
  about a declaration is a record: its name, the path of its file, its first line, the
  nodes that refer to it (\<^verbatim>\<open>findReferencesAsNodes\<close>) and, when it has a body, the call
  expressions below the body in the order \<^verbatim>\<open>forEachDescendant\<close> visits them.
\<close>

type_synonym DeclId = nat

text \<open>An ancestor of a reference, as far as \<^verbatim>\<open>getCallers\<close> looks at it.\<close>

datatype AncestorNode =
    FunctionDeclarationNode DeclId
  | MethodDeclarationNode DeclId
  | ArrowFunctionNode
  | OtherNode

text \<open>
  A referring node: whether it is the declaration or its name node, and its ancestors from
  the parent outwards.
\<close>

record Reference =
  refIsDefinition :: bool
  refAncestors :: "AncestorNode list"

text \<open>The called expression of a call, as far as \<^verbatim>\<open>getCallees\<close> looks at it.\<close>

datatype Expression =
    Identifier string
  | PropertyAccessExpression string
  | OtherExpression

text \<open>A declaration of the called expression's type symbol.\<close>

datatype Definition = FunctionOrMethod DeclId | OtherDefinition

record CallExpression =
  callExpression :: Expression
  callDefinitions :: "Definition list"

record Declaration =
  declName :: "string option"
  declFilePath :: string
  declStartLine :: int
  declReferences :: "Reference list"
  declCalls :: "CallExpression list option"

type_synonym Project = "DeclId \<Rightarrow> Declaration"

datatype CallNode =
  CallNode (cnName: string) (cnFile: string) (cnLine: int) (cnSignature: "string option")
    (cnChildren: "CallNode list")

text \<open>The key under which a declaration is entered into \<open>visited\<close>.\<close>

definition nodeKey :: "Project \<Rightarrow> DeclId \<Rightarrow> string" where
  "nodeKey P node = declFilePath (P node) @ '':'' @ orAnonymous (declName (P node))"

text \<open>
  \<^verbatim>\<open>ref.getFirstAncestor(...)\<close>: the nearest ancestor that is a function declaration, a
  method declaration or an arrow function.
\<close>

definition containingFn :: "Reference \<Rightarrow> AncestorNode option" where
  "containingFn ref =
     find (\<lambda>ancestor. case ancestor of
               FunctionDeclarationNode _ \<Rightarrow> True
             | MethodDeclarationNode _ \<Rightarrow> True
             | ArrowFunctionNode \<Rightarrow> True
             | OtherNode \<Rightarrow> False) (refAncestors ref)"

text \<open>
  The test that follows: the containing function is used only when it is a function or a
  method declaration.
\<close>

definition callerOf :: "Reference \<Rightarrow> DeclId option" where
  "callerOf ref = (case containingFn ref of
       Some (FunctionDeclarationNode c) \<Rightarrow> Some c
     | Some (MethodDeclarationNode c) \<Rightarrow> Some c
     | _ \<Rightarrow> None)"

text \<open>
  \<^verbatim>\<open>getCallers\<close>. The set \<open>visited\<close> is one object shared by all calls, so each call
  returns it next to its result. \<open>relative\<close> stands for
  \<^verbatim>\<open>path.relative(process.cwd(), _)\<close>. \<open>callersLoop\<close> is the loop over the references.
\<close>

function getCallers ::
    "(string \<Rightarrow> string) \<Rightarrow> Project \<Rightarrow> DeclId \<Rightarrow> int \<Rightarrow> int \<Rightarrow> string set
      \<Rightarrow> CallNode list \<times> string set"
  and callersLoop ::
    "(string \<Rightarrow> string) \<Rightarrow> Project \<Rightarrow> Reference list \<Rightarrow> int \<Rightarrow> int \<Rightarrow> string set
      \<Rightarrow> CallNode list \<times> string set" where
  "getCallers relative P node depth maxDepth visited =
     (if depth \<ge> maxDepth then ([], visited)
      else if nodeKey P node \<in> visited then ([], visited)
      else callersLoop relative P (declReferences (P node)) depth maxDepth
             (insert (nodeKey P node) visited))"
| "callersLoop relative P [] depth maxDepth visited = ([], visited)"
| "callersLoop relative P (ref # refs) depth maxDepth visited =
     (if refIsDefinition ref then callersLoop relative P refs depth maxDepth visited
      else case callerOf ref of
          None \<Rightarrow> callersLoop relative P refs depth maxDepth visited
        | Some containing \<Rightarrow>
            if nodeKey P containing \<notin> visited
            then (let (children, visited1) =
                        getCallers relative P containing (depth + 1) maxDepth visited;
                      (callers, visited2) =
                        callersLoop relative P refs depth maxDepth visited1
                  in (CallNode (orAnonymous (declName (P containing)))
                               (relative (declFilePath (P containing)))
                               (declStartLine (P containing)) None children # callers,
                      visited2))
            else callersLoop relative P refs depth maxDepth visited)"
  by pat_completeness auto
termination
  by (relation "inv_image (less_than <*lex*> less_than)
        (\<lambda>x. case x of
            Inl (relative, P, node, depth, maxDepth, visited) \<Rightarrow>
              (2 * nat (maxDepth - depth), 0)
          | Inr (relative, P, refs, depth, maxDepth, visited) \<Rightarrow>
              (2 * nat (maxDepth - depth - 1) + 1, length refs))")
     auto

declare getCallers.simps [simp del]

text \<open>The name under which a call is recorded: the identifier, or the property name.\<close>

definition calledName :: "CallExpression \<Rightarrow> string" where
  "calledName call = (case callExpression call of
       Identifier text \<Rightarrow> text
     | PropertyAccessExpression name \<Rightarrow> name
     | OtherExpression \<Rightarrow> [])"

text \<open>
  \<^verbatim>\<open>getCallees\<close>. Each nested call works on a copy of \<open>visited\<close>
  (\<^verbatim>\<open>new Set(visited)\<close>), so nothing flows back.
\<close>

function getCallees ::
    "(string \<Rightarrow> string) \<Rightarrow> Project \<Rightarrow> DeclId \<Rightarrow> int \<Rightarrow> int \<Rightarrow> string set \<Rightarrow> CallNode list" where
  "getCallees relative P node depth maxDepth visited =
     (if depth \<ge> maxDepth then []
      else if nodeKey P node \<in> visited then []
      else case declCalls (P node) of
          None \<Rightarrow> []
        | Some calls \<Rightarrow>
            concat (map (\<lambda>call.
              if calledName call \<noteq> []
              then concat (map (\<lambda>def. case def of
                       OtherDefinition \<Rightarrow> []
                     | FunctionOrMethod d \<Rightarrow>
                         if declFilePath (P d) @ '':'' @ calledName call
                              \<notin> insert (nodeKey P node) visited
                         then [CallNode (calledName call) (relative (declFilePath (P d)))
                                 (declStartLine (P d)) None
                                 (getCallees relative P d (depth + 1) maxDepth
                                    (insert (nodeKey P node) visited))]
                         else []) (callDefinitions call))
              else []) calls))"
  by pat_completeness auto
termination
  by (relation "measure (\<lambda>(relative, P, node, depth, maxDepth, visited). nat (maxDepth - depth))")
     auto

declare getCallees.simps [simp del]

text \<open>
  The traversal of the body on its own: what the callback of \<^verbatim>\<open>body.forEachDescendant\<close>
  pushes for the calls found, in their order. \<open>visited\<close> holds the key of the declaration
  being expanded already. \<open>getCallees\<close> is this traversal of the calls of its declaration
  (lemma \<open>getCallees_calls\<close>).
\<close>

definition calleesOfCalls ::
  "(string \<Rightarrow> string) \<Rightarrow> Project \<Rightarrow> CallExpression list \<Rightarrow> int \<Rightarrow> int \<Rightarrow> string set
    \<Rightarrow> CallNode list" where
  "calleesOfCalls relative P calls depth maxDepth visited =
     concat (map (\<lambda>call.
        if calledName call \<noteq> []
        then concat (map (\<lambda>def. case def of
                 OtherDefinition \<Rightarrow> []
               | FunctionOrMethod d \<Rightarrow>
                   if declFilePath (P d) @ '':'' @ calledName call \<notin> visited
                   then [CallNode (calledName call) (relative (declFilePath (P d)))
                           (declStartLine (P d)) None
                           (getCallees relative P d (depth + 1) maxDepth visited)]
                   else []) (callDefinitions call))
        else []) calls)"

text \<open>
  The depth option of \<^verbatim>\<open>main\<close>: 3 unless \<^verbatim>\<open>--depth\<close> is followed by an
  argument, which is then read as an integer.
\<close>

definition optionsMaxDepth :: "int option \<Rightarrow> int" where
  "optionsMaxDepth depthArg = (case depthArg of None \<Rightarrow> 3 | Some n \<Rightarrow> n)"

text \<open>
  The two traces of \<^verbatim>\<open>main\<close>, each started at depth 0 with a fresh \<open>visited\<close>, under
  the traced declaration, which \<^verbatim>\<open>main\<close> prints as the first line.
\<close>

definition traceUp :: "(string \<Rightarrow> string) \<Rightarrow> Project \<Rightarrow> DeclId \<Rightarrow> int \<Rightarrow> CallNode" where
  "traceUp relative P fn maxDepth =
     CallNode (orAnonymous (declName (P fn))) (relative (declFilePath (P fn)))
       (declStartLine (P fn)) None (fst (getCallers relative P fn 0 maxDepth {}))"

definition traceDown :: "(string \<Rightarrow> string) \<Rightarrow> Project \<Rightarrow> DeclId \<Rightarrow> int \<Rightarrow> CallNode" where
  "traceDown relative P fn maxDepth =
     CallNode (orAnonymous (declName (P fn))) (relative (declFilePath (P fn)))
       (declStartLine (P fn)) None (getCallees relative P fn 0 maxDepth {})"

subsection \<open>Notions for the properties of a call tree\<close>

text \<open>The paths of a tree from its root to its leaves.\<close>

fun paths :: "CallNode \<Rightarrow> CallNode list list" where
  "paths (CallNode n f l s cs) =
     (if cs = [] then [[CallNode n f l s cs]]
      else map ((#) (CallNode n f l s cs)) (concat (map paths cs)))"

text \<open>The identity a call node shows of its declaration: file path and name.\<close>

definition identity :: "CallNode \<Rightarrow> string \<times> string" where
  "identity t = (cnFile t, cnName t)"

text \<open>All nodes of a tree, root first.\<close>

fun nodesOf :: "CallNode \<Rightarrow> CallNode list" where
  "nodesOf (CallNode n f l s cs) = CallNode n f l s cs # concat (map nodesOf cs)"

text \<open>
  The nodes of a tree that lie fewer than \<open>maxDepth\<close> edges from the root of the trace,
  root first; \<open>level\<close> is the distance of the given node from that root.
\<close>

fun nodesAbove :: "int \<Rightarrow> int \<Rightarrow> CallNode \<Rightarrow> CallNode list" where
  "nodesAbove maxDepth level (CallNode n f l s cs) =
     (if level < maxDepth
      then CallNode n f l s cs # concat (map (nodesAbove maxDepth (level + 1)) cs)
      else [])"

text \<open>
  The caller as the specification words it: the smallest enclosing function or method
  declaration of the reference, whatever lies in between.
\<close>

definition enclosingFunctionOrMethod :: "Reference \<Rightarrow> DeclId option" where
  "enclosingFunctionOrMethod ref =
     (case find (\<lambda>ancestor. case ancestor of
                    FunctionDeclarationNode _ \<Rightarrow> True
                  | MethodDeclarationNode _ \<Rightarrow> True
                  | _ \<Rightarrow> False) (refAncestors ref) of
        Some (FunctionDeclarationNode c) \<Rightarrow> Some c
      | Some (MethodDeclarationNode c) \<Rightarrow> Some c
      | _ \<Rightarrow> None)"

text \<open>
  A tree all of whose root-to-leaf paths have at most \<open>k\<close> nodes.
\<close>

fun depthOK :: "int \<Rightarrow> CallNode \<Rightarrow> bool" where
  "depthOK k (CallNode n f l s cs) = (1 \<le> k \<and> (\<forall>c \<in> set cs. depthOK (k - 1) c))"

text \<open>
  A tree in which no node shows an identity of \<open>S\<close> or of one of its own ancestors.
\<close>

fun avoids :: "(string \<times> string) set \<Rightarrow> CallNode \<Rightarrow> bool" where
  "avoids S (CallNode n f l s cs) =
     ((f, n) \<notin> S \<and> (\<forall>c \<in> set cs. avoids (insert (f, n) S) c))"

text \<open>The identity a call node shows for a declaration, and those of the visited keys.\<close>

definition declIdentity :: "(string \<Rightarrow> string) \<Rightarrow> Project \<Rightarrow> DeclId \<Rightarrow> string \<times> string" where
  "declIdentity relative P d = (relative (declFilePath (P d)), orAnonymous (declName (P d)))"

definition identsOf :: "(string \<Rightarrow> string) \<Rightarrow> Project \<Rightarrow> string set \<Rightarrow> (string \<times> string) set" where
  "identsOf relative P visited = declIdentity relative P ` {d. nodeKey P d \<in> visited}"

text \<open>
  Every call that resolves to a function or method declaration names it by the name of
  that declaration (no alias in between).
\<close>

definition namesConsistent :: "Project \<Rightarrow> bool" where
  "namesConsistent P =
     (\<forall>d calls call def. declCalls (P d) = Some calls \<longrightarrow> call \<in> set calls \<longrightarrow>
        FunctionOrMethod def \<in> set (callDefinitions call) \<longrightarrow>
        calledName call = orAnonymous (declName (P def)))"

subsection \<open>Notions for the properties of the cycle search\<close>

text \<open>A list of nodes in which every node is followed by one of its dependencies.\<close>

fun isPath :: "Graph \<Rightarrow> string list \<Rightarrow> bool" where
  "isPath graph [] = True"
| "isPath graph [x] = True"
| "isPath graph (x # y # ys) = (y \<in> set (graphGet graph x) \<and> isPath graph (y # ys))"

text \<open>
  A cycle as it is reported: a path that ends in the node it starts with and repeats no
  other node.
\<close>

definition isCycle :: "Graph \<Rightarrow> string list \<Rightarrow> bool" where
  "isCycle graph cycle =
     (2 \<le> length cycle \<and> hd cycle = last cycle \<and> distinct (butlast cycle) \<and> isPath graph cycle)"

text \<open>What holds of the shared variables whenever \<open>dfs\<close> is entered or left.\<close>

definition dfsInv :: "Graph \<Rightarrow> DfsState \<Rightarrow> bool" where
  "dfsInv graph s =
     (distinct (pathStack s) \<and> recursionStack s = set (pathStack s) \<and>
      set (pathStack s) \<subseteq> dfsVisited s \<and> isPath graph (pathStack s) \<and>
      (\<forall>r \<in> set (dfsReports s). \<exists>cycle. r = cycleReport cycle \<and> isCycle graph cycle))"

section \<open>Properties of the code smell detector\<close>

subsection \<open>Large functions\<close>

lemma foldl_complexityStep:
  "foldl complexityStep c ds =
     c + int (length (filter (\<lambda>d. isDecisionKind (getKind d)) ds))
       + int (length (filter (\<lambda>d. isLogicalOperator (getKind d)) ds))"
  by (induction ds arbitrary: c) (auto simp: complexityStep_def Let_def)

lemma isDecisionKind_set:
  "isDecisionKind k \<longleftrightarrow> k \<in> {IfStatement, ConditionalExpression, ForStatement,
     ForInStatement, ForOfStatement, WhileStatement, DoStatement, CaseClause, CatchClause}"
  by (auto simp: isDecisionKind_def)

lemma isLogicalOperator_set:
  "isLogicalOperator k \<longleftrightarrow>
     k \<in> {BinaryExpression AmpersandAmpersandToken, BinaryExpression BarBarToken}"
  by (auto simp: isLogicalOperator_def split: SyntaxKind.splits)

lemma getCyclomaticComplexity_pos: "1 \<le> getCyclomaticComplexity fn"
  by (simp add: getCyclomaticComplexity_def foldl_complexityStep)

text \<open>
  C1, as the claim states it, fails: with the exported-only flag set, a function that is not
  exported is skipped before its lines are counted. Here a function of 51 lines, one more
  than the default threshold of 50, yields no report. And with the threshold set to 0, a
  function of one line, one more than the threshold, is reported as an error, not as a
  warning.
\<close>

theorem large_function_skipped_counterexample:
  "countLines \<lparr>fnKind = FunctionDeclaration, fnName = Some ''helper'', fnExportKeyword = False,
      fnStartLine = 10, fnEndLine = 60, fnTypeParameters = [], fnParameters = [],
      fnReturnType = ''void'', fnIsAsync = False, fnIsStatic = False, fnScope = ScopePublic,
      fnJsDocs = [], fnNode = Node OtherSyntax [Node Block []]\<rparr>
     = maxFunctionLines DEFAULT_THRESHOLDS + 1
   \<and> checkFnLarge ''src/a.ts''
        \<lparr>checks = {''large-functions''}, exportedOnly = True, thresholds = DEFAULT_THRESHOLDS\<rparr>
        \<lparr>fnKind = FunctionDeclaration, fnName = Some ''helper'', fnExportKeyword = False,
         fnStartLine = 10, fnEndLine = 60, fnTypeParameters = [], fnParameters = [],
         fnReturnType = ''void'', fnIsAsync = False, fnIsStatic = False, fnScope = ScopePublic,
         fnJsDocs = [], fnNode = Node OtherSyntax [Node Block []]\<rparr> None = []
   \<and> countLines \<lparr>fnKind = FunctionDeclaration, fnName = Some ''tiny'', fnExportKeyword = False,
      fnStartLine = 7, fnEndLine = 7, fnTypeParameters = [], fnParameters = [],
      fnReturnType = ''void'', fnIsAsync = False, fnIsStatic = False, fnScope = ScopePublic,
      fnJsDocs = [], fnNode = Node OtherSyntax [Node Block []]\<rparr> = 0 + 1
   \<and> map smellType (checkFnLarge ''src/a.ts''
        \<lparr>checks = {''large-functions''}, exportedOnly = False,
         thresholds = DEFAULT_THRESHOLDS\<lparr>maxFunctionLines := 0\<rparr>\<rparr>
        \<lparr>fnKind = FunctionDeclaration, fnName = Some ''tiny'', fnExportKeyword = False,
         fnStartLine = 7, fnEndLine = 7, fnTypeParameters = [], fnParameters = [],
         fnReturnType = ''void'', fnIsAsync = False, fnIsStatic = False, fnScope = ScopePublic,
         fnJsDocs = [], fnNode = Node OtherSyntax [Node Block []]\<rparr> None)
     = [''large-function'']
   \<and> map smellSeverity (checkFnLarge ''src/a.ts''
        \<lparr>checks = {''large-functions''}, exportedOnly = False,
         thresholds = DEFAULT_THRESHOLDS\<lparr>maxFunctionLines := 0\<rparr>\<rparr>
        \<lparr>fnKind = FunctionDeclaration, fnName = Some ''tiny'', fnExportKeyword = False,
         fnStartLine = 7, fnEndLine = 7, fnTypeParameters = [], fnParameters = [],
         fnReturnType = ''void'', fnIsAsync = False, fnIsStatic = False, fnScope = ScopePublic,
         fnJsDocs = [], fnNode = Node OtherSyntax [Node Block []]\<rparr> None)
     = [Error]"
  by (simp add: countLines_def DEFAULT_THRESHOLDS_def checkFnLarge_def isExported_def
      getCyclomaticComplexity_def complexityStep_def isDecisionKind_def isLogicalOperator_def
      Let_def)

text \<open>
  C1, amended: for a function or method that the check does not skip (the exported-only flag
  is off, or the declaration is an exported function) and a threshold of at least one line,
  with \<open>lines = endLine - startLine + 1\<close>: \<open>lines = maxFunctionLines\<close> gives no
  large-function report, \<open>lines = maxFunctionLines + 1\<close> gives exactly one, a warning, and
  \<open>lines = 2 * maxFunctionLines + 1\<close> gives exactly one, an error.
\<close>

theorem large_function_boundary:
  assumes "exportedOnly options \<longrightarrow> isExported fn"
    and "1 \<le> maxFunctionLines (thresholds options)"
  shows "(countLines fn = maxFunctionLines (thresholds options) \<longrightarrow>
            filter (\<lambda>r. smellType r = ''large-function'')
              (checkFnLarge filePath options fn className) = []) \<and>
         (countLines fn = maxFunctionLines (thresholds options) + 1 \<longrightarrow>
            map smellSeverity (filter (\<lambda>r. smellType r = ''large-function'')
              (checkFnLarge filePath options fn className)) = [Warning]) \<and>
         (countLines fn = 2 * maxFunctionLines (thresholds options) + 1 \<longrightarrow>
            map smellSeverity (filter (\<lambda>r. smellType r = ''large-function'')
              (checkFnLarge filePath options fn className)) = [Error])"
  using assms by (auto simp: checkFnLarge_def Let_def)

text \<open>The three boundary cases at the default threshold: 50, 51 and 101 lines.\<close>

theorem large_function_boundary_witness:
  "filter (\<lambda>r. smellType r = ''large-function'')
      (checkFnLarge ''src/a.ts''
        \<lparr>checks = {''large-functions''}, exportedOnly = False, thresholds = DEFAULT_THRESHOLDS\<rparr>
        \<lparr>fnKind = FunctionDeclaration, fnName = Some ''f'', fnExportKeyword = False,
         fnStartLine = 1, fnEndLine = 50, fnTypeParameters = [], fnParameters = [],
         fnReturnType = ''void'', fnIsAsync = False, fnIsStatic = False, fnScope = ScopePublic,
         fnJsDocs = [], fnNode = Node OtherSyntax [Node Block []]\<rparr> None) = []
   \<and> map smellSeverity (filter (\<lambda>r. smellType r = ''large-function'')
      (checkFnLarge ''src/a.ts''
        \<lparr>checks = {''large-functions''}, exportedOnly = False, thresholds = DEFAULT_THRESHOLDS\<rparr>
        \<lparr>fnKind = FunctionDeclaration, fnName = Some ''f'', fnExportKeyword = False,
         fnStartLine = 1, fnEndLine = 51, fnTypeParameters = [], fnParameters = [],
         fnReturnType = ''void'', fnIsAsync = False, fnIsStatic = False, fnScope = ScopePublic,
         fnJsDocs = [], fnNode = Node OtherSyntax [Node Block []]\<rparr> None)) = [Warning]
   \<and> map smellSeverity (filter (\<lambda>r. smellType r = ''large-function'')
      (checkFnLarge ''src/a.ts''
        \<lparr>checks = {''large-functions''}, exportedOnly = False, thresholds = DEFAULT_THRESHOLDS\<rparr>
        \<lparr>fnKind = MethodDeclaration, fnName = Some ''run'', fnExportKeyword = False,
         fnStartLine = 1, fnEndLine = 101, fnTypeParameters = [], fnParameters = [],
         fnReturnType = ''void'', fnIsAsync = False, fnIsStatic = False, fnScope = ScopePublic,
         fnJsDocs = [], fnNode = Node OtherSyntax [Node Block []]\<rparr> (Some ''Job''))) = [Error]"
  using
    large_function_boundary [of
      "\<lparr>checks = {''large-functions''}, exportedOnly = False, thresholds = DEFAULT_THRESHOLDS\<rparr>"
      "\<lparr>fnKind = FunctionDeclaration, fnName = Some ''f'', fnExportKeyword = False,
         fnStartLine = 1, fnEndLine = 50, fnTypeParameters = [], fnParameters = [],
         fnReturnType = ''void'', fnIsAsync = False, fnIsStatic = False, fnScope = ScopePublic,
         fnJsDocs = [], fnNode = Node OtherSyntax [Node Block []]\<rparr>" "''src/a.ts''" None]
    large_function_boundary [of
      "\<lparr>checks = {''large-functions''}, exportedOnly = False, thresholds = DEFAULT_THRESHOLDS\<rparr>"
      "\<lparr>fnKind = FunctionDeclaration, fnName = Some ''f'', fnExportKeyword = False,
         fnStartLine = 1, fnEndLine = 51, fnTypeParameters = [], fnParameters = [],
         fnReturnType = ''void'', fnIsAsync = False, fnIsStatic = False, fnScope = ScopePublic,
         fnJsDocs = [], fnNode = Node OtherSyntax [Node Block []]\<rparr>" "''src/a.ts''" None]
    large_function_boundary [of
      "\<lparr>checks = {''large-functions''}, exportedOnly = False, thresholds = DEFAULT_THRESHOLDS\<rparr>"
      "\<lparr>fnKind = MethodDeclaration, fnName = Some ''run'', fnExportKeyword = False,
         fnStartLine = 1, fnEndLine = 101, fnTypeParameters = [], fnParameters = [],
         fnReturnType = ''void'', fnIsAsync = False, fnIsStatic = False, fnScope = ScopePublic,
         fnJsDocs = [], fnNode = Node OtherSyntax [Node Block []]\<rparr>" "''src/a.ts''" "Some ''Job''"]
  by (simp add: countLines_def DEFAULT_THRESHOLDS_def)

subsection \<open>Cyclomatic complexity\<close>

text \<open>
  C2, as the claim states it, fails twice. The count runs over every descendant of the
  declaration, not of its body: a function \<^verbatim>\<open>f(x = a || b) {}\<close> has complexity 2 while its
  body holds nothing to count. And with the exported-only flag set, a declaration that is
  not an exported function gets no report however complex it is (here the threshold is 0).
\<close>

theorem complexity_body_counterexample:
  "getCyclomaticComplexity
     \<lparr>fnKind = FunctionDeclaration, fnName = Some ''f'', fnExportKeyword = False,
      fnStartLine = 1, fnEndLine = 1, fnTypeParameters = [], fnParameters = [],
      fnReturnType = ''void'', fnIsAsync = False, fnIsStatic = False, fnScope = ScopePublic,
      fnJsDocs = [],
      fnNode = Node OtherSyntax
        [Node ParameterNode [Node (BinaryExpression BarBarToken) [Node OtherSyntax [], Node OtherSyntax []]],
         Node Block []]\<rparr> = 2
   \<and> bodyComplexity
     \<lparr>fnKind = FunctionDeclaration, fnName = Some ''f'', fnExportKeyword = False,
      fnStartLine = 1, fnEndLine = 1, fnTypeParameters = [], fnParameters = [],
      fnReturnType = ''void'', fnIsAsync = False, fnIsStatic = False, fnScope = ScopePublic,
      fnJsDocs = [],
      fnNode = Node OtherSyntax
        [Node ParameterNode [Node (BinaryExpression BarBarToken) [Node OtherSyntax [], Node OtherSyntax []]],
         Node Block []]\<rparr> = 1
   \<and> checkFnLarge ''src/a.ts''
        \<lparr>checks = {''large-functions''}, exportedOnly = True,
         thresholds = DEFAULT_THRESHOLDS\<lparr>maxComplexity := 0\<rparr>\<rparr>
        \<lparr>fnKind = FunctionDeclaration, fnName = Some ''f'', fnExportKeyword = False,
         fnStartLine = 1, fnEndLine = 1, fnTypeParameters = [], fnParameters = [],
         fnReturnType = ''void'', fnIsAsync = False, fnIsStatic = False, fnScope = ScopePublic,
         fnJsDocs = [],
         fnNode = Node OtherSyntax
           [Node ParameterNode [Node (BinaryExpression BarBarToken) [Node OtherSyntax [], Node OtherSyntax []]],
            Node Block []]\<rparr> None = []"
  by (simp add: getCyclomaticComplexity_def complexityStep_def isDecisionKind_def
      isLogicalOperator_def bodyComplexity_def getBody_def checkFnLarge_def isExported_def)

text \<open>
  C2, amended: the cyclomatic complexity of a function or method is 1 plus the number of
  if statements, conditional expressions, for, for-in and for-of loops, while loops,
  do-while loops, case clauses and catch clauses, plus the number of \<^verbatim>\<open>&&\<close> and \<^verbatim>\<open>||\<close>
  operators, counted over all descendants of the declaration (its parameters' default
  values as well as its body). For a declaration that the check does not skip under the
  exported-only flag, exactly one high-complexity report is made when the value exceeds
  \<open>maxComplexity\<close>, none otherwise; it is an error when the value exceeds
  \<open>2 * maxComplexity\<close> and a warning when it does not.
\<close>

theorem complexity_count:
  assumes "exportedOnly options \<longrightarrow> isExported fn"
  shows "getCyclomaticComplexity fn =
       1 + int (length (filter (\<lambda>d. getKind d \<in> {IfStatement, ConditionalExpression,
                  ForStatement, ForInStatement, ForOfStatement, WhileStatement, DoStatement,
                  CaseClause, CatchClause}) (descendants (fnNode fn))))
         + int (length (filter (\<lambda>d. getKind d \<in> {BinaryExpression AmpersandAmpersandToken,
                  BinaryExpression BarBarToken}) (descendants (fnNode fn))))
     \<and> map smellSeverity (filter (\<lambda>r. smellType r = ''high-complexity'')
               (checkFnLarge filePath options fn className)) =
         (if getCyclomaticComplexity fn > 2 * maxComplexity (thresholds options) then [Error]
          else if getCyclomaticComplexity fn > maxComplexity (thresholds options) then [Warning]
          else [])"
proof -
  have a: "getCyclomaticComplexity fn =
       1 + int (length (filter (\<lambda>d. getKind d \<in> {IfStatement, ConditionalExpression,
                  ForStatement, ForInStatement, ForOfStatement, WhileStatement, DoStatement,
                  CaseClause, CatchClause}) (descendants (fnNode fn))))
         + int (length (filter (\<lambda>d. getKind d \<in> {BinaryExpression AmpersandAmpersandToken,
                  BinaryExpression BarBarToken}) (descendants (fnNode fn))))"
    unfolding getCyclomaticComplexity_def foldl_complexityStep
      isDecisionKind_set isLogicalOperator_set ..
  have b: "map smellSeverity (filter (\<lambda>r. smellType r = ''high-complexity'')
               (checkFnLarge filePath options fn className)) =
         (if getCyclomaticComplexity fn > 2 * maxComplexity (thresholds options) then [Error]
          else if getCyclomaticComplexity fn > maxComplexity (thresholds options) then [Warning]
          else [])"
    using assms getCyclomaticComplexity_pos [of fn] by (auto simp: checkFnLarge_def Let_def)
  from a b show ?thesis by (rule conjI)
qed

text \<open>
  A method whose body is \<^verbatim>\<open>if (a && b) { for (..) { c ? d : e } }\<close>: complexity 5, a
  warning against a threshold of 4 and an error against a threshold of 2.
\<close>

theorem complexity_count_witness:
  "getCyclomaticComplexity
     \<lparr>fnKind = MethodDeclaration, fnName = Some ''run'', fnExportKeyword = False,
      fnStartLine = 1, fnEndLine = 9, fnTypeParameters = [], fnParameters = [],
      fnReturnType = ''void'', fnIsAsync = False, fnIsStatic = False, fnScope = ScopePublic,
      fnJsDocs = [],
      fnNode = Node OtherSyntax [Node Block [Node IfStatement
        [Node (BinaryExpression AmpersandAmpersandToken) [],
         Node Block [Node ForStatement [Node Block [Node ConditionalExpression []]]]]]]\<rparr> = 5
   \<and> map smellSeverity (filter (\<lambda>r. smellType r = ''high-complexity'')
      (checkFnLarge ''src/a.ts''
        \<lparr>checks = {''large-functions''}, exportedOnly = False,
         thresholds = DEFAULT_THRESHOLDS\<lparr>maxComplexity := 4\<rparr>\<rparr>
        \<lparr>fnKind = MethodDeclaration, fnName = Some ''run'', fnExportKeyword = False,
         fnStartLine = 1, fnEndLine = 9, fnTypeParameters = [], fnParameters = [],
         fnReturnType = ''void'', fnIsAsync = False, fnIsStatic = False, fnScope = ScopePublic,
         fnJsDocs = [],
         fnNode = Node OtherSyntax [Node Block [Node IfStatement
           [Node (BinaryExpression AmpersandAmpersandToken) [],
            Node Block [Node ForStatement [Node Block [Node ConditionalExpression []]]]]]]\<rparr>
        (Some ''Job''))) = [Warning]
   \<and> map smellSeverity (filter (\<lambda>r. smellType r = ''high-complexity'')
      (checkFnLarge ''src/a.ts''
        \<lparr>checks = {''large-functions''}, exportedOnly = False,
         thresholds = DEFAULT_THRESHOLDS\<lparr>maxComplexity := 2\<rparr>\<rparr>
        \<lparr>fnKind = MethodDeclaration, fnName = Some ''run'', fnExportKeyword = False,
         fnStartLine = 1, fnEndLine = 9, fnTypeParameters = [], fnParameters = [],
         fnReturnType = ''void'', fnIsAsync = False, fnIsStatic = False, fnScope = ScopePublic,
         fnJsDocs = [],
         fnNode = Node OtherSyntax [Node Block [Node IfStatement
           [Node (BinaryExpression AmpersandAmpersandToken) [],
            Node Block [Node ForStatement [Node Block [Node ConditionalExpression []]]]]]]\<rparr>
        (Some ''Job''))) = [Error]"
  using
    complexity_count [of
      "\<lparr>checks = {''large-functions''}, exportedOnly = False,
         thresholds = DEFAULT_THRESHOLDS\<lparr>maxComplexity := 4\<rparr>\<rparr>"
      "\<lparr>fnKind = MethodDeclaration, fnName = Some ''run'', fnExportKeyword = False,
         fnStartLine = 1, fnEndLine = 9, fnTypeParameters = [], fnParameters = [],
         fnReturnType = ''void'', fnIsAsync = False, fnIsStatic = False, fnScope = ScopePublic,
         fnJsDocs = [],
         fnNode = Node OtherSyntax [Node Block [Node IfStatement
           [Node (BinaryExpression AmpersandAmpersandToken) [],
            Node Block [Node ForStatement [Node Block [Node ConditionalExpression []]]]]]]\<rparr>"
      "''src/a.ts''" "Some ''Job''"]
    complexity_count [of
      "\<lparr>checks = {''large-functions''}, exportedOnly = False,
         thresholds = DEFAULT_THRESHOLDS\<lparr>maxComplexity := 2\<rparr>\<rparr>"
      "\<lparr>fnKind = MethodDeclaration, fnName = Some ''run'', fnExportKeyword = False,
         fnStartLine = 1, fnEndLine = 9, fnTypeParameters = [], fnParameters = [],
         fnReturnType = ''void'', fnIsAsync = False, fnIsStatic = False, fnScope = ScopePublic,
         fnJsDocs = [],
         fnNode = Node OtherSyntax [Node Block [Node IfStatement
           [Node (BinaryExpression AmpersandAmpersandToken) [],
            Node Block [Node ForStatement [Node Block [Node ConditionalExpression []]]]]]]\<rparr>"
      "''src/a.ts''" "Some ''Job''"]
  by (simp add: DEFAULT_THRESHOLDS_def)

subsection \<open>Exit code\<close>

text \<open>
  C9: for a run over a non-empty collection of source files, the reports are printed and the
  exit code is nonzero exactly when one of them has severity error; in particular a run with
  warnings only, or with no report at all, exits with code zero.
\<close>

theorem exit_code_iff_error:
  assumes "sourceFiles \<noteq> []"
  shows "fst (main joinPath hasSourceFile sourceFiles options)
           = Some (allReports joinPath hasSourceFile sourceFiles options) \<and>
         (snd (main joinPath hasSourceFile sourceFiles options) \<noteq> 0 \<longleftrightarrow>
            (\<exists>r \<in> set (allReports joinPath hasSourceFile sourceFiles options).
               smellSeverity r = Error)) \<and>
         ((\<forall>r \<in> set (allReports joinPath hasSourceFile sourceFiles options).
             smellSeverity r = Warning) \<longrightarrow>
            snd (main joinPath hasSourceFile sourceFiles options) = 0)"
  using assms by (auto simp: main_def Let_def list_ex_iff)

text \<open>One file of 1001 lines exits with 1 (an error report); one of 501 lines exits with 0 (a warning).\<close>

theorem exit_code_iff_error_witness:
  "map smellSeverity (allReports (\<lambda>filePath spec. spec) (\<lambda>tryPath. False)
      [\<lparr>sfPath = ''src/big.ts'', sfEndLine = 1001, sfFunctions = [], sfClasses = [],
        sfInterfaces = [], sfTypeAliases = [], sfImports = []\<rparr>]
      \<lparr>checks = {''large-files''}, exportedOnly = False, thresholds = DEFAULT_THRESHOLDS\<rparr>) = [Error]
   \<and> snd (main (\<lambda>filePath spec. spec) (\<lambda>tryPath. False)
      [\<lparr>sfPath = ''src/big.ts'', sfEndLine = 1001, sfFunctions = [], sfClasses = [],
        sfInterfaces = [], sfTypeAliases = [], sfImports = []\<rparr>]
      \<lparr>checks = {''large-files''}, exportedOnly = False, thresholds = DEFAULT_THRESHOLDS\<rparr>) = 1
   \<and> map smellSeverity (allReports (\<lambda>filePath spec. spec) (\<lambda>tryPath. False)
      [\<lparr>sfPath = ''src/mid.ts'', sfEndLine = 501, sfFunctions = [], sfClasses = [],
        sfInterfaces = [], sfTypeAliases = [], sfImports = []\<rparr>]
      \<lparr>checks = {''large-files''}, exportedOnly = False, thresholds = DEFAULT_THRESHOLDS\<rparr>) = [Warning]
   \<and> snd (main (\<lambda>filePath spec. spec) (\<lambda>tryPath. False)
      [\<lparr>sfPath = ''src/mid.ts'', sfEndLine = 501, sfFunctions = [], sfClasses = [],
        sfInterfaces = [], sfTypeAliases = [], sfImports = []\<rparr>]
      \<lparr>checks = {''large-files''}, exportedOnly = False, thresholds = DEFAULT_THRESHOLDS\<rparr>) = 0"
  using
    exit_code_iff_error [of
      "[\<lparr>sfPath = ''src/big.ts'', sfEndLine = 1001, sfFunctions = [], sfClasses = [],
        sfInterfaces = [], sfTypeAliases = [], sfImports = []\<rparr>]"
      "\<lambda>filePath spec. spec" "\<lambda>tryPath. False"
      "\<lparr>checks = {''large-files''}, exportedOnly = False, thresholds = DEFAULT_THRESHOLDS\<rparr>"]
    exit_code_iff_error [of
      "[\<lparr>sfPath = ''src/mid.ts'', sfEndLine = 501, sfFunctions = [], sfClasses = [],
        sfInterfaces = [], sfTypeAliases = [], sfImports = []\<rparr>]"
      "\<lambda>filePath spec. spec" "\<lambda>tryPath. False"
      "\<lparr>checks = {''large-files''}, exportedOnly = False, thresholds = DEFAULT_THRESHOLDS\<rparr>"]
  by (simp add: allReports_def checkLargeFiles_def DEFAULT_THRESHOLDS_def main_def)

section \<open>Properties of the signature extractor\<close>

subsection \<open>Rendering\<close>

lemma join_member:
  "x \<in> set xs \<Longrightarrow> \<exists>pre post. join sep xs = pre @ x @ post"
proof (induction sep xs rule: join.induct)
  case (1 sep)
  then show ?case by simp
next
  case (2 sep y)
  then have "join sep [y] = [] @ x @ []" by simp
  then show ?case by blast
next
  case (3 sep y z zs)
  show ?case
  proof (cases "x = y")
    case True
    then have "join sep (y # z # zs) = [] @ x @ (sep @ join sep (z # zs))" by simp
    then show ?thesis by blast
  next
    case False
    with "3.prems" have "x \<in> set (z # zs)" by simp
    from "3.IH" [OF this] obtain pre post where "join sep (z # zs) = pre @ x @ post" by blast
    then have "join sep (y # z # zs) = (y @ sep @ pre) @ x @ post" by simp
    then show ?thesis by blast
  qed
qed

lemma renderParam_form:
  "renderParam p = paramName p @ (if paramIsOptional p then ''?: '' else '': '') @ paramType p"
  by (simp add: renderParam_def)

lemma params_member:
  assumes "p \<in> set ps"
  shows "\<exists>pre post. a @ ''('' @ join '', '' (map renderParam ps) @ b
           = pre @ paramName p @ (if paramIsOptional p then ''?: '' else '': '') @ paramType p @ post"
proof -
  from assms have "renderParam p \<in> set (map renderParam ps)" by simp
  from join_member [OF this] obtain pre post
    where "join '', '' (map renderParam ps) = pre @ renderParam p @ post" by blast
  then have "a @ ''('' @ join '', '' (map renderParam ps) @ b
      = (a @ ''('' @ pre) @ paramName p @ (if paramIsOptional p then ''?: '' else '': '')
          @ paramType p @ (post @ b)"
    by (simp add: renderParam_form)
  then show ?thesis by blast
qed

text \<open>
  C7, as the claim states it, fails in three places. A method's \<^verbatim>\<open>static\<close> is rendered
  before its \<^verbatim>\<open>async\<close>, not after. A function declaration is rendered with the keyword
  \<^verbatim>\<open>function\<close> before its name. And the type printed for a parameter is the text the
  type checker reports for it, which need not be the annotation as written: for the
  parameter \<^verbatim>\<open>opts?: Options\<close> of the scenario the checker reports, under strict null
  checks, \<^verbatim>\<open>Options | undefined\<close>, and the method is then not rendered as the text of
  the scenario.
\<close>

theorem signature_order_counterexample:
  "getMethodSignature
     \<lparr>fnKind = MethodDeclaration, fnName = Some ''fetch'', fnExportKeyword = False,
      fnStartLine = 4, fnEndLine = 6, fnTypeParameters = [],
      fnParameters = [\<lparr>paramName = ''id'', paramIsOptional = False, paramType = ''string''\<rparr>,
                      \<lparr>paramName = ''opts'', paramIsOptional = True,
                       paramType = ''Options | undefined''\<rparr>],
      fnReturnType = ''Promise<User>'', fnIsAsync = True, fnIsStatic = True,
      fnScope = ScopePublic, fnJsDocs = [], fnNode = Node OtherSyntax [Node Block []]\<rparr>
     ''UserService''
     = ''static async fetch(id: string, opts?: Options | undefined): Promise<User>''
   \<and> specSignature
     \<lparr>fnKind = MethodDeclaration, fnName = Some ''fetch'', fnExportKeyword = False,
      fnStartLine = 4, fnEndLine = 6, fnTypeParameters = [],
      fnParameters = [\<lparr>paramName = ''id'', paramIsOptional = False, paramType = ''string''\<rparr>,
                      \<lparr>paramName = ''opts'', paramIsOptional = True,
                       paramType = ''Options | undefined''\<rparr>],
      fnReturnType = ''Promise<User>'', fnIsAsync = True, fnIsStatic = True,
      fnScope = ScopePublic, fnJsDocs = [], fnNode = Node OtherSyntax [Node Block []]\<rparr>
     = ''async static fetch(id: string, opts?: Options | undefined): Promise<User>''
   \<and> getMethodSignature
     \<lparr>fnKind = MethodDeclaration, fnName = Some ''fetch'', fnExportKeyword = False,
      fnStartLine = 4, fnEndLine = 6, fnTypeParameters = [],
      fnParameters = [\<lparr>paramName = ''id'', paramIsOptional = False, paramType = ''string''\<rparr>,
                      \<lparr>paramName = ''opts'', paramIsOptional = True,
                       paramType = ''Options | undefined''\<rparr>],
      fnReturnType = ''Promise<User>'', fnIsAsync = True, fnIsStatic = True,
      fnScope = ScopePublic, fnJsDocs = [], fnNode = Node OtherSyntax [Node Block []]\<rparr>
     ''UserService''
     \<noteq> ''static async fetch(id: string, opts?: Options): Promise<User>''
   \<and> getFunctionSignature
     \<lparr>fnKind = FunctionDeclaration, fnName = Some ''getUser'', fnExportKeyword = True,
      fnStartLine = 1, fnEndLine = 3, fnTypeParameters = [],
      fnParameters = [\<lparr>paramName = ''id'', paramIsOptional = False, paramType = ''string''\<rparr>],
      fnReturnType = ''Promise<User>'', fnIsAsync = True, fnIsStatic = False,
      fnScope = ScopePublic, fnJsDocs = [], fnNode = Node OtherSyntax [Node Block []]\<rparr>
     = ''async function getUser(id: string): Promise<User>''
   \<and> specSignature
     \<lparr>fnKind = FunctionDeclaration, fnName = Some ''getUser'', fnExportKeyword = True,
      fnStartLine = 1, fnEndLine = 3, fnTypeParameters = [],
      fnParameters = [\<lparr>paramName = ''id'', paramIsOptional = False, paramType = ''string''\<rparr>],
      fnReturnType = ''Promise<User>'', fnIsAsync = True, fnIsStatic = False,
      fnScope = ScopePublic, fnJsDocs = [], fnNode = Node OtherSyntax [Node Block []]\<rparr>
     = ''async getUser(id: string): Promise<User>''"
  by (simp add: getMethodSignature_def getFunctionSignature_def specSignature_def
      renderParam_def typeParamStr_def showOpt_def orAnonymous_def)

text \<open>
  C7, amended: a method is rendered as
  \<^verbatim>\<open>[static ][async ]name[<TypeParams>](param[?]: Type[, ...]): ReturnType\<close>, static before
  async, and a function declaration as
  \<^verbatim>\<open>[async ]function name[<TypeParams>](param[?]: Type[, ...]): ReturnType\<close>. Every
  parameter of the declaration occurs in the signature as its name, a \<^verbatim>\<open>?\<close> immediately
  before the colon when it is marked optional, the colon, a blank, and the type text the
  type checker reports for it, which need not be the annotation as written. The method
  \<^verbatim>\<open>fetch\<close> of the scenario renders as \<^verbatim>\<open>static async fetch(id: T1, opts?: T2): R\<close>
  with \<^verbatim>\<open>T1\<close>, \<^verbatim>\<open>T2\<close> and \<^verbatim>\<open>R\<close> the type texts reported for its parameters and its
  result; it renders as the text of the scenario where these are \<^verbatim>\<open>string\<close>,
  \<^verbatim>\<open>Options\<close> and \<^verbatim>\<open>Promise<User>\<close>.
\<close>

theorem signature_form:
  "getMethodSignature method className =
     (if fnIsStatic method then ''static '' else []) @
     (if fnIsAsync method then ''async '' else []) @
     showOpt (fnName method) @
     (if join '', '' (fnTypeParameters method) = [] then []
      else ''<'' @ join '', '' (fnTypeParameters method) @ ''>'') @
     ''('' @ join '', ''
        (map (\<lambda>p. paramName p @ (if paramIsOptional p then ''?: '' else '': '') @ paramType p)
           (fnParameters method)) @
     ''): '' @ fnReturnType method
   \<and> getFunctionSignature fn =
     (if fnIsAsync fn then ''async '' else []) @ ''function '' @
     orAnonymous (fnName fn) @
     (if join '', '' (fnTypeParameters fn) = [] then []
      else ''<'' @ join '', '' (fnTypeParameters fn) @ ''>'') @
     ''('' @ join '', ''
        (map (\<lambda>p. paramName p @ (if paramIsOptional p then ''?: '' else '': '') @ paramType p)
           (fnParameters fn)) @
     ''): '' @ fnReturnType fn
   \<and> (\<forall>p \<in> set (fnParameters method). \<exists>pre post.
         getMethodSignature method className =
           pre @ paramName p @ (if paramIsOptional p then ''?: '' else '': '') @ paramType p
             @ post)
   \<and> (\<forall>p \<in> set (fnParameters fn). \<exists>pre post.
         getFunctionSignature fn =
           pre @ paramName p @ (if paramIsOptional p then ''?: '' else '': '') @ paramType p
             @ post)
   \<and> getMethodSignature
     \<lparr>fnKind = MethodDeclaration, fnName = Some ''fetch'', fnExportKeyword = False,
      fnStartLine = 4, fnEndLine = 6, fnTypeParameters = [],
      fnParameters = [\<lparr>paramName = ''id'', paramIsOptional = False, paramType = idType\<rparr>,
                      \<lparr>paramName = ''opts'', paramIsOptional = True, paramType = optsType\<rparr>],
      fnReturnType = returnType, fnIsAsync = True, fnIsStatic = True,
      fnScope = ScopePublic, fnJsDocs = [], fnNode = Node OtherSyntax [Node Block []]\<rparr>
     ''UserService''
     = ''static async fetch(id: '' @ idType @ '', opts?: '' @ optsType @ ''): '' @ returnType"
proof (intro conjI ballI)
  have rp: "renderParam
      = (\<lambda>p. paramName p @ (if paramIsOptional p then ''?: '' else '': '') @ paramType p)"
    by (rule ext) (simp add: renderParam_def)
  show "getMethodSignature method className =
     (if fnIsStatic method then ''static '' else []) @
     (if fnIsAsync method then ''async '' else []) @
     showOpt (fnName method) @
     (if join '', '' (fnTypeParameters method) = [] then []
      else ''<'' @ join '', '' (fnTypeParameters method) @ ''>'') @
     ''('' @ join '', ''
        (map (\<lambda>p. paramName p @ (if paramIsOptional p then ''?: '' else '': '') @ paramType p)
           (fnParameters method)) @
     ''): '' @ fnReturnType method"
    by (simp add: getMethodSignature_def typeParamStr_def rp)
  show "getFunctionSignature fn =
     (if fnIsAsync fn then ''async '' else []) @ ''function '' @
     orAnonymous (fnName fn) @
     (if join '', '' (fnTypeParameters fn) = [] then []
      else ''<'' @ join '', '' (fnTypeParameters fn) @ ''>'') @
     ''('' @ join '', ''
        (map (\<lambda>p. paramName p @ (if paramIsOptional p then ''?: '' else '': '') @ paramType p)
           (fnParameters fn)) @
     ''): '' @ fnReturnType fn"
    by (simp add: getFunctionSignature_def typeParamStr_def rp)
next
  fix p assume "p \<in> set (fnParameters method)"
  from params_member [OF this, of "(if fnIsStatic method then ''static '' else []) @
      (if fnIsAsync method then ''async '' else []) @ showOpt (fnName method) @
      typeParamStr (fnTypeParameters method)" "''): '' @ fnReturnType method"]
  show "\<exists>pre post. getMethodSignature method className =
           pre @ paramName p @ (if paramIsOptional p then ''?: '' else '': '') @ paramType p
             @ post"
    unfolding getMethodSignature_def Let_def by (simp only: append_assoc)
next
  fix p assume "p \<in> set (fnParameters fn)"
  from params_member [OF this, of "(if fnIsAsync fn then ''async '' else []) @ ''function '' @
      orAnonymous (fnName fn) @ typeParamStr (fnTypeParameters fn)" "''): '' @ fnReturnType fn"]
  show "\<exists>pre post. getFunctionSignature fn =
           pre @ paramName p @ (if paramIsOptional p then ''?: '' else '': '') @ paramType p
             @ post"
    unfolding getFunctionSignature_def Let_def by (simp only: append_assoc)
next
  show "getMethodSignature
     \<lparr>fnKind = MethodDeclaration, fnName = Some ''fetch'', fnExportKeyword = False,
      fnStartLine = 4, fnEndLine = 6, fnTypeParameters = [],
      fnParameters = [\<lparr>paramName = ''id'', paramIsOptional = False, paramType = idType\<rparr>,
                      \<lparr>paramName = ''opts'', paramIsOptional = True, paramType = optsType\<rparr>],
      fnReturnType = returnType, fnIsAsync = True, fnIsStatic = True,
      fnScope = ScopePublic, fnJsDocs = [], fnNode = Node OtherSyntax [Node Block []]\<rparr>
     ''UserService''
     = ''static async fetch(id: '' @ idType @ '', opts?: '' @ optsType @ ''): '' @ returnType"
    by (simp add: getMethodSignature_def renderParam_def typeParamStr_def showOpt_def)
qed

text \<open>
  The method of the scenario with the types as the checker reports them under strict null
  checks, and the function \<^verbatim>\<open>getUser\<close>: each parameter occurs in the signature, the
  optional one with its \<^verbatim>\<open>?\<close>.
\<close>

theorem signature_form_witness:
  "\<lparr>paramName = ''opts'', paramIsOptional = True, paramType = ''Options | undefined''\<rparr>
     \<in> set (fnParameters
       \<lparr>fnKind = MethodDeclaration, fnName = Some ''fetch'', fnExportKeyword = False,
        fnStartLine = 4, fnEndLine = 6, fnTypeParameters = [],
        fnParameters = [\<lparr>paramName = ''id'', paramIsOptional = False, paramType = ''string''\<rparr>,
                        \<lparr>paramName = ''opts'', paramIsOptional = True,
                         paramType = ''Options | undefined''\<rparr>],
        fnReturnType = ''Promise<User>'', fnIsAsync = True, fnIsStatic = True,
        fnScope = ScopePublic, fnJsDocs = [], fnNode = Node OtherSyntax [Node Block []]\<rparr>)
   \<and> (\<exists>pre post. getMethodSignature
       \<lparr>fnKind = MethodDeclaration, fnName = Some ''fetch'', fnExportKeyword = False,
        fnStartLine = 4, fnEndLine = 6, fnTypeParameters = [],
        fnParameters = [\<lparr>paramName = ''id'', paramIsOptional = False, paramType = ''string''\<rparr>,
                        \<lparr>paramName = ''opts'', paramIsOptional = True,
                         paramType = ''Options | undefined''\<rparr>],
        fnReturnType = ''Promise<User>'', fnIsAsync = True, fnIsStatic = True,
        fnScope = ScopePublic, fnJsDocs = [], fnNode = Node OtherSyntax [Node Block []]\<rparr>
       ''UserService'' = pre @ ''opts?: Options | undefined'' @ post)
   \<and> \<lparr>paramName = ''id'', paramIsOptional = False, paramType = ''string''\<rparr>
     \<in> set (fnParameters
       \<lparr>fnKind = FunctionDeclaration, fnName = Some ''getUser'', fnExportKeyword = True,
        fnStartLine = 1, fnEndLine = 3, fnTypeParameters = [],
        fnParameters = [\<lparr>paramName = ''id'', paramIsOptional = False, paramType = ''string''\<rparr>],
        fnReturnType = ''Promise<User>'', fnIsAsync = True, fnIsStatic = False,
        fnScope = ScopePublic, fnJsDocs = [], fnNode = Node OtherSyntax [Node Block []]\<rparr>)
   \<and> (\<exists>pre post. getFunctionSignature
       \<lparr>fnKind = FunctionDeclaration, fnName = Some ''getUser'', fnExportKeyword = True,
        fnStartLine = 1, fnEndLine = 3, fnTypeParameters = [],
        fnParameters = [\<lparr>paramName = ''id'', paramIsOptional = False, paramType = ''string''\<rparr>],
        fnReturnType = ''Promise<User>'', fnIsAsync = True, fnIsStatic = False,
        fnScope = ScopePublic, fnJsDocs = [], fnNode = Node OtherSyntax [Node Block []]\<rparr>
       = pre @ ''id: string'' @ post)
   \<and> getMethodSignature
       \<lparr>fnKind = MethodDeclaration, fnName = Some ''fetch'', fnExportKeyword = False,
        fnStartLine = 4, fnEndLine = 6, fnTypeParameters = [],
        fnParameters = [\<lparr>paramName = ''id'', paramIsOptional = False, paramType = ''string''\<rparr>,
                        \<lparr>paramName = ''opts'', paramIsOptional = True,
                         paramType = ''Options | undefined''\<rparr>],
        fnReturnType = ''Promise<User>'', fnIsAsync = True, fnIsStatic = True,
        fnScope = ScopePublic, fnJsDocs = [], fnNode = Node OtherSyntax [Node Block []]\<rparr>
       ''UserService''
     = ''static async fetch(id: string, opts?: Options | undefined): Promise<User>''"
proof -
  let ?m = "\<lparr>fnKind = MethodDeclaration, fnName = Some ''fetch'', fnExportKeyword = False,
        fnStartLine = 4, fnEndLine = 6, fnTypeParameters = [],
        fnParameters = [\<lparr>paramName = ''id'', paramIsOptional = False, paramType = ''string''\<rparr>,
                        \<lparr>paramName = ''opts'', paramIsOptional = True,
                         paramType = ''Options | undefined''\<rparr>],
        fnReturnType = ''Promise<User>'', fnIsAsync = True, fnIsStatic = True,
        fnScope = ScopePublic, fnJsDocs = [], fnNode = Node OtherSyntax [Node Block []]\<rparr>"
  let ?f = "\<lparr>fnKind = FunctionDeclaration, fnName = Some ''getUser'', fnExportKeyword = True,
        fnStartLine = 1, fnEndLine = 3, fnTypeParameters = [],
        fnParameters = [\<lparr>paramName = ''id'', paramIsOptional = False, paramType = ''string''\<rparr>],
        fnReturnType = ''Promise<User>'', fnIsAsync = True, fnIsStatic = False,
        fnScope = ScopePublic, fnJsDocs = [], fnNode = Node OtherSyntax [Node Block []]\<rparr>"
  note t = signature_form [of ?m "''UserService''" ?f "''string''" "''Options | undefined''"
      "''Promise<User>''"]
  from t have m: "\<forall>p \<in> set (fnParameters ?m). \<exists>pre post.
         getMethodSignature ?m ''UserService'' =
           pre @ paramName p @ (if paramIsOptional p then ''?: '' else '': '') @ paramType p
             @ post" by blast
  from t have f: "\<forall>p \<in> set (fnParameters ?f). \<exists>pre post.
         getFunctionSignature ?f =
           pre @ paramName p @ (if paramIsOptional p then ''?: '' else '': '') @ paramType p
             @ post" by blast
  from t [THEN conjunct2, THEN conjunct2, THEN conjunct2, THEN conjunct2]
  have e: "getMethodSignature ?m ''UserService''
     = ''static async fetch(id: string, opts?: Options | undefined): Promise<User>''"
    by simp
  have pm: "\<lparr>paramName = ''opts'', paramIsOptional = True, paramType = ''Options | undefined''\<rparr>
     \<in> set (fnParameters ?m)" by simp
  have pf: "\<lparr>paramName = ''id'', paramIsOptional = False, paramType = ''string''\<rparr>
     \<in> set (fnParameters ?f)" by simp
  from bspec [OF m pm] have m': "\<exists>pre post. getMethodSignature ?m ''UserService''
       = pre @ ''opts?: Options | undefined'' @ post" by simp
  from bspec [OF f pf] have f': "\<exists>pre post. getFunctionSignature ?f
       = pre @ ''id: string'' @ post" by simp
  from pm m' pf f' e show ?thesis by blast
qed


subsection \<open>Order of the extracted signatures\<close>

lemma foldl_pushFunction:
  "foldl (pushFunction rp options) acc fns =
     acc @ map (functionInfo rp) (filter (\<lambda>fn. extractExportedOnly options \<longrightarrow> isExported fn) fns)"
  by (induction fns arbitrary: acc) (auto simp: pushFunction_def)

lemma foldl_pushMethod:
  "foldl (pushMethod rp options cls) acc ms =
     acc @ map (methodInfo rp cls)
             (filter (\<lambda>m. includePrivate options \<or> fnScope m \<noteq> ScopePrivate) ms)"
  by (induction ms arbitrary: acc) (auto simp: pushMethod_def)

lemma foldl_pushClass:
  "foldl (pushClass rp options) acc cs =
     acc @ concat (map (\<lambda>cls. classInfo rp cls #
                          map (methodInfo rp cls)
                            (filter (\<lambda>m. includePrivate options \<or> fnScope m \<noteq> ScopePrivate)
                               (clsMethods cls)))
                   (filter (\<lambda>cls. extractExportedOnly options \<longrightarrow> clsExportKeyword cls) cs))"
  by (induction cs arbitrary: acc) (auto simp: pushClass_def foldl_pushMethod)

lemma foldl_pushInterface:
  "foldl (pushInterface rp options) acc is =
     acc @ map (interfaceInfo rp)
             (filter (\<lambda>i. extractExportedOnly options \<longrightarrow> ifaceExportKeyword i) is)"
  by (induction "is" arbitrary: acc) (auto simp: pushInterface_def)

lemma foldl_pushTypeAlias:
  "foldl (pushTypeAlias rp options) acc ts =
     acc @ map (typeInfo rp)
             (filter (\<lambda>t. extractExportedOnly options \<longrightarrow> aliasExportKeyword t) ts)"
  by (induction ts arbitrary: acc) (auto simp: pushTypeAlias_def)

lemma foldl_append_concat:
  "foldl (\<lambda>acc x. acc @ f x) acc xs = acc @ concat (map f xs)"
  by (induction xs arbitrary: acc) auto

text \<open>
  C8, as the claim states it, fails: the declarations of a file are not emitted in the order
  in which they appear in it. A file with a class on line 1 (its method on line 2) and a
  function on line 20 yields the function first.
\<close>

theorem extract_order_counterexample:
  "map sigLine (extractFromSourceFile
     \<lparr>sfPath = ''src/user.ts'', sfEndLine = 30,
      sfFunctions = [\<lparr>fnKind = FunctionDeclaration, fnName = Some ''helper'',
         fnExportKeyword = True, fnStartLine = 20, fnEndLine = 22, fnTypeParameters = [],
         fnParameters = [], fnReturnType = ''void'', fnIsAsync = False, fnIsStatic = False,
         fnScope = ScopePublic, fnJsDocs = [], fnNode = Node OtherSyntax [Node Block []]\<rparr>],
      sfClasses = [\<lparr>clsName = Some ''UserService'', clsExportKeyword = True, clsStartLine = 1,
         clsTypeParameters = [], clsExtends = None, clsImplements = [], clsJsDocs = [],
         clsMethods = [\<lparr>fnKind = MethodDeclaration, fnName = Some ''fetch'',
           fnExportKeyword = False, fnStartLine = 2, fnEndLine = 4, fnTypeParameters = [],
           fnParameters = [], fnReturnType = ''void'', fnIsAsync = False, fnIsStatic = False,
           fnScope = ScopePublic, fnJsDocs = [], fnNode = Node OtherSyntax [Node Block []]\<rparr>],
         clsProperties = []\<rparr>],
      sfInterfaces = [], sfTypeAliases = [], sfImports = []\<rparr>
     \<lparr>extractExportedOnly = False, includeTypes = False, jsonOutput = False,
      includePrivate = False\<rparr>) = [20, 1, 2]
   \<and> \<not> sorted [20, 1, 2 :: int]"
  by (simp add: extractFromSourceFile_def Let_def pushFunction_def pushClass_def pushMethod_def
      functionInfo_def classInfo_def methodInfo_def)

text \<open>
  C8, amended: the signatures are emitted grouped by source file, and within a file by kind
  of declaration: first the functions, then the classes, each class followed immediately by
  its methods, then (when types are included) the interfaces and then the type aliases.
  Within each of these groups the order is the one in which the file lists the
  declarations; declarations of different kinds are not interleaved by position.
\<close>

theorem extract_order:
  "extractFromSourceFile sourceFile options =
     map (functionInfo (sfPath sourceFile))
       (filter (\<lambda>fn. extractExportedOnly options \<longrightarrow> isExported fn) (sfFunctions sourceFile)) @
     concat (map (\<lambda>cls. classInfo (sfPath sourceFile) cls #
                    map (methodInfo (sfPath sourceFile) cls)
                      (filter (\<lambda>m. includePrivate options \<or> fnScope m \<noteq> ScopePrivate)
                         (clsMethods cls)))
       (filter (\<lambda>cls. extractExportedOnly options \<longrightarrow> clsExportKeyword cls)
          (sfClasses sourceFile))) @
     (if includeTypes options
      then map (interfaceInfo (sfPath sourceFile))
             (filter (\<lambda>i. extractExportedOnly options \<longrightarrow> ifaceExportKeyword i)
                (sfInterfaces sourceFile)) @
           map (typeInfo (sfPath sourceFile))
             (filter (\<lambda>t. extractExportedOnly options \<longrightarrow> aliasExportKeyword t)
                (sfTypeAliases sourceFile))
      else [])
   \<and> allSignatures sourceFiles options =
     concat (map (\<lambda>sourceFile. extractFromSourceFile sourceFile options) sourceFiles)
   \<and> (\<forall>sig \<in> set (extractFromSourceFile sourceFile options). sigFile sig = sfPath sourceFile)"
proof -
  have form: "extractFromSourceFile sourceFile options =
     map (functionInfo (sfPath sourceFile))
       (filter (\<lambda>fn. extractExportedOnly options \<longrightarrow> isExported fn) (sfFunctions sourceFile)) @
     concat (map (\<lambda>cls. classInfo (sfPath sourceFile) cls #
                    map (methodInfo (sfPath sourceFile) cls)
                      (filter (\<lambda>m. includePrivate options \<or> fnScope m \<noteq> ScopePrivate)
                         (clsMethods cls)))
       (filter (\<lambda>cls. extractExportedOnly options \<longrightarrow> clsExportKeyword cls)
          (sfClasses sourceFile))) @
     (if includeTypes options
      then map (interfaceInfo (sfPath sourceFile))
             (filter (\<lambda>i. extractExportedOnly options \<longrightarrow> ifaceExportKeyword i)
                (sfInterfaces sourceFile)) @
           map (typeInfo (sfPath sourceFile))
             (filter (\<lambda>t. extractExportedOnly options \<longrightarrow> aliasExportKeyword t)
                (sfTypeAliases sourceFile))
      else [])"
    by (simp add: extractFromSourceFile_def Let_def foldl_pushFunction foldl_pushClass
        foldl_pushInterface foldl_pushTypeAlias)
  have all: "allSignatures sourceFiles options =
     concat (map (\<lambda>sourceFile. extractFromSourceFile sourceFile options) sourceFiles)"
    by (simp add: allSignatures_def foldl_append_concat)
  have files: "\<forall>sig \<in> set (extractFromSourceFile sourceFile options). sigFile sig = sfPath sourceFile"
    unfolding form
    by (auto simp: functionInfo_def classInfo_def methodInfo_def interfaceInfo_def typeInfo_def)
  from form all files show ?thesis by blast
qed

text \<open>
  A file with the class \<^verbatim>\<open>UserService\<close> on line 1, its method on line 2, a private method
  on line 5, an interface on line 10 and a function on line 20: the function comes first,
  the method directly under its class, the private method is left out, the interface last;
  the listing nests the method inside the braces of the class.
\<close>

theorem extract_order_witness:
  "map sigName (extractFromSourceFile
     \<lparr>sfPath = ''src/user.ts'', sfEndLine = 30,
      sfFunctions = [\<lparr>fnKind = FunctionDeclaration, fnName = Some ''helper'',
         fnExportKeyword = True, fnStartLine = 20, fnEndLine = 22, fnTypeParameters = [],
         fnParameters = [], fnReturnType = ''void'', fnIsAsync = False, fnIsStatic = False,
         fnScope = ScopePublic, fnJsDocs = [], fnNode = Node OtherSyntax [Node Block []]\<rparr>],
      sfClasses = [\<lparr>clsName = Some ''UserService'', clsExportKeyword = True, clsStartLine = 1,
         clsTypeParameters = [], clsExtends = None, clsImplements = [], clsJsDocs = [],
         clsMethods = [\<lparr>fnKind = MethodDeclaration, fnName = Some ''fetch'',
           fnExportKeyword = False, fnStartLine = 2, fnEndLine = 4, fnTypeParameters = [],
           fnParameters = [], fnReturnType = ''void'', fnIsAsync = False, fnIsStatic = False,
           fnScope = ScopePublic, fnJsDocs = [], fnNode = Node OtherSyntax [Node Block []]\<rparr>,
          \<lparr>fnKind = MethodDeclaration, fnName = Some ''secret'',
           fnExportKeyword = False, fnStartLine = 5, fnEndLine = 7, fnTypeParameters = [],
           fnParameters = [], fnReturnType = ''void'', fnIsAsync = False, fnIsStatic = False,
           fnScope = ScopePrivate, fnJsDocs = [], fnNode = Node OtherSyntax [Node Block []]\<rparr>],
         clsProperties = []\<rparr>],
      sfInterfaces = [\<lparr>ifaceName = ''Options'', ifaceExportKeyword = True, ifaceStartLine = 10,
         ifaceTypeParameters = [], ifaceExtends = [], ifaceJsDocs = []\<rparr>],
      sfTypeAliases = [], sfImports = []\<rparr>
     \<lparr>extractExportedOnly = True, includeTypes = True, jsonOutput = False,
      includePrivate = False\<rparr>) = [''helper'', ''UserService'', ''fetch'', ''Options'']
   \<and> printSignatures None (extractFromSourceFile
     \<lparr>sfPath = ''src/user.ts'', sfEndLine = 30,
      sfFunctions = [\<lparr>fnKind = FunctionDeclaration, fnName = Some ''helper'',
         fnExportKeyword = True, fnStartLine = 20, fnEndLine = 22, fnTypeParameters = [],
         fnParameters = [], fnReturnType = ''void'', fnIsAsync = False, fnIsStatic = False,
         fnScope = ScopePublic, fnJsDocs = [], fnNode = Node OtherSyntax [Node Block []]\<rparr>],
      sfClasses = [\<lparr>clsName = Some ''UserService'', clsExportKeyword = True, clsStartLine = 1,
         clsTypeParameters = [], clsExtends = None, clsImplements = [], clsJsDocs = [],
         clsMethods = [\<lparr>fnKind = MethodDeclaration, fnName = Some ''fetch'',
           fnExportKeyword = False, fnStartLine = 2, fnEndLine = 4, fnTypeParameters = [],
           fnParameters = [], fnReturnType = ''void'', fnIsAsync = False, fnIsStatic = False,
           fnScope = ScopePublic, fnJsDocs = [], fnNode = Node OtherSyntax [Node Block []]\<rparr>,
          \<lparr>fnKind = MethodDeclaration, fnName = Some ''secret'',
           fnExportKeyword = False, fnStartLine = 5, fnEndLine = 7, fnTypeParameters = [],
           fnParameters = [], fnReturnType = ''void'', fnIsAsync = False, fnIsStatic = False,
           fnScope = ScopePrivate, fnJsDocs = [], fnNode = Node OtherSyntax [Node Block []]\<rparr>],
         clsProperties = []\<rparr>],
      sfInterfaces = [\<lparr>ifaceName = ''Options'', ifaceExportKeyword = True, ifaceStartLine = 10,
         ifaceTypeParameters = [], ifaceExtends = [], ifaceJsDocs = []\<rparr>],
      sfTypeAliases = [], sfImports = []\<rparr>
     \<lparr>extractExportedOnly = True, includeTypes = True, jsonOutput = False,
      includePrivate = False\<rparr>)
     = [''export function helper(): void'', ''export class UserService {'',
        ''  fetch(): void'', ''}'' @ [CHR 0x0A], ''export interface Options'']"
  using extract_order [of
     "\<lparr>sfPath = ''src/user.ts'', sfEndLine = 30,
      sfFunctions = [\<lparr>fnKind = FunctionDeclaration, fnName = Some ''helper'',
         fnExportKeyword = True, fnStartLine = 20, fnEndLine = 22, fnTypeParameters = [],
         fnParameters = [], fnReturnType = ''void'', fnIsAsync = False, fnIsStatic = False,
         fnScope = ScopePublic, fnJsDocs = [], fnNode = Node OtherSyntax [Node Block []]\<rparr>],
      sfClasses = [\<lparr>clsName = Some ''UserService'', clsExportKeyword = True, clsStartLine = 1,
         clsTypeParameters = [], clsExtends = None, clsImplements = [], clsJsDocs = [],
         clsMethods = [\<lparr>fnKind = MethodDeclaration, fnName = Some ''fetch'',
           fnExportKeyword = False, fnStartLine = 2, fnEndLine = 4, fnTypeParameters = [],
           fnParameters = [], fnReturnType = ''void'', fnIsAsync = False, fnIsStatic = False,
           fnScope = ScopePublic, fnJsDocs = [], fnNode = Node OtherSyntax [Node Block []]\<rparr>,
          \<lparr>fnKind = MethodDeclaration, fnName = Some ''secret'',
           fnExportKeyword = False, fnStartLine = 5, fnEndLine = 7, fnTypeParameters = [],
           fnParameters = [], fnReturnType = ''void'', fnIsAsync = False, fnIsStatic = False,
           fnScope = ScopePrivate, fnJsDocs = [], fnNode = Node OtherSyntax [Node Block []]\<rparr>],
         clsProperties = []\<rparr>],
      sfInterfaces = [\<lparr>ifaceName = ''Options'', ifaceExportKeyword = True, ifaceStartLine = 10,
         ifaceTypeParameters = [], ifaceExtends = [], ifaceJsDocs = []\<rparr>],
      sfTypeAliases = [], sfImports = []\<rparr>"
     "\<lparr>extractExportedOnly = True, includeTypes = True, jsonOutput = False,
      includePrivate = False\<rparr>" "[]"]
  by (simp add: functionInfo_def classInfo_def methodInfo_def interfaceInfo_def isExported_def
      formatSignature_def getJsDoc_def getFunctionSignature_def getClassSignature_def
      getMethodSignature_def getInterfaceSignature_def typeParamStr_def orAnonymous_def
      showOpt_def)

section \<open>Properties of the call hierarchy tracer\<close>

subsection \<open>Paths of a tree\<close>

lemma paths_cases:
  assumes "p \<in> set (paths t)"
  shows "(cnChildren t = [] \<and> p = [t]) \<or>
         (\<exists>c \<in> set (cnChildren t). \<exists>q \<in> set (paths c). p = t # q)"
  using assms by (cases t) (auto split: if_splits)

lemma paths_depthOK:
  "depthOK k t \<Longrightarrow> p \<in> set (paths t) \<Longrightarrow> int (length p) \<le> k"
proof (induction t arbitrary: k p)
  case (CallNode n f l s cs)
  show ?case
  proof (cases "cs = []")
    case True
    with CallNode.prems show ?thesis by simp
  next
    case False
    with CallNode.prems obtain c q where c: "c \<in> set cs" and q: "q \<in> set (paths c)"
      and p: "p = CallNode n f l s cs # q" by auto
    from CallNode.prems c have "depthOK (k - 1) c" by simp
    from CallNode.IH [OF c this q] p show ?thesis by simp
  qed
qed

lemma avoids_mono: "avoids S' t \<Longrightarrow> S \<subseteq> S' \<Longrightarrow> avoids S t"
proof (induction t arbitrary: S S')
  case (CallNode n f l s cs)
  have "avoids (insert (f, n) S) c" if "c \<in> set cs" for c
  proof -
    from CallNode.prems that have "avoids (insert (f, n) S') c" by simp
    moreover from CallNode.prems have "insert (f, n) S \<subseteq> insert (f, n) S'" by auto
    ultimately show ?thesis using CallNode.IH [OF that] by blast
  qed
  with CallNode.prems show ?case by auto
qed

lemma paths_avoids:
  "avoids S t \<Longrightarrow> p \<in> set (paths t) \<Longrightarrow>
     distinct (map identity p) \<and> set (map identity p) \<inter> S = {}"
proof (induction t arbitrary: S p)
  case (CallNode n f l s cs)
  show ?case
  proof (cases "cs = []")
    case True
    with CallNode.prems show ?thesis by (simp add: identity_def)
  next
    case False
    with CallNode.prems obtain c q where c: "c \<in> set cs" and q: "q \<in> set (paths c)"
      and p: "p = CallNode n f l s cs # q" by auto
    from CallNode.prems c have "avoids (insert (f, n) S) c" by simp
    from CallNode.IH [OF c this q]
    have "distinct (map identity q)" and "set (map identity q) \<inter> insert (f, n) S = {}"
      by simp_all
    moreover have "identity (CallNode n f l s cs) = (f, n)" by (simp add: identity_def)
    moreover from CallNode.prems have "(f, n) \<notin> S" by simp
    ultimately show ?thesis using p by auto
  qed
qed

subsection \<open>Visited keys and identities\<close>

lemma identsOf_mono: "V \<subseteq> V' \<Longrightarrow> identsOf relative P V \<subseteq> identsOf relative P V'"
  by (auto simp: identsOf_def)

lemma identsOf_insert:
  "declIdentity relative P d \<in> identsOf relative P (insert (nodeKey P d) V)"
  by (simp add: identsOf_def)

lemma identsOf_fresh:
  assumes inj: "inj_on relative (range (\<lambda>d. declFilePath (P d)))"
    and fresh: "nodeKey P d \<notin> V"
  shows "declIdentity relative P d \<notin> identsOf relative P V"
proof
  assume "declIdentity relative P d \<in> identsOf relative P V"
  then obtain d' where d': "nodeKey P d' \<in> V"
    and eq: "declIdentity relative P d = declIdentity relative P d'"
    by (auto simp: identsOf_def)
  from eq have "relative (declFilePath (P d)) = relative (declFilePath (P d'))"
    and names: "orAnonymous (declName (P d)) = orAnonymous (declName (P d'))"
    by (simp_all add: declIdentity_def)
  with inj have "declFilePath (P d) = declFilePath (P d')"
    by (auto dest: inj_onD)
  with names have "nodeKey P d = nodeKey P d'" by (simp add: nodeKey_def)
  with d' fresh show False by simp
qed

subsection \<open>The upward trace\<close>

lemma callers_visited_mono:
  "visited \<subseteq> snd (getCallers relative P node depth maxDepth visited)"
  "visited \<subseteq> snd (callersLoop relative P refs depth maxDepth visited)"
proof (induction relative P node depth maxDepth visited
        and relative P refs depth maxDepth visited rule: getCallers_callersLoop.induct)
  case (1 relative P node depth maxDepth visited)
  then show ?case by (auto simp: getCallers.simps)
next
  case (2 relative P depth maxDepth visited)
  then show ?case by simp
next
  case (3 relative P ref refs depth maxDepth visited)
  show ?case
  proof (cases "refIsDefinition ref")
    case True
    with 3 show ?thesis by simp
  next
    case notDef: False
    show ?thesis
    proof (cases "callerOf ref")
      case None
      with 3 notDef show ?thesis by simp
    next
      case (Some c)
      show ?thesis
      proof (cases "nodeKey P c \<in> visited")
        case True
        with 3 notDef Some show ?thesis by simp
      next
        case False
        obtain children v1 where g: "getCallers relative P c (depth + 1) maxDepth visited = (children, v1)"
          by (cases "getCallers relative P c (depth + 1) maxDepth visited")
        obtain callers v2 where l: "callersLoop relative P refs depth maxDepth v1 = (callers, v2)"
          by (cases "callersLoop relative P refs depth maxDepth v1")
        from "3.IH"(3) [OF notDef Some False] g have "visited \<subseteq> v1" by simp
        moreover from "3.IH"(4) [OF notDef Some False g [symmetric] refl] l have "v1 \<subseteq> v2" by simp
        ultimately show ?thesis using notDef Some False g l by simp
      qed
    qed
  qed
qed

lemma callers_key_visited:
  assumes "depth < maxDepth"
  shows "nodeKey P node \<in> snd (getCallers relative P node depth maxDepth visited)"
proof (cases "nodeKey P node \<in> visited")
  case True
  then show ?thesis using callers_visited_mono(1) by blast
next
  case False
  with assms have "getCallers relative P node depth maxDepth visited =
      callersLoop relative P (declReferences (P node)) depth maxDepth (insert (nodeKey P node) visited)"
    by (simp add: getCallers.simps)
  then show ?thesis using callers_visited_mono(2) by (metis insert_subset)
qed

lemma callersLoop_emit:
  assumes "\<not> refIsDefinition ref" and "callerOf ref = Some c" and "nodeKey P c \<notin> visited"
  shows "callersLoop relative P (ref # refs) depth maxDepth visited =
     (CallNode (orAnonymous (declName (P c))) (relative (declFilePath (P c)))
        (declStartLine (P c)) None
        (fst (getCallers relative P c (depth + 1) maxDepth visited)) #
      fst (callersLoop relative P refs depth maxDepth
             (snd (getCallers relative P c (depth + 1) maxDepth visited))),
      snd (callersLoop relative P refs depth maxDepth
             (snd (getCallers relative P c (depth + 1) maxDepth visited))))"
  using assms by (simp add: case_prod_beta)

lemma callersLoop_skip:
  assumes "refIsDefinition ref \<or> callerOf ref = None \<or>
           (\<exists>c. callerOf ref = Some c \<and> nodeKey P c \<in> visited)"
  shows "callersLoop relative P (ref # refs) depth maxDepth visited =
         callersLoop relative P refs depth maxDepth visited"
  using assms by auto

lemma callersLoop_cases:
  obtains (skip) "callersLoop relative P (ref # refs) depth maxDepth visited =
                  callersLoop relative P refs depth maxDepth visited"
                 "refIsDefinition ref \<or> callerOf ref = None \<or>
                  (\<exists>c. callerOf ref = Some c \<and> nodeKey P c \<in> visited)"
  | (emit) c where "\<not> refIsDefinition ref" "callerOf ref = Some c" "nodeKey P c \<notin> visited"
  using callersLoop_skip [of ref P visited relative refs depth maxDepth]
  by (cases "callerOf ref") auto

text \<open>
  The loop over a list of references in two parts: the second part starts from the
  visited set the first part leaves.
\<close>

lemma callersLoop_append:
  "callersLoop relative P (xs @ ys) depth maxDepth visited =
     (fst (callersLoop relative P xs depth maxDepth visited) @
      fst (callersLoop relative P ys depth maxDepth
             (snd (callersLoop relative P xs depth maxDepth visited))),
      snd (callersLoop relative P ys depth maxDepth
             (snd (callersLoop relative P xs depth maxDepth visited))))"
proof (induction xs arbitrary: visited)
  case Nil
  then show ?case by simp
next
  case (Cons x xs)
  show ?case
  proof (cases rule: callersLoop_cases [of relative P x "xs @ ys" depth maxDepth visited])
    case skip
    from callersLoop_skip [OF skip(2)]
    have "callersLoop relative P (x # xs) depth maxDepth visited =
          callersLoop relative P xs depth maxDepth visited" .
    with skip(1) Cons.IH [of visited] show ?thesis by simp
  next
    case (emit c)
    let ?V = "snd (getCallers relative P c (depth + 1) maxDepth visited)"
    from callersLoop_emit [OF emit, of relative "xs @ ys" depth maxDepth]
      callersLoop_emit [OF emit, of relative xs depth maxDepth] Cons.IH [of ?V]
    show ?thesis by simp
  qed
qed

lemma callers_depthOK:
  "\<forall>t \<in> set (fst (getCallers relative P node depth maxDepth visited)).
      depthOK (maxDepth - depth) t"
  "depth < maxDepth \<longrightarrow>
     (\<forall>t \<in> set (fst (callersLoop relative P refs depth maxDepth visited)).
        depthOK (maxDepth - depth) t)"
proof (induction relative P node depth maxDepth visited
        and relative P refs depth maxDepth visited rule: getCallers_callersLoop.induct)
  case (1 relative P node depth maxDepth visited)
  then show ?case by (auto simp: getCallers.simps)
next
  case (2 relative P depth maxDepth visited)
  then show ?case by simp
next
  case (3 relative P ref refs depth maxDepth visited)
  show ?case
  proof (cases rule: callersLoop_cases [of relative P ref refs depth maxDepth visited])
    case skip
    have "depth < maxDepth \<longrightarrow>
         (\<forall>t \<in> set (fst (callersLoop relative P refs depth maxDepth visited)).
           depthOK (maxDepth - depth) t)"
    proof -
      from skip(2) consider (a) "refIsDefinition ref"
        | (b) "\<not> refIsDefinition ref" "callerOf ref = None"
        | (c) c where "\<not> refIsDefinition ref" "callerOf ref = Some c" "\<not> nodeKey P c \<notin> visited"
        by (cases "refIsDefinition ref") auto
      then show ?thesis
      proof cases
        case a
        from "3.IH"(1) [OF a] show ?thesis .
      next
        case b
        from "3.IH"(2) [OF b] show ?thesis .
      next
        case c
        from "3.IH"(5) [OF c] show ?thesis .
      qed
    qed
    with skip(1) show ?thesis by simp
  next
    case (emit c)
    let ?G = "getCallers relative P c (depth + 1) maxDepth visited"
    let ?L = "callersLoop relative P refs depth maxDepth (snd ?G)"
    let ?t = "CallNode (orAnonymous (declName (P c))) (relative (declFilePath (P c)))
                (declStartLine (P c)) None (fst ?G)"
    have eq: "fst (callersLoop relative P (ref # refs) depth maxDepth visited) = ?t # fst ?L"
      using callersLoop_emit [OF emit] by simp
    show ?thesis
    proof (intro impI ballI)
      fix t
      assume lt: "depth < maxDepth"
        and t: "t \<in> set (fst (callersLoop relative P (ref # refs) depth maxDepth visited))"
      from t eq consider "t = ?t" | "t \<in> set (fst ?L)" by auto
      then show "depthOK (maxDepth - depth) t"
      proof cases
        case 1
        have "depthOK (maxDepth - depth - 1) k" if "k \<in> set (fst ?G)" for k
          using "3.IH"(3) [OF emit] that by (simp add: algebra_simps)
        with 1 lt show ?thesis by simp
      next
        case 2
        with "3.IH"(4) [OF emit refl prod.collapse] lt show ?thesis by simp
      qed
    qed
  qed
qed

lemma callers_avoids:
  assumes inj: "inj_on relative (range (\<lambda>d. declFilePath (P d)))"
  shows "\<forall>t \<in> set (fst (getCallers relative P node depth maxDepth visited)).
           avoids (identsOf relative P (insert (nodeKey P node) visited)) t"
    and "\<forall>t \<in> set (fst (callersLoop relative P refs depth maxDepth visited)).
           avoids (identsOf relative P visited) t"
  using inj
proof (induction relative P node depth maxDepth visited
        and relative P refs depth maxDepth visited rule: getCallers_callersLoop.induct)
  case (1 relative P node depth maxDepth visited)
  then show ?case by (auto simp: getCallers.simps)
next
  case (2 relative P depth maxDepth visited)
  then show ?case by simp
next
  case (3 relative P ref refs depth maxDepth visited)
  note inj = "3.prems"
  show ?case
  proof (cases rule: callersLoop_cases [of relative P ref refs depth maxDepth visited])
    case skip
    have "\<forall>t \<in> set (fst (callersLoop relative P refs depth maxDepth visited)).
           avoids (identsOf relative P visited) t"
    proof -
      from skip(2) consider (a) "refIsDefinition ref"
        | (b) "\<not> refIsDefinition ref" "callerOf ref = None"
        | (c) c where "\<not> refIsDefinition ref" "callerOf ref = Some c" "\<not> nodeKey P c \<notin> visited"
        by (cases "refIsDefinition ref") auto
      then show ?thesis
      proof cases
        case a
        from "3.IH"(1) [OF a inj] show ?thesis .
      next
        case b
        from "3.IH"(2) [OF b inj] show ?thesis .
      next
        case c
        from "3.IH"(5) [OF c inj] show ?thesis .
      qed
    qed
    with skip(1) show ?thesis by simp
  next
    case (emit c)
    let ?G = "getCallers relative P c (depth + 1) maxDepth visited"
    let ?L = "callersLoop relative P refs depth maxDepth (snd ?G)"
    let ?t = "CallNode (orAnonymous (declName (P c))) (relative (declFilePath (P c)))
                (declStartLine (P c)) None (fst ?G)"
    have eq: "fst (callersLoop relative P (ref # refs) depth maxDepth visited) = ?t # fst ?L"
      using callersLoop_emit [OF emit] by simp
    show ?thesis
    proof
      fix t
      assume t: "t \<in> set (fst (callersLoop relative P (ref # refs) depth maxDepth visited))"
      from t eq consider "t = ?t" | "t \<in> set (fst ?L)" by auto
      then show "avoids (identsOf relative P visited) t"
      proof cases
        case 1
        have fresh: "declIdentity relative P c \<notin> identsOf relative P visited"
          using identsOf_fresh [OF inj emit(3)] .
        have kids: "\<forall>k \<in> set (fst ?G).
            avoids (identsOf relative P (insert (nodeKey P c) visited)) k"
          using "3.IH"(3) [OF emit inj] .
        have sub: "insert (declIdentity relative P c) (identsOf relative P visited)
              \<subseteq> identsOf relative P (insert (nodeKey P c) visited)"
          using identsOf_insert [of relative P c visited]
            identsOf_mono [of visited "insert (nodeKey P c) visited" relative P] by auto
        have "avoids (insert (declIdentity relative P c) (identsOf relative P visited)) k"
          if "k \<in> set (fst ?G)" for k
          using kids that avoids_mono [OF _ sub] by blast
        with 1 fresh show ?thesis by (simp add: declIdentity_def)
      next
        case 2
        have "\<forall>t \<in> set (fst ?L). avoids (identsOf relative P (snd ?G)) t"
          using "3.IH"(4) [OF emit refl prod.collapse inj] .
        moreover have "identsOf relative P visited \<subseteq> identsOf relative P (snd ?G)"
          using identsOf_mono [OF callers_visited_mono(1)] .
        ultimately show ?thesis using 2 avoids_mono by blast
      qed
    qed
  qed
qed

lemma callers_above_inv:
  assumes inj: "inj_on relative (range (\<lambda>d. declFilePath (P d)))"
  shows "set (map identity (concat (map (nodesAbove maxDepth (depth + 1))
              (fst (getCallers relative P node depth maxDepth visited)))))
            \<subseteq> identsOf relative P (snd (getCallers relative P node depth maxDepth visited)) \<and>
         set (map identity (concat (map (nodesAbove maxDepth (depth + 1))
              (fst (getCallers relative P node depth maxDepth visited)))))
            \<inter> identsOf relative P (insert (nodeKey P node) visited) = {} \<and>
         distinct (map identity (concat (map (nodesAbove maxDepth (depth + 1))
              (fst (getCallers relative P node depth maxDepth visited)))))"
    and "set (map identity (concat (map (nodesAbove maxDepth (depth + 1))
              (fst (callersLoop relative P refs depth maxDepth visited)))))
            \<subseteq> identsOf relative P (snd (callersLoop relative P refs depth maxDepth visited)) \<and>
         set (map identity (concat (map (nodesAbove maxDepth (depth + 1))
              (fst (callersLoop relative P refs depth maxDepth visited)))))
            \<inter> identsOf relative P visited = {} \<and>
         distinct (map identity (concat (map (nodesAbove maxDepth (depth + 1))
              (fst (callersLoop relative P refs depth maxDepth visited)))))"
  using inj
proof (induction relative P node depth maxDepth visited
        and relative P refs depth maxDepth visited rule: getCallers_callersLoop.induct)
  case (1 relative P node depth maxDepth visited)
  then show ?case by (auto simp: getCallers.simps)
next
  case (2 relative P depth maxDepth visited)
  then show ?case by simp
next
  case (3 relative P ref refs depth maxDepth visited)
  note inj = "3.prems"
  show ?case
  proof (cases rule: callersLoop_cases [of relative P ref refs depth maxDepth visited])
    case skip
    have "set (map identity (concat (map (nodesAbove maxDepth (depth + 1))
              (fst (callersLoop relative P refs depth maxDepth visited)))))
            \<subseteq> identsOf relative P (snd (callersLoop relative P refs depth maxDepth visited)) \<and>
         set (map identity (concat (map (nodesAbove maxDepth (depth + 1))
              (fst (callersLoop relative P refs depth maxDepth visited)))))
            \<inter> identsOf relative P visited = {} \<and>
         distinct (map identity (concat (map (nodesAbove maxDepth (depth + 1))
              (fst (callersLoop relative P refs depth maxDepth visited)))))"
    proof -
      from skip(2) consider (a) "refIsDefinition ref"
        | (b) "\<not> refIsDefinition ref" "callerOf ref = None"
        | (c) c where "\<not> refIsDefinition ref" "callerOf ref = Some c" "\<not> nodeKey P c \<notin> visited"
        by (cases "refIsDefinition ref") auto
      then show ?thesis
      proof cases
        case a
        from "3.IH"(1) [OF a inj] show ?thesis .
      next
        case b
        from "3.IH"(2) [OF b inj] show ?thesis .
      next
        case c
        from "3.IH"(5) [OF c inj] show ?thesis .
      qed
    qed
    with skip(1) show ?thesis by simp
  next
    case (emit c)
    let ?G = "getCallers relative P c (depth + 1) maxDepth visited"
    let ?L = "callersLoop relative P refs depth maxDepth (snd ?G)"
    let ?t = "CallNode (orAnonymous (declName (P c))) (relative (declFilePath (P c)))
                (declStartLine (P c)) None (fst ?G)"
    define Ek where "Ek = map identity (concat (map (nodesAbove maxDepth (depth + 1 + 1)) (fst ?G)))"
    define Et where "Et = map identity (nodesAbove maxDepth (depth + 1) ?t)"
    define Er where "Er = map identity (concat (map (nodesAbove maxDepth (depth + 1)) (fst ?L)))"
    define I0 where "I0 = identsOf relative P visited"
    define Ic where "Ic = identsOf relative P (insert (nodeKey P c) visited)"
    define I1 where "I1 = identsOf relative P (snd ?G)"
    define I2 where "I2 = identsOf relative P (snd ?L)"
    define ic where "ic = declIdentity relative P c"
    have eq: "callersLoop relative P (ref # refs) depth maxDepth visited = (?t # fst ?L, snd ?L)"
      using callersLoop_emit [OF emit] by simp
    have kids: "set Ek \<subseteq> I1" "set Ek \<inter> Ic = {}" "distinct Ek"
      using "3.IH"(3) [OF emit inj] unfolding Ek_def I1_def Ic_def by blast+
    have rest: "set Er \<subseteq> I2" "set Er \<inter> I1 = {}" "distinct Er"
      using "3.IH"(4) [OF emit refl prod.collapse inj] unfolding Er_def I1_def I2_def by blast+
    have i01: "I0 \<subseteq> I1" unfolding I0_def I1_def
      using identsOf_mono [OF callers_visited_mono(1)] .
    have i12: "I1 \<subseteq> I2" unfolding I1_def I2_def
      using identsOf_mono [OF callers_visited_mono(2)] .
    have i0c: "I0 \<subseteq> Ic" unfolding I0_def Ic_def by (rule identsOf_mono) auto
    have icc: "ic \<in> Ic" unfolding ic_def Ic_def by (rule identsOf_insert)
    have fresh: "ic \<notin> I0" unfolding ic_def I0_def
      using identsOf_fresh [OF inj emit(3)] .
    have Et: "Et = (if depth + 1 < maxDepth then ic # Ek else [])"
      unfolding Et_def Ek_def ic_def by (simp add: identity_def declIdentity_def)
    have ic1: "ic \<in> I1" if "depth + 1 < maxDepth"
    proof -
      have "nodeKey P c \<in> snd ?G" using callers_key_visited [OF that] .
      then show ?thesis unfolding ic_def I1_def by (auto simp: identsOf_def)
    qed
    have t_sub: "set Et \<subseteq> I1" using Et kids(1) ic1 by (cases "depth + 1 < maxDepth") auto
    have t_new: "set Et \<inter> I0 = {}"
      using Et kids(2) fresh i0c by (cases "depth + 1 < maxDepth") auto
    have "ic \<notin> set Ek" using kids(2) icc by blast
    then have t_dist: "distinct Et" using Et kids(3) by (cases "depth + 1 < maxDepth") auto
    have all: "map identity (concat (map (nodesAbove maxDepth (depth + 1))
                 (fst (callersLoop relative P (ref # refs) depth maxDepth visited)))) = Et @ Er"
      unfolding Et_def Er_def using eq by simp
    have a: "set (Et @ Er) \<subseteq> I2" using t_sub rest(1) i12 by auto
    have b: "set (Et @ Er) \<inter> I0 = {}" using t_new rest(2) i01 by auto
    have c: "distinct (Et @ Er)" using t_dist rest(2,3) t_sub by auto
    have "snd (callersLoop relative P (ref # refs) depth maxDepth visited) = snd ?L"
      using eq by simp
    with a b c show ?thesis unfolding all I2_def I0_def by simp
  qed
qed

lemma callersLoop_origin:
  "t \<in> set (fst (callersLoop relative P refs depth maxDepth visited)) \<Longrightarrow>
     \<exists>ref \<in> set refs. \<exists>c. \<not> refIsDefinition ref \<and> callerOf ref = Some c \<and>
        nodeKey P c \<notin> visited \<and>
        cnName t = orAnonymous (declName (P c)) \<and>
        cnFile t = relative (declFilePath (P c)) \<and>
        cnLine t = declStartLine (P c)"
proof (induction refs arbitrary: visited)
  case Nil
  then show ?case by simp
next
  case (Cons ref refs)
  show ?case
  proof (cases rule: callersLoop_cases [of relative P ref refs depth maxDepth visited])
    case skip
    with Cons.prems have "t \<in> set (fst (callersLoop relative P refs depth maxDepth visited))"
      by simp
    from Cons.IH [OF this] show ?thesis by auto
  next
    case (emit c)
    let ?G = "getCallers relative P c (depth + 1) maxDepth visited"
    let ?L = "callersLoop relative P refs depth maxDepth (snd ?G)"
    from Cons.prems callersLoop_emit [OF emit, of relative refs depth maxDepth]
    consider "t = CallNode (orAnonymous (declName (P c))) (relative (declFilePath (P c)))
                (declStartLine (P c)) None (fst ?G)" | "t \<in> set (fst ?L)"
      by auto
    then show ?thesis
    proof cases
      case 1
      with emit show ?thesis by auto
    next
      case 2
      from Cons.IH [OF 2] obtain r c' where r: "r \<in> set refs" "\<not> refIsDefinition r"
        "callerOf r = Some c'" "nodeKey P c' \<notin> snd ?G"
        "cnName t = orAnonymous (declName (P c'))"
        "cnFile t = relative (declFilePath (P c'))"
        "cnLine t = declStartLine (P c')" by blast
      moreover have "visited \<subseteq> snd ?G" using callers_visited_mono(1) .
      ultimately show ?thesis by auto
    qed
  qed
qed

text \<open>
  A reference whose caller is already visited when the loop reaches it adds nothing; one
  whose caller is not yet visited adds the node of its caller at its place.
\<close>

lemma callers_skip_visited:
  assumes lt: "depth < maxDepth" and fresh: "nodeKey P node \<notin> visited"
    and refs: "declReferences (P node) = pre @ r # post"
    and c: "callerOf r = Some c"
    and key: "nodeKey P c \<in> snd (callersLoop relative P pre depth maxDepth
                                     (insert (nodeKey P node) visited))"
  shows "getCallers relative P node depth maxDepth visited =
         callersLoop relative P (pre @ post) depth maxDepth (insert (nodeKey P node) visited)"
proof -
  let ?V0 = "insert (nodeKey P node) visited"
  let ?V1 = "snd (callersLoop relative P pre depth maxDepth ?V0)"
  from lt fresh refs
  have "getCallers relative P node depth maxDepth visited =
        callersLoop relative P (pre @ r # post) depth maxDepth ?V0"
    by (simp add: getCallers.simps)
  moreover from c key have "callersLoop relative P (r # post) depth maxDepth ?V1 =
      callersLoop relative P post depth maxDepth ?V1"
    by (intro callersLoop_skip) simp
  ultimately show ?thesis
    using callersLoop_append [of relative P pre "r # post" depth maxDepth ?V0]
      callersLoop_append [of relative P pre post depth maxDepth ?V0] by simp
qed

lemma callers_emit_fresh:
  assumes lt: "depth < maxDepth" and fresh: "nodeKey P node \<notin> visited"
    and refs: "declReferences (P node) = pre @ r # post"
    and nd: "\<not> refIsDefinition r"
    and c: "callerOf r = Some c"
    and key: "nodeKey P c \<notin> snd (callersLoop relative P pre depth maxDepth
                                     (insert (nodeKey P node) visited))"
  shows "fst (getCallers relative P node depth maxDepth visited) =
         fst (callersLoop relative P pre depth maxDepth (insert (nodeKey P node) visited)) @
         CallNode (orAnonymous (declName (P c))) (relative (declFilePath (P c)))
           (declStartLine (P c)) None
           (fst (getCallers relative P c (depth + 1) maxDepth
                  (snd (callersLoop relative P pre depth maxDepth
                          (insert (nodeKey P node) visited))))) #
         fst (callersLoop relative P post depth maxDepth
                (snd (getCallers relative P c (depth + 1) maxDepth
                        (snd (callersLoop relative P pre depth maxDepth
                                (insert (nodeKey P node) visited))))))"
proof -
  let ?V0 = "insert (nodeKey P node) visited"
  let ?V1 = "snd (callersLoop relative P pre depth maxDepth ?V0)"
  from lt fresh refs
  have "getCallers relative P node depth maxDepth visited =
        callersLoop relative P (pre @ r # post) depth maxDepth ?V0"
    by (simp add: getCallers.simps)
  then show ?thesis
    using callersLoop_append [of relative P pre "r # post" depth maxDepth ?V0]
      callersLoop_emit [OF nd c key, of relative post depth maxDepth]
    by simp
qed


lemma callerOf_arrow:
  "callerOf ref =
     (if ArrowFunctionNode \<in> set (takeWhile
            (\<lambda>a. case a of FunctionDeclarationNode _ \<Rightarrow> False
                          | MethodDeclarationNode _ \<Rightarrow> False | _ \<Rightarrow> True) (refAncestors ref))
      then None else enclosingFunctionOrMethod ref)"
proof -
  have "(case find (\<lambda>ancestor. case ancestor of
               FunctionDeclarationNode _ \<Rightarrow> True
             | MethodDeclarationNode _ \<Rightarrow> True
             | ArrowFunctionNode \<Rightarrow> True
             | OtherNode \<Rightarrow> False) as of
       Some (FunctionDeclarationNode c) \<Rightarrow> Some c
     | Some (MethodDeclarationNode c) \<Rightarrow> Some c
     | _ \<Rightarrow> None) =
     (if ArrowFunctionNode \<in> set (takeWhile
            (\<lambda>a. case a of FunctionDeclarationNode _ \<Rightarrow> False
                          | MethodDeclarationNode _ \<Rightarrow> False | _ \<Rightarrow> True) as)
      then None
      else (case find (\<lambda>ancestor. case ancestor of
                    FunctionDeclarationNode _ \<Rightarrow> True
                  | MethodDeclarationNode _ \<Rightarrow> True
                  | _ \<Rightarrow> False) as of
        Some (FunctionDeclarationNode c) \<Rightarrow> Some c
      | Some (MethodDeclarationNode c) \<Rightarrow> Some c
      | _ \<Rightarrow> None))" for as
  proof (induction as)
    case Nil
    then show ?case by simp
  next
    case (Cons a as)
    then show ?case by (cases a) auto
  qed
  then show ?thesis by (simp add: callerOf_def containingFn_def enclosingFunctionOrMethod_def)
qed

subsection \<open>The downward trace\<close>

lemma callees_origin:
  assumes "t \<in> set (getCallees relative P node depth maxDepth visited)"
  shows "depth < maxDepth \<and> nodeKey P node \<notin> visited \<and>
     (\<exists>calls call d. declCalls (P node) = Some calls \<and> call \<in> set calls \<and>
        FunctionOrMethod d \<in> set (callDefinitions call) \<and> calledName call \<noteq> [] \<and>
        declFilePath (P d) @ '':'' @ calledName call \<notin> insert (nodeKey P node) visited \<and>
        t = CallNode (calledName call) (relative (declFilePath (P d))) (declStartLine (P d)) None
              (getCallees relative P d (depth + 1) maxDepth (insert (nodeKey P node) visited)))"
proof -
  from assms have lt: "depth < maxDepth" and fresh: "nodeKey P node \<notin> visited"
    by (auto simp: getCallees.simps [of relative P node depth maxDepth visited] split: if_splits)
  from assms lt fresh obtain calls where calls: "declCalls (P node) = Some calls"
    by (cases "declCalls (P node)")
       (auto simp: getCallees.simps [of relative P node depth maxDepth visited])
  from assms lt fresh calls obtain call df where call: "call \<in> set calls"
    and nm: "calledName call \<noteq> []" and df: "df \<in> set (callDefinitions call)"
    and t: "t \<in> set (case df of
                       OtherDefinition \<Rightarrow> []
                     | FunctionOrMethod d \<Rightarrow>
                         if declFilePath (P d) @ '':'' @ calledName call
                              \<notin> insert (nodeKey P node) visited
                         then [CallNode (calledName call) (relative (declFilePath (P d)))
                                 (declStartLine (P d)) None
                                 (getCallees relative P d (depth + 1) maxDepth
                                    (insert (nodeKey P node) visited))]
                         else [])"
    by (auto simp: getCallees.simps [of relative P node depth maxDepth visited] split: if_splits)
  from t obtain d where d: "df = FunctionOrMethod d" by (cases df) auto
  with t have "declFilePath (P d) @ '':'' @ calledName call \<notin> insert (nodeKey P node) visited"
    and "t = CallNode (calledName call) (relative (declFilePath (P d))) (declStartLine (P d)) None
              (getCallees relative P d (depth + 1) maxDepth (insert (nodeKey P node) visited))"
    by (auto split: if_splits)
  with lt fresh calls call nm df d show ?thesis by blast
qed

lemma getCallees_calls:
  assumes "depth < maxDepth" and "nodeKey P node \<notin> visited"
    and "declCalls (P node) = Some calls"
  shows "getCallees relative P node depth maxDepth visited =
         calleesOfCalls relative P calls depth maxDepth (insert (nodeKey P node) visited)"
  using assms
  by (simp add: getCallees.simps [of relative P node depth maxDepth visited] calleesOfCalls_def)

lemma calleesOfCalls_append:
  "calleesOfCalls relative P (xs @ ys) depth maxDepth visited =
     calleesOfCalls relative P xs depth maxDepth visited @
     calleesOfCalls relative P ys depth maxDepth visited"
  by (simp add: calleesOfCalls_def)

lemma calleesOfCalls_visited_definition:
  assumes nm: "calledName call = orAnonymous (declName (P d))"
    and defs: "callDefinitions call = dpre @ FunctionOrMethod d # dpost"
    and key: "nodeKey P d \<in> visited"
  shows "calleesOfCalls relative P [call] depth maxDepth visited =
         calleesOfCalls relative P [call\<lparr>callDefinitions := dpre @ dpost\<rparr>] depth maxDepth visited"
proof -
  have "calledName (call\<lparr>callDefinitions := dpre @ dpost\<rparr>) = calledName call"
    by (simp add: calledName_def)
  moreover from nm key have "declFilePath (P d) @ '':'' @ calledName call \<in> visited"
    by (simp add: nodeKey_def)
  ultimately show ?thesis using defs by (simp add: calleesOfCalls_def cong: if_cong)
qed

lemma callees_skip_visited:
  assumes lt: "depth < maxDepth" and fresh: "nodeKey P node \<notin> visited"
    and calls: "declCalls (P node) = Some (cpre @ call # cpost)"
    and defs: "callDefinitions call = dpre @ FunctionOrMethod d # dpost"
    and nm: "calledName call = orAnonymous (declName (P d))"
    and key: "nodeKey P d \<in> insert (nodeKey P node) visited"
  shows "getCallees relative P node depth maxDepth visited =
         calleesOfCalls relative P (cpre @ call\<lparr>callDefinitions := dpre @ dpost\<rparr> # cpost)
           depth maxDepth (insert (nodeKey P node) visited)"
proof -
  let ?V = "insert (nodeKey P node) visited"
  have split: "calleesOfCalls relative P (xs @ c # ys) depth maxDepth ?V =
      calleesOfCalls relative P xs depth maxDepth ?V @
      calleesOfCalls relative P [c] depth maxDepth ?V @
      calleesOfCalls relative P ys depth maxDepth ?V" for xs c ys
    using calleesOfCalls_append [of relative P xs "[c] @ ys" depth maxDepth ?V]
      calleesOfCalls_append [of relative P "[c]" ys depth maxDepth ?V] by simp
  from getCallees_calls [OF lt fresh calls]
  have "getCallees relative P node depth maxDepth visited =
        calleesOfCalls relative P (cpre @ call # cpost) depth maxDepth ?V" .
  also have "\<dots> = calleesOfCalls relative P (cpre @ call\<lparr>callDefinitions := dpre @ dpost\<rparr> # cpost)
           depth maxDepth ?V"
    using calleesOfCalls_visited_definition [OF nm defs key, of relative depth maxDepth]
    by (simp only: split)
  finally show ?thesis .
qed

lemma callees_depthOK:
  "t \<in> set (getCallees relative P node depth maxDepth visited) \<Longrightarrow> depthOK (maxDepth - depth) t"
proof (induction "nat (maxDepth - depth)" arbitrary: node depth visited t)
  case 0
  from callees_origin [OF "0.prems"] "0.hyps" show ?case by simp
next
  case (Suc k)
  from callees_origin [OF Suc.prems] obtain call d where lt: "depth < maxDepth"
    and t: "t = CallNode (calledName call) (relative (declFilePath (P d))) (declStartLine (P d)) None
              (getCallees relative P d (depth + 1) maxDepth (insert (nodeKey P node) visited))"
    by blast
  have "depthOK (maxDepth - depth - 1) c"
    if "c \<in> set (getCallees relative P d (depth + 1) maxDepth (insert (nodeKey P node) visited))" for c
  proof -
    from Suc.hyps(2) have "k = nat (maxDepth - (depth + 1))" by simp
    from Suc.hyps(1) [OF this that] show ?thesis by (simp add: algebra_simps)
  qed
  with t lt show ?case by simp
qed

lemma callees_avoids:
  assumes inj: "inj_on relative (range (\<lambda>d. declFilePath (P d)))"
    and cons: "namesConsistent P"
  shows "t \<in> set (getCallees relative P node depth maxDepth visited) \<Longrightarrow>
         avoids (identsOf relative P (insert (nodeKey P node) visited)) t"
proof (induction "nat (maxDepth - depth)" arbitrary: node depth visited t)
  case 0
  from callees_origin [OF "0.prems"] "0.hyps" show ?case by simp
next
  case (Suc k)
  let ?V = "insert (nodeKey P node) visited"
  from callees_origin [OF Suc.prems] obtain calls call d where lt: "depth < maxDepth"
    and calls: "declCalls (P node) = Some calls" and call: "call \<in> set calls"
    and d: "FunctionOrMethod d \<in> set (callDefinitions call)"
    and fresh: "declFilePath (P d) @ '':'' @ calledName call \<notin> ?V"
    and t: "t = CallNode (calledName call) (relative (declFilePath (P d))) (declStartLine (P d)) None
              (getCallees relative P d (depth + 1) maxDepth ?V)"
    by blast
  from cons calls call d have nm: "calledName call = orAnonymous (declName (P d))"
    unfolding namesConsistent_def by blast
  with fresh have key: "nodeKey P d \<notin> ?V" by (simp add: nodeKey_def)
  have idt: "(relative (declFilePath (P d)), calledName call) = declIdentity relative P d"
    using nm by (simp add: declIdentity_def)
  have notin: "declIdentity relative P d \<notin> identsOf relative P ?V"
    using identsOf_fresh [OF inj key] .
  have sub: "insert (declIdentity relative P d) (identsOf relative P ?V)
              \<subseteq> identsOf relative P (insert (nodeKey P d) ?V)"
    using identsOf_insert [of relative P d ?V]
      identsOf_mono [of ?V "insert (nodeKey P d) ?V" relative P] by auto
  have "avoids (insert (declIdentity relative P d) (identsOf relative P ?V)) c"
    if "c \<in> set (getCallees relative P d (depth + 1) maxDepth ?V)" for c
  proof -
    from Suc.hyps(2) have "k = nat (maxDepth - (depth + 1))" by simp
    from Suc.hyps(1) [OF this that] show ?thesis using avoids_mono [OF _ sub] by blast
  qed
  with t notin idt show ?case by simp
qed

subsection \<open>Depth bound and repetition along a path\<close>

text \<open>
  The depth bound holds in both directions, the default depth is 3, and in the upward
  trace no declaration identity (file path plus name) occurs twice on a path from the root
  to a leaf. (A call node shows the file path relative to the working directory; the
  statement on identities takes distinct files to have distinct relative paths.)
\<close>

lemma trace_depth_bound:
  assumes depth: "0 \<le> maxDepth"
  shows "(\<forall>p \<in> set (paths (traceUp relative P fn maxDepth)).
            int (length p) - 1 \<le> maxDepth \<and>
            (inj_on relative (range (\<lambda>d. declFilePath (P d))) \<longrightarrow>
               distinct (map identity p))) \<and>
         (\<forall>p \<in> set (paths (traceDown relative P fn maxDepth)).
            int (length p) - 1 \<le> maxDepth) \<and>
         optionsMaxDepth None = 3"
proof -
  let ?n = "orAnonymous (declName (P fn))"
  let ?f = "relative (declFilePath (P fn))"
  have root: "insert (?f, ?n) {} \<subseteq> identsOf relative P (insert (nodeKey P fn) {})"
    using identsOf_insert [of relative P fn "{}"] by (simp add: declIdentity_def)
  have up_depth: "depthOK (maxDepth + 1) (traceUp relative P fn maxDepth)"
    unfolding traceUp_def using callers_depthOK(1) [of relative P fn 0 maxDepth "{}"] depth
    by simp
  have up_avoids: "avoids {} (traceUp relative P fn maxDepth)"
    if "inj_on relative (range (\<lambda>d. declFilePath (P d)))"
    unfolding traceUp_def
    using callers_avoids(1) [OF that, of fn 0 maxDepth "{}"] avoids_mono [OF _ root]
    by auto
  have down_depth: "depthOK (maxDepth + 1) (traceDown relative P fn maxDepth)"
    unfolding traceDown_def using callees_depthOK [of _ relative P fn 0 maxDepth "{}"] depth
    by simp
  have up: "int (length p) - 1 \<le> maxDepth \<and>
            (inj_on relative (range (\<lambda>d. declFilePath (P d))) \<longrightarrow> distinct (map identity p))"
    if "p \<in> set (paths (traceUp relative P fn maxDepth))" for p
    using paths_depthOK [OF up_depth that] paths_avoids [OF up_avoids that] by auto
  have down: "int (length p) - 1 \<le> maxDepth"
    if "p \<in> set (paths (traceDown relative P fn maxDepth))" for p
    using paths_depthOK [OF down_depth that] by auto
  have "optionsMaxDepth None = 3" by (simp add: optionsMaxDepth_def)
  with up down show ?thesis by blast
qed

text \<open>
  In the downward trace the paths repeat no identity either, as long as every call names
  its target by the target's declared name.
\<close>

lemma callees_paths_distinct:
  assumes inj: "inj_on relative (range (\<lambda>d. declFilePath (P d)))"
    and cons: "namesConsistent P"
    and p: "p \<in> set (paths (traceDown relative P fn maxDepth))"
  shows "distinct (map identity p)"
proof -
  let ?n = "orAnonymous (declName (P fn))"
  let ?f = "relative (declFilePath (P fn))"
  have root: "insert (?f, ?n) {} \<subseteq> identsOf relative P (insert (nodeKey P fn) {})"
    using identsOf_insert [of relative P fn "{}"] by (simp add: declIdentity_def)
  have "avoids {} (traceDown relative P fn maxDepth)"
    unfolding traceDown_def
    using callees_avoids [OF inj cons, of _ fn 0 maxDepth "{}"] avoids_mono [OF _ root]
    by auto
  from paths_avoids [OF this p] show ?thesis by simp
qed

text \<open>
  C3 holds of the upward trace and fails in the downward trace, by a slip of \<^verbatim>\<open>getCallees\<close>:
  it tests a callee under the key made of the name written at the call site
  (\<^verbatim>\<open>calleeKey\<close>, from \<^verbatim>\<open>calledName\<close>), but enters a declaration into \<open>visited\<close> under
  its declared name (\<^verbatim>\<open>nodeKey\<close>, from \<^verbatim>\<open>node.getName()\<close>), and it shows the callee
  under the name of the call site; \<^verbatim>\<open>getCallers\<close> uses the declared name in all three
  places. With \<^verbatim>\<open>function g() { h(); }\<close>, \<^verbatim>\<open>const h = g;\<close> and
  \<^verbatim>\<open>function f() { h(); }\<close> in one file, the downward trace from \<^verbatim>\<open>f\<close> with depth 3 is
  \<^verbatim>\<open>f\<close>, \<^verbatim>\<open>h\<close>, \<^verbatim>\<open>h\<close>: the identity of file and \<^verbatim>\<open>h\<close> twice on one path from the
  root to a leaf.
\<close>

theorem callees_alias_repeats_identity:
  "traceDown (drop 1)
     ((!) [\<lparr>declName = Some ''f'', declFilePath = ''/p/a.ts'', declStartLine = 3,
            declReferences = [],
            declCalls = Some [\<lparr>callExpression = Identifier ''h'',
                                callDefinitions = [FunctionOrMethod 1]\<rparr>]\<rparr>,
           \<lparr>declName = Some ''g'', declFilePath = ''/p/a.ts'', declStartLine = 1,
            declReferences = [],
            declCalls = Some [\<lparr>callExpression = Identifier ''h'',
                                callDefinitions = [FunctionOrMethod 1]\<rparr>]\<rparr>]) 0 3
     = CallNode ''f'' ''p/a.ts'' 3 None
         [CallNode ''h'' ''p/a.ts'' 1 None [CallNode ''h'' ''p/a.ts'' 1 None []]]
   \<and> map (map identity) (paths (traceDown (drop 1)
     ((!) [\<lparr>declName = Some ''f'', declFilePath = ''/p/a.ts'', declStartLine = 3,
            declReferences = [],
            declCalls = Some [\<lparr>callExpression = Identifier ''h'',
                                callDefinitions = [FunctionOrMethod 1]\<rparr>]\<rparr>,
           \<lparr>declName = Some ''g'', declFilePath = ''/p/a.ts'', declStartLine = 1,
            declReferences = [],
            declCalls = Some [\<lparr>callExpression = Identifier ''h'',
                                callDefinitions = [FunctionOrMethod 1]\<rparr>]\<rparr>]) 0 3))
     = [[(''p/a.ts'', ''f''), (''p/a.ts'', ''h''), (''p/a.ts'', ''h'')]]
   \<and> \<not> distinct [(''p/a.ts'', ''f''), (''p/a.ts'', ''h''), (''p/a.ts'', ''h'')]"
  by (simp add: traceDown_def getCallees.simps nodeKey_def orAnonymous_def calledName_def
      identity_def)

subsection \<open>Declarations already visited\<close>

text \<open>
  C4, as the claim states it, fails: a declaration already on the current path is left out
  of the tree, it does not appear as a leaf. With \<^verbatim>\<open>f\<close> and \<^verbatim>\<open>g\<close> calling each other,
  the trace from \<^verbatim>\<open>f\<close> is \<^verbatim>\<open>f\<close> with the single child \<^verbatim>\<open>g\<close>, and \<^verbatim>\<open>g\<close> has no child,
  downwards as well as upwards.
\<close>

theorem visited_leaf_counterexample:
  "traceDown (drop 1)
     ((!) [\<lparr>declName = Some ''f'', declFilePath = ''/p/a.ts'', declStartLine = 1,
            declReferences = [\<lparr>refIsDefinition = True, refAncestors = []\<rparr>,
                              \<lparr>refIsDefinition = False,
                               refAncestors = [OtherNode, FunctionDeclarationNode 1]\<rparr>],
            declCalls = Some [\<lparr>callExpression = Identifier ''g'',
                                callDefinitions = [FunctionOrMethod 1]\<rparr>]\<rparr>,
           \<lparr>declName = Some ''g'', declFilePath = ''/p/a.ts'', declStartLine = 5,
            declReferences = [\<lparr>refIsDefinition = True, refAncestors = []\<rparr>,
                              \<lparr>refIsDefinition = False,
                               refAncestors = [OtherNode, FunctionDeclarationNode 0]\<rparr>],
            declCalls = Some [\<lparr>callExpression = Identifier ''f'',
                                callDefinitions = [FunctionOrMethod 0]\<rparr>]\<rparr>]) 0 3
     = CallNode ''f'' ''p/a.ts'' 1 None [CallNode ''g'' ''p/a.ts'' 5 None []]
   \<and> traceUp (drop 1)
     ((!) [\<lparr>declName = Some ''f'', declFilePath = ''/p/a.ts'', declStartLine = 1,
            declReferences = [\<lparr>refIsDefinition = True, refAncestors = []\<rparr>,
                              \<lparr>refIsDefinition = False,
                               refAncestors = [OtherNode, FunctionDeclarationNode 1]\<rparr>],
            declCalls = Some [\<lparr>callExpression = Identifier ''g'',
                                callDefinitions = [FunctionOrMethod 1]\<rparr>]\<rparr>,
           \<lparr>declName = Some ''g'', declFilePath = ''/p/a.ts'', declStartLine = 5,
            declReferences = [\<lparr>refIsDefinition = True, refAncestors = []\<rparr>,
                              \<lparr>refIsDefinition = False,
                               refAncestors = [OtherNode, FunctionDeclarationNode 0]\<rparr>],
            declCalls = Some [\<lparr>callExpression = Identifier ''f'',
                                callDefinitions = [FunctionOrMethod 0]\<rparr>]\<rparr>]) 0 3
     = CallNode ''f'' ''p/a.ts'' 1 None [CallNode ''g'' ''p/a.ts'' 5 None []]"
  by (simp add: traceDown_def traceUp_def getCallees.simps getCallers.simps nodeKey_def
      orAnonymous_def calledName_def callerOf_def containingFn_def)

text \<open>
  C4, amended: during the trace (up and down) a declaration whose key (file path plus
  declared name) is already in the visited set is not expanded again: tracing it yields no
  children and leaves the visited set as it is. Nor is it shown as a leaf; it is left out
  of the tree. In the upward trace a reference whose caller has its key in the visited set
  when the reference is reached adds nothing: the result is that of the same references
  without it. In the downward trace a call that names its target by the target's declared
  name adds nothing for a target whose key is in the visited set or is the key of the
  declaration being expanded: the result is that of the same calls without that target.
  Every call node of the upward trace stems from a reference whose caller's key was not in
  the visited set, and every call node of the downward trace that stems from a call by the
  declared name has a target whose key was not in the visited set. Nothing is said about a
  downward call that names its target by another name than the declared one.
\<close>

theorem visited_not_emitted:
  "(nodeKey P node \<in> visited \<longrightarrow>
      getCallees relative P node depth maxDepth visited = [] \<and>
      getCallers relative P node depth maxDepth visited = ([], visited)) \<and>
   (depth < maxDepth \<and> nodeKey P node \<notin> visited \<and>
    declReferences (P node) = pre @ r # post \<and> callerOf r = Some c \<and>
    nodeKey P c \<in> snd (callersLoop relative P pre depth maxDepth
                          (insert (nodeKey P node) visited)) \<longrightarrow>
      getCallers relative P node depth maxDepth visited =
        callersLoop relative P (pre @ post) depth maxDepth (insert (nodeKey P node) visited)) \<and>
   (depth < maxDepth \<and> nodeKey P node \<notin> visited \<and> declCalls (P node) = Some calls \<longrightarrow>
      getCallees relative P node depth maxDepth visited =
        calleesOfCalls relative P calls depth maxDepth (insert (nodeKey P node) visited)) \<and>
   (depth < maxDepth \<and> nodeKey P node \<notin> visited \<and>
    declCalls (P node) = Some (cpre @ call # cpost) \<and>
    callDefinitions call = dpre @ FunctionOrMethod d # dpost \<and>
    calledName call = orAnonymous (declName (P d)) \<and>
    nodeKey P d \<in> insert (nodeKey P node) visited \<longrightarrow>
      getCallees relative P node depth maxDepth visited =
        calleesOfCalls relative P (cpre @ call\<lparr>callDefinitions := dpre @ dpost\<rparr> # cpost)
          depth maxDepth (insert (nodeKey P node) visited)) \<and>
   (\<forall>t \<in> set (fst (getCallers relative P node depth maxDepth visited)).
      \<exists>ref \<in> set (declReferences (P node)). \<exists>c. callerOf ref = Some c \<and>
        cnName t = orAnonymous (declName (P c)) \<and> cnFile t = relative (declFilePath (P c)) \<and>
        nodeKey P c \<notin> insert (nodeKey P node) visited) \<and>
   (\<forall>t \<in> set (getCallees relative P node depth maxDepth visited).
      \<exists>calls call d. declCalls (P node) = Some calls \<and> call \<in> set calls \<and>
        FunctionOrMethod d \<in> set (callDefinitions call) \<and>
        cnName t = calledName call \<and> cnFile t = relative (declFilePath (P d)) \<and>
        (calledName call = orAnonymous (declName (P d)) \<longrightarrow>
           nodeKey P d \<notin> insert (nodeKey P node) visited))"
proof -
  have a: "nodeKey P node \<in> visited \<longrightarrow>
      getCallees relative P node depth maxDepth visited = [] \<and>
      getCallers relative P node depth maxDepth visited = ([], visited)"
    by (simp add: getCallees.simps getCallers.simps)
  have b: "depth < maxDepth \<and> nodeKey P node \<notin> visited \<and>
    declReferences (P node) = pre @ r # post \<and> callerOf r = Some c \<and>
    nodeKey P c \<in> snd (callersLoop relative P pre depth maxDepth
                          (insert (nodeKey P node) visited)) \<longrightarrow>
      getCallers relative P node depth maxDepth visited =
        callersLoop relative P (pre @ post) depth maxDepth (insert (nodeKey P node) visited)"
    using callers_skip_visited [of depth maxDepth P node visited pre r post c relative] by blast
  have c: "depth < maxDepth \<and> nodeKey P node \<notin> visited \<and> declCalls (P node) = Some calls \<longrightarrow>
      getCallees relative P node depth maxDepth visited =
        calleesOfCalls relative P calls depth maxDepth (insert (nodeKey P node) visited)"
    using getCallees_calls [of depth maxDepth P node visited calls relative] by blast
  have d: "depth < maxDepth \<and> nodeKey P node \<notin> visited \<and>
    declCalls (P node) = Some (cpre @ call # cpost) \<and>
    callDefinitions call = dpre @ FunctionOrMethod d # dpost \<and>
    calledName call = orAnonymous (declName (P d)) \<and>
    nodeKey P d \<in> insert (nodeKey P node) visited \<longrightarrow>
      getCallees relative P node depth maxDepth visited =
        calleesOfCalls relative P (cpre @ call\<lparr>callDefinitions := dpre @ dpost\<rparr> # cpost)
          depth maxDepth (insert (nodeKey P node) visited)"
    using callees_skip_visited [of depth maxDepth P node visited cpre call cpost dpre d dpost
        relative] by blast
  have e: "\<exists>ref \<in> set (declReferences (P node)). \<exists>c. callerOf ref = Some c \<and>
        cnName t = orAnonymous (declName (P c)) \<and> cnFile t = relative (declFilePath (P c)) \<and>
        nodeKey P c \<notin> insert (nodeKey P node) visited"
    if "t \<in> set (fst (getCallers relative P node depth maxDepth visited))" for t
  proof -
    from that have "t \<in> set (fst (callersLoop relative P (declReferences (P node)) depth
        maxDepth (insert (nodeKey P node) visited)))"
      by (auto simp: getCallers.simps split: if_splits)
    from callersLoop_origin [OF this] show ?thesis by blast
  qed
  have f: "\<exists>calls call d. declCalls (P node) = Some calls \<and> call \<in> set calls \<and>
        FunctionOrMethod d \<in> set (callDefinitions call) \<and>
        cnName t = calledName call \<and> cnFile t = relative (declFilePath (P d)) \<and>
        (calledName call = orAnonymous (declName (P d)) \<longrightarrow>
           nodeKey P d \<notin> insert (nodeKey P node) visited)"
    if "t \<in> set (getCallees relative P node depth maxDepth visited)" for t
  proof -
    from callees_origin [OF that] obtain calls call d where o:
      "declCalls (P node) = Some calls" "call \<in> set calls"
      "FunctionOrMethod d \<in> set (callDefinitions call)"
      "declFilePath (P d) @ '':'' @ calledName call \<notin> insert (nodeKey P node) visited"
      "t = CallNode (calledName call) (relative (declFilePath (P d))) (declStartLine (P d)) None
              (getCallees relative P d (depth + 1) maxDepth (insert (nodeKey P node) visited))"
      by blast
    from o(4) have "calledName call = orAnonymous (declName (P d)) \<longrightarrow>
           nodeKey P d \<notin> insert (nodeKey P node) visited"
      by (auto simp: nodeKey_def)
    with o show ?thesis by auto
  qed
  from a b c d e f show ?thesis by blast
qed

text \<open>
  \<^verbatim>\<open>f\<close> calls \<^verbatim>\<open>g\<close> and itself: the call of \<^verbatim>\<open>f\<close> to itself and the reference to
  \<^verbatim>\<open>f\<close> inside \<^verbatim>\<open>f\<close> add nothing, the trace of \<^verbatim>\<open>f\<close> has the one child \<^verbatim>\<open>g\<close> in
  both directions, and a trace started with the key of \<^verbatim>\<open>f\<close> already visited yields
  nothing.
\<close>

theorem visited_not_emitted_witness:
  "getCallers (drop 1)
     (\<lambda>d. if d = 0 then
        \<lparr>declName = Some ''f'', declFilePath = ''/p/a.ts'', declStartLine = 1,
         declReferences = [\<lparr>refIsDefinition = True, refAncestors = []\<rparr>,
                           \<lparr>refIsDefinition = False,
                            refAncestors = [OtherNode, FunctionDeclarationNode 0]\<rparr>,
                           \<lparr>refIsDefinition = False,
                            refAncestors = [OtherNode, FunctionDeclarationNode 1]\<rparr>],
         declCalls = Some [\<lparr>callExpression = Identifier ''g'',
                             callDefinitions = [FunctionOrMethod 1]\<rparr>,
                           \<lparr>callExpression = Identifier ''f'',
                             callDefinitions = [FunctionOrMethod 0]\<rparr>]\<rparr>
      else
        \<lparr>declName = Some ''g'', declFilePath = ''/p/a.ts'', declStartLine = 5,
         declReferences = [], declCalls = Some []\<rparr>) 0 0 3 {}
     = ([CallNode ''g'' ''p/a.ts'' 5 None []], {''/p/a.ts:f'', ''/p/a.ts:g''})
   \<and> getCallees (drop 1)
     (\<lambda>d. if d = 0 then
        \<lparr>declName = Some ''f'', declFilePath = ''/p/a.ts'', declStartLine = 1,
         declReferences = [\<lparr>refIsDefinition = True, refAncestors = []\<rparr>,
                           \<lparr>refIsDefinition = False,
                            refAncestors = [OtherNode, FunctionDeclarationNode 0]\<rparr>,
                           \<lparr>refIsDefinition = False,
                            refAncestors = [OtherNode, FunctionDeclarationNode 1]\<rparr>],
         declCalls = Some [\<lparr>callExpression = Identifier ''g'',
                             callDefinitions = [FunctionOrMethod 1]\<rparr>,
                           \<lparr>callExpression = Identifier ''f'',
                             callDefinitions = [FunctionOrMethod 0]\<rparr>]\<rparr>
      else
        \<lparr>declName = Some ''g'', declFilePath = ''/p/a.ts'', declStartLine = 5,
         declReferences = [], declCalls = Some []\<rparr>) 0 0 3 {}
     = [CallNode ''g'' ''p/a.ts'' 5 None []]
   \<and> getCallees (drop 1)
     (\<lambda>d. if d = 0 then
        \<lparr>declName = Some ''f'', declFilePath = ''/p/a.ts'', declStartLine = 1,
         declReferences = [\<lparr>refIsDefinition = True, refAncestors = []\<rparr>,
                           \<lparr>refIsDefinition = False,
                            refAncestors = [OtherNode, FunctionDeclarationNode 0]\<rparr>,
                           \<lparr>refIsDefinition = False,
                            refAncestors = [OtherNode, FunctionDeclarationNode 1]\<rparr>],
         declCalls = Some [\<lparr>callExpression = Identifier ''g'',
                             callDefinitions = [FunctionOrMethod 1]\<rparr>,
                           \<lparr>callExpression = Identifier ''f'',
                             callDefinitions = [FunctionOrMethod 0]\<rparr>]\<rparr>
      else
        \<lparr>declName = Some ''g'', declFilePath = ''/p/a.ts'', declStartLine = 5,
         declReferences = [], declCalls = Some []\<rparr>) 0 1 3 {''/p/a.ts:f''}
     = []"
proof -
  let ?P = "(\<lambda>d::nat. if d = 0 then
        \<lparr>declName = Some ''f'', declFilePath = ''/p/a.ts'', declStartLine = 1,
         declReferences = [\<lparr>refIsDefinition = True, refAncestors = []\<rparr>,
                           \<lparr>refIsDefinition = False,
                            refAncestors = [OtherNode, FunctionDeclarationNode 0]\<rparr>,
                           \<lparr>refIsDefinition = False,
                            refAncestors = [OtherNode, FunctionDeclarationNode 1]\<rparr>],
         declCalls = Some [\<lparr>callExpression = Identifier ''g'',
                             callDefinitions = [FunctionOrMethod 1]\<rparr>,
                           \<lparr>callExpression = Identifier ''f'',
                             callDefinitions = [FunctionOrMethod 0]\<rparr>]\<rparr>
      else
        \<lparr>declName = Some ''g'', declFilePath = ''/p/a.ts'', declStartLine = 5,
         declReferences = [], declCalls = Some []\<rparr>)"
  let ?def = "\<lparr>refIsDefinition = True, refAncestors = []\<rparr>"
  let ?rf = "\<lparr>refIsDefinition = False, refAncestors = [OtherNode, FunctionDeclarationNode 0]\<rparr>"
  let ?rg = "\<lparr>refIsDefinition = False, refAncestors = [OtherNode, FunctionDeclarationNode 1]\<rparr>"
  let ?cg = "\<lparr>callExpression = Identifier ''g'', callDefinitions = [FunctionOrMethod 1]\<rparr>"
  let ?cf = "\<lparr>callExpression = Identifier ''f'', callDefinitions = [FunctionOrMethod 0]\<rparr>"
  have key: "nodeKey ?P 0 \<in> {''/p/a.ts:f''}"
    by (simp add: nodeKey_def orAnonymous_def)
  have fresh: "(0::int) < 3 \<and> nodeKey ?P 0 \<notin> {}" by simp
  have refs: "declReferences (?P 0) = [?def] @ ?rf # [?rg]" by simp
  have caller: "callerOf ?rf = Some 0" by (simp add: callerOf_def containingFn_def)
  have seen: "nodeKey ?P 0 \<in> snd (callersLoop (drop 1) ?P [?def] 0 3 (insert (nodeKey ?P 0) {}))"
    by simp
  have calls: "declCalls (?P 0) = Some ([?cg] @ ?cf # [])" by simp
  have defs: "callDefinitions ?cf = [] @ FunctionOrMethod 0 # []" by simp
  have nm: "calledName ?cf = orAnonymous (declName (?P 0))"
    by (simp add: calledName_def orAnonymous_def)
  have own: "nodeKey ?P 0 \<in> insert (nodeKey ?P 0) {}" by simp
  note t = visited_not_emitted [where P = ?P and node = 0 and relative = "drop 1"
      and maxDepth = 3]
  from t [where visited = "{''/p/a.ts:f''}" and depth = 1] key
  have one: "getCallees (drop 1) ?P 0 1 3 {''/p/a.ts:f''} = []" by blast
  from t [where visited = "{}" and depth = 0 and pre = "[?def]" and r = ?rf and post = "[?rg]"
      and c = 0] fresh refs caller seen
  have "getCallers (drop 1) ?P 0 0 3 {}
      = callersLoop (drop 1) ?P ([?def] @ [?rg]) 0 3 (insert (nodeKey ?P 0) {})" by blast
  then have up: "getCallers (drop 1) ?P 0 0 3 {}
      = ([CallNode ''g'' ''p/a.ts'' 5 None []], {''/p/a.ts:f'', ''/p/a.ts:g''})"
    by (simp add: getCallers.simps nodeKey_def orAnonymous_def callerOf_def containingFn_def
        insert_commute)
  from t [where visited = "{}" and depth = 0 and cpre = "[?cg]" and call = ?cf and cpost = "[]"
      and dpre = "[]" and d = 0 and dpost = "[]"] fresh calls defs nm own
  have "getCallees (drop 1) ?P 0 0 3 {}
      = calleesOfCalls (drop 1) ?P ([?cg] @ ?cf\<lparr>callDefinitions := [] @ []\<rparr> # []) 0 3
          (insert (nodeKey ?P 0) {})" by blast
  then have down: "getCallees (drop 1) ?P 0 0 3 {} = [CallNode ''g'' ''p/a.ts'' 5 None []]"
    by (simp add: calleesOfCalls_def getCallees.simps nodeKey_def orAnonymous_def calledName_def)
  from up down one show ?thesis by simp
qed

subsection \<open>The caller of a reference\<close>

text \<open>
  C5, as the claim states it, fails: a reference inside an arrow function that sits
  inside the named function \<^verbatim>\<open>g\<close> is not attributed to \<^verbatim>\<open>g\<close>; it is not reported at
  all, although \<^verbatim>\<open>g\<close> is its smallest enclosing function declaration.
\<close>

theorem arrow_in_function_counterexample:
  "enclosingFunctionOrMethod
     \<lparr>refIsDefinition = False,
      refAncestors = [OtherNode, ArrowFunctionNode, OtherNode, FunctionDeclarationNode 1]\<rparr>
     = Some 1
   \<and> traceUp (drop 1)
     ((!) [\<lparr>declName = Some ''f'', declFilePath = ''/p/a.ts'', declStartLine = 1,
            declReferences = [\<lparr>refIsDefinition = True, refAncestors = []\<rparr>,
                              \<lparr>refIsDefinition = False,
                               refAncestors = [OtherNode, ArrowFunctionNode, OtherNode,
                                               FunctionDeclarationNode 1]\<rparr>],
            declCalls = Some []\<rparr>,
           \<lparr>declName = Some ''g'', declFilePath = ''/p/a.ts'', declStartLine = 5,
            declReferences = [\<lparr>refIsDefinition = True, refAncestors = []\<rparr>],
            declCalls = Some []\<rparr>]) 0 3
     = CallNode ''f'' ''p/a.ts'' 1 None []"
  by (simp add: enclosingFunctionOrMethod_def traceUp_def getCallers.simps nodeKey_def
      orAnonymous_def callerOf_def containingFn_def)

text \<open>
  C5, amended: in an upward trace the caller of a reference is its smallest enclosing
  function or method declaration, provided no arrow function lies between the reference
  and that declaration: the search stops at the nearest function declaration, method
  declaration or arrow function, and when that is an arrow function the reference has no
  caller, whether or not the arrow sits inside a named function or method. Every reported
  caller is the caller of a reference to the target other than the definition itself. And
  when the target is expanded, every such reference that has a caller is reported, its
  caller's node standing at the place of the reference among the results, unless the
  caller's key (file path plus name) is already in the visited set when the reference is
  reached.
\<close>

theorem caller_of_reference:
  "callerOf ref =
     (if ArrowFunctionNode \<in> set (takeWhile
            (\<lambda>a. case a of FunctionDeclarationNode _ \<Rightarrow> False
                          | MethodDeclarationNode _ \<Rightarrow> False | _ \<Rightarrow> True) (refAncestors ref))
      then None else enclosingFunctionOrMethod ref) \<and>
   (\<forall>t \<in> set (fst (getCallers relative P node depth maxDepth visited)).
      \<exists>r \<in> set (declReferences (P node)). \<exists>c.
        \<not> refIsDefinition r \<and> callerOf r = Some c \<and> enclosingFunctionOrMethod r = Some c \<and>
        ArrowFunctionNode \<notin> set (takeWhile
            (\<lambda>a. case a of FunctionDeclarationNode _ \<Rightarrow> False
                          | MethodDeclarationNode _ \<Rightarrow> False | _ \<Rightarrow> True) (refAncestors r)) \<and>
        cnName t = orAnonymous (declName (P c)) \<and>
        cnFile t = relative (declFilePath (P c)) \<and>
        cnLine t = declStartLine (P c)) \<and>
   (depth < maxDepth \<and> nodeKey P node \<notin> visited \<and>
    declReferences (P node) = pre @ ref # post \<and> \<not> refIsDefinition ref \<and>
    enclosingFunctionOrMethod ref = Some caller \<and>
    ArrowFunctionNode \<notin> set (takeWhile
            (\<lambda>a. case a of FunctionDeclarationNode _ \<Rightarrow> False
                          | MethodDeclarationNode _ \<Rightarrow> False | _ \<Rightarrow> True) (refAncestors ref)) \<and>
    nodeKey P caller \<notin> snd (callersLoop relative P pre depth maxDepth
                               (insert (nodeKey P node) visited)) \<longrightarrow>
      fst (getCallers relative P node depth maxDepth visited) =
        fst (callersLoop relative P pre depth maxDepth (insert (nodeKey P node) visited)) @
        CallNode (orAnonymous (declName (P caller))) (relative (declFilePath (P caller)))
          (declStartLine (P caller)) None
          (fst (getCallers relative P caller (depth + 1) maxDepth
                 (snd (callersLoop relative P pre depth maxDepth
                         (insert (nodeKey P node) visited))))) #
        fst (callersLoop relative P post depth maxDepth
               (snd (getCallers relative P caller (depth + 1) maxDepth
                       (snd (callersLoop relative P pre depth maxDepth
                               (insert (nodeKey P node) visited)))))))"
proof -
  have sound: "\<exists>r \<in> set (declReferences (P node)). \<exists>c.
        \<not> refIsDefinition r \<and> callerOf r = Some c \<and> enclosingFunctionOrMethod r = Some c \<and>
        ArrowFunctionNode \<notin> set (takeWhile
            (\<lambda>a. case a of FunctionDeclarationNode _ \<Rightarrow> False
                          | MethodDeclarationNode _ \<Rightarrow> False | _ \<Rightarrow> True) (refAncestors r)) \<and>
        cnName t = orAnonymous (declName (P c)) \<and>
        cnFile t = relative (declFilePath (P c)) \<and>
        cnLine t = declStartLine (P c)"
    if "t \<in> set (fst (getCallers relative P node depth maxDepth visited))" for t
  proof -
    from that have "t \<in> set (fst (callersLoop relative P (declReferences (P node)) depth
        maxDepth (insert (nodeKey P node) visited)))"
      by (auto simp: getCallers.simps split: if_splits)
    from callersLoop_origin [OF this] obtain r c where r: "r \<in> set (declReferences (P node))"
      "\<not> refIsDefinition r" "callerOf r = Some c"
      "cnName t = orAnonymous (declName (P c))"
      "cnFile t = relative (declFilePath (P c))"
      "cnLine t = declStartLine (P c)" by blast
    from r(3) callerOf_arrow [of r]
    have "ArrowFunctionNode \<notin> set (takeWhile
            (\<lambda>a. case a of FunctionDeclarationNode _ \<Rightarrow> False
                          | MethodDeclarationNode _ \<Rightarrow> False | _ \<Rightarrow> True) (refAncestors r))"
      and "enclosingFunctionOrMethod r = Some c"
      by (auto split: if_splits)
    with r show ?thesis by blast
  qed
  have complete: "fst (getCallers relative P node depth maxDepth visited) =
        fst (callersLoop relative P pre depth maxDepth (insert (nodeKey P node) visited)) @
        CallNode (orAnonymous (declName (P caller))) (relative (declFilePath (P caller)))
          (declStartLine (P caller)) None
          (fst (getCallers relative P caller (depth + 1) maxDepth
                 (snd (callersLoop relative P pre depth maxDepth
                         (insert (nodeKey P node) visited))))) #
        fst (callersLoop relative P post depth maxDepth
               (snd (getCallers relative P caller (depth + 1) maxDepth
                       (snd (callersLoop relative P pre depth maxDepth
                               (insert (nodeKey P node) visited))))))"
    if "depth < maxDepth" "nodeKey P node \<notin> visited"
      "declReferences (P node) = pre @ ref # post" "\<not> refIsDefinition ref"
      "enclosingFunctionOrMethod ref = Some caller"
      "ArrowFunctionNode \<notin> set (takeWhile
            (\<lambda>a. case a of FunctionDeclarationNode _ \<Rightarrow> False
                          | MethodDeclarationNode _ \<Rightarrow> False | _ \<Rightarrow> True) (refAncestors ref))"
      "nodeKey P caller \<notin> snd (callersLoop relative P pre depth maxDepth
                               (insert (nodeKey P node) visited))"
  proof -
    from that(5,6) callerOf_arrow [of ref] have "callerOf ref = Some caller" by simp
    from callers_emit_fresh [OF that(1,2,3,4) this that(7)] show ?thesis .
  qed
  from sound complete callerOf_arrow [of ref] show ?thesis by blast
qed

text \<open>
  \<^verbatim>\<open>f\<close> is referred to from the body of \<^verbatim>\<open>g\<close>, from a function expression inside the
  method \<^verbatim>\<open>m\<close>, and from an arrow function at the top level: the reported callers are
  \<^verbatim>\<open>g\<close> and \<^verbatim>\<open>m\<close>, in this order.
\<close>

theorem caller_of_reference_witness:
  "fst (getCallers (drop 1)
     (\<lambda>d. if d = 0 then
        \<lparr>declName = Some ''f'', declFilePath = ''/p/a.ts'', declStartLine = 1,
         declReferences = [\<lparr>refIsDefinition = True, refAncestors = [OtherNode]\<rparr>,
                           \<lparr>refIsDefinition = False,
                            refAncestors = [OtherNode, FunctionDeclarationNode 1, OtherNode]\<rparr>,
                           \<lparr>refIsDefinition = False,
                            refAncestors = [OtherNode, OtherNode, MethodDeclarationNode 2,
                                            OtherNode]\<rparr>,
                           \<lparr>refIsDefinition = False,
                            refAncestors = [OtherNode, ArrowFunctionNode, OtherNode]\<rparr>],
         declCalls = Some []\<rparr>
      else if d = 1 then
        \<lparr>declName = Some ''g'', declFilePath = ''/p/a.ts'', declStartLine = 5,
         declReferences = [], declCalls = Some []\<rparr>
      else
        \<lparr>declName = Some ''m'', declFilePath = ''/p/b.ts'', declStartLine = 7,
         declReferences = [], declCalls = Some []\<rparr>) 0 0 3 {})
     = [CallNode ''g'' ''p/a.ts'' 5 None [], CallNode ''m'' ''p/b.ts'' 7 None []]
   \<and> callerOf \<lparr>refIsDefinition = False,
               refAncestors = [OtherNode, ArrowFunctionNode, OtherNode]\<rparr> = None
   \<and> callerOf \<lparr>refIsDefinition = False,
               refAncestors = [OtherNode, OtherNode, MethodDeclarationNode 2, OtherNode]\<rparr>
     = Some 2"
proof -
  let ?P = "(\<lambda>d::nat. if d = 0 then
        \<lparr>declName = Some ''f'', declFilePath = ''/p/a.ts'', declStartLine = 1,
         declReferences = [\<lparr>refIsDefinition = True, refAncestors = [OtherNode]\<rparr>,
                           \<lparr>refIsDefinition = False,
                            refAncestors = [OtherNode, FunctionDeclarationNode 1, OtherNode]\<rparr>,
                           \<lparr>refIsDefinition = False,
                            refAncestors = [OtherNode, OtherNode, MethodDeclarationNode 2,
                                            OtherNode]\<rparr>,
                           \<lparr>refIsDefinition = False,
                            refAncestors = [OtherNode, ArrowFunctionNode, OtherNode]\<rparr>],
         declCalls = Some []\<rparr>
      else if d = 1 then
        \<lparr>declName = Some ''g'', declFilePath = ''/p/a.ts'', declStartLine = 5,
         declReferences = [], declCalls = Some []\<rparr>
      else
        \<lparr>declName = Some ''m'', declFilePath = ''/p/b.ts'', declStartLine = 7,
         declReferences = [], declCalls = Some []\<rparr>)"
  let ?def = "\<lparr>refIsDefinition = True, refAncestors = [OtherNode]\<rparr>"
  let ?rg = "\<lparr>refIsDefinition = False,
             refAncestors = [OtherNode, FunctionDeclarationNode 1, OtherNode]\<rparr>"
  let ?rm = "\<lparr>refIsDefinition = False,
             refAncestors = [OtherNode, OtherNode, MethodDeclarationNode 2, OtherNode]\<rparr>"
  let ?ra = "\<lparr>refIsDefinition = False,
             refAncestors = [OtherNode, ArrowFunctionNode, OtherNode]\<rparr>"
  have lt: "(0::int) < 3" by simp
  have fresh: "nodeKey ?P 0 \<notin> {}" by simp
  have refs: "declReferences (?P 0) = [?def, ?rg] @ ?rm # [?ra]" by simp
  have nd: "\<not> refIsDefinition ?rm" by simp
  have enc: "enclosingFunctionOrMethod ?rm = Some 2"
    by (simp add: enclosingFunctionOrMethod_def)
  have noarrow: "ArrowFunctionNode \<notin> set (takeWhile
            (\<lambda>a. case a of FunctionDeclarationNode _ \<Rightarrow> False
                          | MethodDeclarationNode _ \<Rightarrow> False | _ \<Rightarrow> True) (refAncestors ?rm))" by simp
  have unseen: "nodeKey ?P 2 \<notin> snd (callersLoop (drop 1) ?P [?def, ?rg] 0 3
                                     (insert (nodeKey ?P 0) {}))"
    by (simp add: getCallers.simps nodeKey_def orAnonymous_def callerOf_def containingFn_def)
  note complete = caller_of_reference [where ref = ?rm and relative = "drop 1" and P = ?P
      and node = 0 and depth = 0 and maxDepth = 3 and visited = "{}" and pre = "[?def, ?rg]"
      and post = "[?ra]" and caller = 2, THEN conjunct2, THEN conjunct2]
  have "fst (getCallers (drop 1) ?P 0 0 3 {}) =
        fst (callersLoop (drop 1) ?P [?def, ?rg] 0 3 (insert (nodeKey ?P 0) {})) @
        CallNode (orAnonymous (declName (?P 2))) (drop 1 (declFilePath (?P 2)))
          (declStartLine (?P 2)) None
          (fst (getCallers (drop 1) ?P 2 (0 + 1) 3
                 (snd (callersLoop (drop 1) ?P [?def, ?rg] 0 3 (insert (nodeKey ?P 0) {}))))) #
        fst (callersLoop (drop 1) ?P [?ra] 0 3
               (snd (getCallers (drop 1) ?P 2 (0 + 1) 3
                       (snd (callersLoop (drop 1) ?P [?def, ?rg] 0 3
                               (insert (nodeKey ?P 0) {}))))))"
    by (rule mp [OF complete]) (intro conjI lt fresh refs nd enc noarrow unseen)
  then have up: "fst (getCallers (drop 1) ?P 0 0 3 {})
     = [CallNode ''g'' ''p/a.ts'' 5 None [], CallNode ''m'' ''p/b.ts'' 7 None []]"
    by (simp add: getCallers.simps nodeKey_def orAnonymous_def callerOf_def containingFn_def)
  from caller_of_reference [where ref = ?ra and relative = "drop 1" and P = ?P and node = 0
      and depth = 0 and maxDepth = 3 and visited = "{}"]
  have a: "callerOf ?ra = None" by simp
  from caller_of_reference [where ref = ?rm and relative = "drop 1" and P = ?P and node = 0
      and depth = 0 and maxDepth = 3 and visited = "{}"]
  have b: "callerOf ?rm = Some 2" by (simp add: enclosingFunctionOrMethod_def)
  from up a b show ?thesis by simp
qed

subsection \<open>The shared visited set of the upward trace\<close>

text \<open>
  C10, as the claim states it, fails on the last level of the tree: a caller found there is
  never entered into the visited set, because the nested call returns at the depth test
  before it records the key. With depth 1, a function \<^verbatim>\<open>g\<close> that calls \<^verbatim>\<open>f\<close> from two call
  sites appears twice under \<^verbatim>\<open>f\<close>.
\<close>

theorem callers_last_level_counterexample:
  "map identity (nodesOf (traceUp (drop 1)
     ((!) [\<lparr>declName = Some ''f'', declFilePath = ''/p/a.ts'', declStartLine = 5,
            declReferences = [\<lparr>refIsDefinition = True, refAncestors = []\<rparr>,
                              \<lparr>refIsDefinition = False,
                               refAncestors = [OtherNode, FunctionDeclarationNode 1]\<rparr>,
                              \<lparr>refIsDefinition = False,
                               refAncestors = [OtherNode, OtherNode, FunctionDeclarationNode 1]\<rparr>],
            declCalls = Some []\<rparr>,
           \<lparr>declName = Some ''g'', declFilePath = ''/p/a.ts'', declStartLine = 1,
            declReferences = [\<lparr>refIsDefinition = True, refAncestors = []\<rparr>],
            declCalls = None\<rparr>]) 0 1))
     = [(''p/a.ts'', ''f''), (''p/a.ts'', ''g''), (''p/a.ts'', ''g'')]
   \<and> \<not> distinct [(''p/a.ts'', ''f''), (''p/a.ts'', ''g''), (''p/a.ts'', ''g'')]"
  by (simp add: traceUp_def getCallers.simps nodeKey_def orAnonymous_def callerOf_def
      containingFn_def identity_def)

text \<open>
  C10, amended: in an upward trace the visited set is shared by the whole traversal, so a
  declaration is expanded at most once: among the nodes of the callers tree that lie fewer
  than \<open>maxDepth\<close> edges from the root (the root included) each declaration identity
  (file path plus name) appears at most once, and a function that refers to the target from
  two places above the last level is reported under the first one only. The statement does
  not extend to the nodes of the last level.
\<close>

theorem callers_expanded_once:
  assumes inj: "inj_on relative (range (\<lambda>d. declFilePath (P d)))"
  shows "distinct (map identity (nodesAbove maxDepth 0 (traceUp relative P fn maxDepth)))"
proof (cases "0 < maxDepth")
  case False
  then show ?thesis by (simp add: traceUp_def)
next
  case True
  let ?G = "getCallers relative P fn 0 maxDepth {}"
  define E where "E = map identity (concat (map (nodesAbove maxDepth (0 + 1)) (fst ?G)))"
  have inv: "set E \<inter> identsOf relative P (insert (nodeKey P fn) {}) = {}" "distinct E"
    using callers_above_inv(1) [OF inj, of maxDepth 0 fn "{}"] unfolding E_def by blast+
  have "declIdentity relative P fn \<in> identsOf relative P (insert (nodeKey P fn) {})"
    by (rule identsOf_insert)
  with inv(1) have "declIdentity relative P fn \<notin> set E" by blast
  moreover have "map identity (nodesAbove maxDepth 0 (traceUp relative P fn maxDepth))
      = declIdentity relative P fn # E"
    using True unfolding E_def traceUp_def by (simp add: identity_def declIdentity_def)
  ultimately show ?thesis using inv(2) by simp
qed

text \<open>
  With depth 3, \<^verbatim>\<open>g\<close> calls \<^verbatim>\<open>f\<close> from two call sites and \<^verbatim>\<open>h\<close> calls both \<^verbatim>\<open>f\<close> and
  \<^verbatim>\<open>g\<close>: \<^verbatim>\<open>g\<close> is reported once, and \<^verbatim>\<open>h\<close> only below \<^verbatim>\<open>g\<close>, where it was found first.
\<close>

theorem callers_expanded_once_witness:
  "traceUp (drop 1)
     (\<lambda>d. if d = 0 then
        \<lparr>declName = Some ''f'', declFilePath = ''/p/a.ts'', declStartLine = 5,
         declReferences = [\<lparr>refIsDefinition = True, refAncestors = []\<rparr>,
                           \<lparr>refIsDefinition = False,
                            refAncestors = [OtherNode, FunctionDeclarationNode 1]\<rparr>,
                           \<lparr>refIsDefinition = False,
                            refAncestors = [OtherNode, OtherNode, FunctionDeclarationNode 1]\<rparr>,
                           \<lparr>refIsDefinition = False,
                            refAncestors = [OtherNode, FunctionDeclarationNode 2]\<rparr>],
         declCalls = Some []\<rparr>
      else if d = 1 then
        \<lparr>declName = Some ''g'', declFilePath = ''/p/a.ts'', declStartLine = 1,
         declReferences = [\<lparr>refIsDefinition = True, refAncestors = []\<rparr>,
                           \<lparr>refIsDefinition = False,
                            refAncestors = [OtherNode, FunctionDeclarationNode 2]\<rparr>],
         declCalls = Some []\<rparr>
      else
        \<lparr>declName = Some ''h'', declFilePath = ''/p/b.ts'', declStartLine = 3,
         declReferences = [\<lparr>refIsDefinition = True, refAncestors = []\<rparr>],
         declCalls = Some []\<rparr>) 0 3
     = CallNode ''f'' ''p/a.ts'' 5 None
         [CallNode ''g'' ''p/a.ts'' 1 None [CallNode ''h'' ''p/b.ts'' 3 None []]]
   \<and> distinct [(''p/a.ts'', ''f''), (''p/a.ts'', ''g''), (''p/b.ts'', ''h'')]"
proof -
  let ?P = "\<lambda>d::nat. if d = 0 then
        \<lparr>declName = Some ''f'', declFilePath = ''/p/a.ts'', declStartLine = 5,
         declReferences = [\<lparr>refIsDefinition = True, refAncestors = []\<rparr>,
                           \<lparr>refIsDefinition = False,
                            refAncestors = [OtherNode, FunctionDeclarationNode 1]\<rparr>,
                           \<lparr>refIsDefinition = False,
                            refAncestors = [OtherNode, OtherNode, FunctionDeclarationNode 1]\<rparr>,
                           \<lparr>refIsDefinition = False,
                            refAncestors = [OtherNode, FunctionDeclarationNode 2]\<rparr>],
         declCalls = Some []\<rparr>
      else if d = 1 then
        \<lparr>declName = Some ''g'', declFilePath = ''/p/a.ts'', declStartLine = 1,
         declReferences = [\<lparr>refIsDefinition = True, refAncestors = []\<rparr>,
                           \<lparr>refIsDefinition = False,
                            refAncestors = [OtherNode, FunctionDeclarationNode 2]\<rparr>],
         declCalls = Some []\<rparr>
      else
        \<lparr>declName = Some ''h'', declFilePath = ''/p/b.ts'', declStartLine = 3,
         declReferences = [\<lparr>refIsDefinition = True, refAncestors = []\<rparr>],
         declCalls = Some []\<rparr>"
  have inj: "inj_on (drop 1) (range (\<lambda>d. declFilePath (?P d)))"
    by (auto simp: inj_on_def)
  have up: "traceUp (drop 1) ?P 0 3 = CallNode ''f'' ''p/a.ts'' 5 None
         [CallNode ''g'' ''p/a.ts'' 1 None [CallNode ''h'' ''p/b.ts'' 3 None []]]"
    by (simp add: traceUp_def getCallers.simps nodeKey_def orAnonymous_def callerOf_def
        containingFn_def)
  from callers_expanded_once [OF inj, of 3 0] up show ?thesis
    by (simp add: identity_def)
qed

section \<open>Properties of the cycle search\<close>

lemma isPath_append_one:
  "isPath graph (xs @ [x]) \<longleftrightarrow>
     isPath graph xs \<and> (xs = [] \<or> x \<in> set (graphGet graph (last xs)))"
  by (induction graph xs rule: isPath.induct) auto

lemma isPath_drop: "isPath graph xs \<Longrightarrow> isPath graph (drop n xs)"
proof (induction graph xs arbitrary: n rule: isPath.induct)
  case (1 graph)
  then show ?case by simp
next
  case (2 graph x)
  then show ?case by (cases n) simp_all
next
  case (3 graph x y ys)
  then show ?case by (cases n) simp_all
qed

lemma isPath_nth:
  "isPath graph xs \<Longrightarrow> Suc i < length xs \<Longrightarrow> xs ! Suc i \<in> set (graphGet graph (xs ! i))"
proof (induction graph xs arbitrary: i rule: isPath.induct)
  case (1 graph)
  then show ?case by simp
next
  case (2 graph x)
  then show ?case by simp
next
  case (3 graph x y ys)
  then show ?case by (cases i) simp_all
qed

lemma indexOf_member:
  "x \<in> set xs \<Longrightarrow>
     0 \<le> indexOf xs x \<and> nat (indexOf xs x) < length xs \<and> xs ! nat (indexOf xs x) = x"
proof (induction xs)
  case Nil
  then show ?case by simp
next
  case (Cons y ys)
  show ?case
  proof (cases "y = x")
    case True
    then show ?thesis by simp
  next
    case False
    with Cons.prems have "x \<in> set ys" by simp
    from Cons.IH [OF this] False show ?thesis
      by (simp add: Let_def nat_add_distrib)
  qed
qed

lemma pushCycle_inv:
  assumes inv: "dfsInv graph s" and ne: "pathStack s \<noteq> []"
    and edge: "dep \<in> set (graphGet graph (last (pathStack s)))"
    and onStack: "dep \<in> recursionStack s"
  shows "dfsInv graph (pushCycle dep s) \<and> pathStack (pushCycle dep s) = pathStack s"
proof -
  let ?ps = "pathStack s"
  let ?i = "nat (indexOf ?ps dep)"
  let ?cycle = "drop ?i ?ps @ [dep]"
  from inv onStack have mem: "dep \<in> set ?ps" by (simp add: dfsInv_def)
  from indexOf_member [OF mem] have i: "0 \<le> indexOf ?ps dep" "?i < length ?ps" "?ps ! ?i = dep"
    by simp_all
  from i(2) have dne: "drop ?i ?ps \<noteq> []" by simp
  have "hd ?cycle = dep" using i(2,3) dne by (simp add: hd_drop_conv_nth)
  moreover have "last ?cycle = dep" by simp
  moreover have "distinct (butlast ?cycle)" using inv by (simp add: dfsInv_def)
  moreover have "isPath graph ?cycle"
    using inv edge dne i(2) by (simp add: isPath_append_one isPath_drop dfsInv_def)
  moreover have "2 \<le> length ?cycle" using i(2) by simp
  ultimately have "isCycle graph ?cycle" by (simp add: isCycle_def)
  moreover have "pushCycle dep s = s\<lparr>dfsReports := dfsReports s @ [cycleReport ?cycle]\<rparr>"
    using i(1) by (simp add: pushCycle_def Let_def)
  ultimately show ?thesis using inv by (auto simp: dfsInv_def)
qed

lemma enter_inv:
  assumes inv: "dfsInv graph s" and fresh: "node \<notin> dfsVisited s"
    and edge: "pathStack s = [] \<or> node \<in> set (graphGet graph (last (pathStack s)))"
  shows "dfsInv graph (enter node s)"
  using assms by (auto simp: dfsInv_def enter_def isPath_append_one)

lemma leave_inv:
  assumes inv: "dfsInv graph s'" and ps: "pathStack s' = ps @ [node]"
  shows "dfsInv graph (leave node s') \<and> pathStack (leave node s') = ps"
  using assms by (auto simp: dfsInv_def leave_def isPath_append_one)

lemma dfs_inv:
  "dfsInv graph s \<Longrightarrow> node \<notin> dfsVisited s \<Longrightarrow>
     pathStack s = [] \<or> node \<in> set (graphGet graph (last (pathStack s))) \<Longrightarrow>
     dfsInv graph (dfs graph node s) \<and> pathStack (dfs graph node s) = pathStack s"
  "dfsInv graph s \<Longrightarrow> pathStack s \<noteq> [] \<Longrightarrow>
     set deps \<subseteq> set (graphGet graph (last (pathStack s))) \<Longrightarrow>
     dfsInv graph (dfsDeps graph deps s) \<and> pathStack (dfsDeps graph deps s) = pathStack s"
proof (induction graph node s and graph deps s rule: dfs_dfsDeps.induct)
  case (1 graph node s)
  let ?s1 = "enter node s"
  have inv1: "dfsInv graph ?s1" using enter_inv [OF "1.prems"] .
  have ps1: "pathStack ?s1 = pathStack s @ [node]" by (simp add: enter_def)
  from "1.IH" [OF inv1] ps1
  have "dfsInv graph (dfsDeps graph (graphGet graph node) ?s1)"
    and "pathStack (dfsDeps graph (graphGet graph node) ?s1) = pathStack s @ [node]"
    by simp_all
  from leave_inv [OF this] show ?case by (simp add: dfs.simps)
next
  case (2 graph s)
  then show ?case by (simp add: dfsDeps.simps)
next
  case (3 graph dep deps s)
  from "3.prems" have edge: "dep \<in> set (graphGet graph (last (pathStack s)))"
    and rest: "set deps \<subseteq> set (graphGet graph (last (pathStack s)))" by simp_all
  show ?case
  proof (cases "dep \<notin> dfsVisited s")
    case True
    from "3.IH"(1) [OF True "3.prems"(1) True] edge
    have a: "dfsInv graph (dfs graph dep s)" "pathStack (dfs graph dep s) = pathStack s"
      by simp_all
    from "3.IH"(2) [OF True a(1)] a(2) "3.prems"(2) rest True show ?thesis
      by (simp add: dfsDeps.simps)
  next
    case seen: False
    show ?thesis
    proof (cases "dep \<in> recursionStack s")
      case True
      from pushCycle_inv [OF "3.prems"(1,2) edge True]
      have a: "dfsInv graph (pushCycle dep s)" "pathStack (pushCycle dep s) = pathStack s"
        by simp_all
      from "3.IH"(3) [OF seen True a(1)] a(2) "3.prems"(2) rest seen True show ?thesis
        by (simp add: dfsDeps.simps)
    next
      case False
      from "3.IH"(4) [OF seen False "3.prems"(1,2) rest] seen False show ?thesis
        by (simp add: dfsDeps.simps)
    qed
  qed
qed

lemma findCycles_loop_inv:
  "dfsInv graph s \<Longrightarrow> pathStack s = [] \<Longrightarrow>
     dfsInv graph (foldl (\<lambda>s node. if node \<notin> dfsVisited s then dfs graph node s else s) s nodes)
     \<and> pathStack (foldl (\<lambda>s node. if node \<notin> dfsVisited s then dfs graph node s else s) s nodes) = []"
proof (induction nodes arbitrary: s)
  case Nil
  then show ?case by simp
next
  case (Cons node nodes)
  show ?case
  proof (cases "node \<notin> dfsVisited s")
    case True
    from dfs_inv(1) [OF Cons.prems(1) True] Cons.prems(2)
    have "dfsInv graph (dfs graph node s)" "pathStack (dfs graph node s) = []" by simp_all
    from Cons.IH [OF this] True show ?thesis by simp
  next
    case False
    with Cons.IH [OF Cons.prems] show ?thesis by simp
  qed
qed

text \<open>
  C6: every cycle that the cycle detection reports for the dependency graph built from a
  collection of source files is a list of at least two nodes in which the first node is
  repeated as the last, no other node appears twice, and every node is followed by one of
  its dependencies in the graph.
\<close>

theorem reported_cycles_are_cycles:
  "\<forall>r \<in> set (checkCircularDeps joinPath hasSourceFile sourceFiles).
     \<exists>cycle. r = cycleReport cycle \<and>
       2 \<le> length cycle \<and> hd cycle = last cycle \<and> distinct (butlast cycle) \<and>
       (\<forall>i. Suc i < length cycle \<longrightarrow>
          cycle ! Suc i
            \<in> set (graphGet (buildGraph joinPath hasSourceFile sourceFiles) (cycle ! i)))"
proof
  fix r
  assume r: "r \<in> set (checkCircularDeps joinPath hasSourceFile sourceFiles)"
  let ?graph = "buildGraph joinPath hasSourceFile sourceFiles"
  have "dfsInv ?graph initialDfsState" by (simp add: dfsInv_def initialDfsState_def)
  moreover have "pathStack initialDfsState = []" by (simp add: initialDfsState_def)
  ultimately have "dfsInv ?graph
      (foldl (\<lambda>s node. if node \<notin> dfsVisited s then dfs ?graph node s else s)
         initialDfsState (map fst ?graph))"
    using findCycles_loop_inv by blast
  with r obtain cycle where "r = cycleReport cycle" and "isCycle ?graph cycle"
    unfolding checkCircularDeps_def findCycles_def dfsInv_def by blast
  then show "\<exists>cycle. r = cycleReport cycle \<and>
       2 \<le> length cycle \<and> hd cycle = last cycle \<and> distinct (butlast cycle) \<and>
       (\<forall>i. Suc i < length cycle \<longrightarrow> cycle ! Suc i \<in> set (graphGet ?graph (cycle ! i)))"
    using isPath_nth [of ?graph cycle] by (auto simp: isCycle_def)
qed

text \<open>
  The scenario of the specification: \<^verbatim>\<open>A\<close> imports \<^verbatim>\<open>B\<close>, \<^verbatim>\<open>B\<close> imports \<^verbatim>\<open>C\<close> and
  \<^verbatim>\<open>C\<close> imports \<^verbatim>\<open>A\<close> (and a package, which is no edge); the three files are the
  source files of the project. Exactly one cycle is reported,
  \<^verbatim>\<open>A.ts\<close>, \<^verbatim>\<open>B.ts\<close>, \<^verbatim>\<open>C.ts\<close>, \<^verbatim>\<open>A.ts\<close>.
\<close>

theorem reported_cycles_are_cycles_witness:
  "checkCircularDeps (\<lambda>filePath spec. drop 2 spec)
     (\<lambda>tryPath. tryPath \<in> {''A.ts'', ''B.ts'', ''C.ts''})
     [\<lparr>sfPath = ''A.ts'', sfEndLine = 3, sfFunctions = [], sfClasses = [], sfInterfaces = [],
       sfTypeAliases = [], sfImports = [''./B'']\<rparr>,
      \<lparr>sfPath = ''B.ts'', sfEndLine = 3, sfFunctions = [], sfClasses = [], sfInterfaces = [],
       sfTypeAliases = [], sfImports = [''./C'', ''lodash'']\<rparr>,
      \<lparr>sfPath = ''C.ts'', sfEndLine = 3, sfFunctions = [], sfClasses = [], sfInterfaces = [],
       sfTypeAliases = [], sfImports = [''./A'']\<rparr>]
     = [cycleReport [''A.ts'', ''B.ts'', ''C.ts'', ''A.ts'']]
   \<and> buildGraph (\<lambda>filePath spec. drop 2 spec)
     (\<lambda>tryPath. tryPath \<in> {''A.ts'', ''B.ts'', ''C.ts''})
     [\<lparr>sfPath = ''A.ts'', sfEndLine = 3, sfFunctions = [], sfClasses = [], sfInterfaces = [],
       sfTypeAliases = [], sfImports = [''./B'']\<rparr>,
      \<lparr>sfPath = ''B.ts'', sfEndLine = 3, sfFunctions = [], sfClasses = [], sfInterfaces = [],
       sfTypeAliases = [], sfImports = [''./C'', ''lodash'']\<rparr>,
      \<lparr>sfPath = ''C.ts'', sfEndLine = 3, sfFunctions = [], sfClasses = [], sfInterfaces = [],
       sfTypeAliases = [], sfImports = [''./A'']\<rparr>]
     = [(''A.ts'', [''B.ts'']), (''B.ts'', [''C.ts'']), (''C.ts'', [''A.ts''])]"
proof -
  let ?files = "[\<lparr>sfPath = ''A.ts'', sfEndLine = 3, sfFunctions = [], sfClasses = [], sfInterfaces = [],
       sfTypeAliases = [], sfImports = [''./B'']\<rparr>,
      \<lparr>sfPath = ''B.ts'', sfEndLine = 3, sfFunctions = [], sfClasses = [], sfInterfaces = [],
       sfTypeAliases = [], sfImports = [''./C'', ''lodash'']\<rparr>,
      \<lparr>sfPath = ''C.ts'', sfEndLine = 3, sfFunctions = [], sfClasses = [], sfInterfaces = [],
       sfTypeAliases = [], sfImports = [''./A'']\<rparr>]"
  have graph: "buildGraph (\<lambda>filePath spec. drop 2 spec)
       (\<lambda>tryPath. tryPath \<in> {''A.ts'', ''B.ts'', ''C.ts''}) ?files
     = [(''A.ts'', [''B.ts'']), (''B.ts'', [''C.ts'']), (''C.ts'', [''A.ts''])]"
    by (simp add: buildGraph_def fileDeps_def isLocalSpecifier_def EXTENSIONS_def setAdd_def)
  have cycles: "findCycles [(''A.ts'', [''B.ts'']), (''B.ts'', [''C.ts'']), (''C.ts'', [''A.ts''])]
     = [cycleReport [''A.ts'', ''B.ts'', ''C.ts'', ''A.ts'']]"
    by (simp add: findCycles_def initialDfsState_def dfs.simps dfsDeps.simps enter_def leave_def
        graphGet_def pushCycle_def)
  from reported_cycles_are_cycles [of "\<lambda>filePath spec. drop 2 spec"
      "\<lambda>tryPath. tryPath \<in> {''A.ts'', ''B.ts'', ''C.ts''}" ?files] graph cycles
  show ?thesis by (simp add: checkCircularDeps_def)
qed

end
